theory Spec2Isabelle
  imports Main "HOL-Library.Word" "HOL-Library.Signed_Division" "HOL-Library.AList"
    "HOL-Library.Multiset"
begin

section \<open>The VergeIO Packer builder: data model\<close>

text \<open>
  The builder drives one virtual machine through a fixed pipeline of steps. Every step
  has a \<open>Run\<close> and a \<open>Cleanup\<close> method and shares a string-keyed state bag with
  the other steps. The steps talk to the VergeIO control plane through a thin HTTP
  client. The embedding keeps that shape:
  \<^item> Go structs are records (only the fields that the control flow reads are kept; the
    VM attributes that are copied verbatim into the creation request are left out);
  \<^item> the state bag is a map from key strings to a datatype of the values that the code
    stores under them; a failed type assertion (\<open>state.Get(k).(T)\<close> on a missing key or
    on a value of another type) is a runtime panic, modelled as the result \<open>Panic\<close>;
  \<^item> an \<open>error\<close> value keeps the format string of \<open>fmt.Errorf\<close> and its arguments;
  \<^item> the control plane is an oracle: a function from the history of effects so far and
    the next request to the reply; every request and every \<open>time.Sleep\<close> is appended
    to the history, so that the history is also the observable behaviour of a step;
  \<^item> a \<open>select\<close> between a ticker and a deadline is resolved by the environment: the
    number of ticks that are delivered before the deadline fires is a parameter.
  Console output (\<open>ui.Say\<close>, \<open>ui.Error\<close>, \<open>log.Printf\<close>) is not modelled.
\<close>

type_synonym int64 = "64 word"

datatype StepAction = ActionContinue | ActionHalt

datatype http_method = GET | POST | PUT | DELETE

text \<open>
  The endpoints of \<open>client/*.go\<close>: \<open>VMItem k\<close> stands for \<open>VMEndpoint + "/" + k\<close>,
  \<open>DiskItem k\<close> for \<open>DiskEndpoint + "/" + k\<close>.
\<close>

datatype endpoint =
    VMEndpoint | VMItem string | VMActionEndpoint
  | DiskEndpoint | DiskItem string | NICEndpoint

record CloudInitFile =
  cif_Name :: string
  cif_Contents :: string

record VMDiskResourceModel =
  disk_Machine :: int
  disk_Name :: string
  disk_Media :: string
  disk_DiskSize :: int64

record VMNicResourceModel =
  nic_Machine :: int
  nic_Name :: string

record VmDiskConfig =
  dc_Name :: string
  dc_Media :: string
  dc_DiskSize :: int64

record VmNicConfig =
  nc_Name :: string

record ClusterConfig =
  cc_Username :: string
  cc_Password :: string
  cc_Insecure :: bool
  cc_Endpoint :: string

record VmConfig =
  vm_Machine :: int
  vm_Name :: string
  vm_GuestAgent :: bool
  vm_VmDiskConfigs :: "VmDiskConfig list"
  vm_VmNicConfigs :: "VmNicConfig list"
  vm_CloudInitFiles :: "CloudInitFile list"

text \<open>\<open>Config\<close> embeds \<open>ClusterConfig\<close> and \<open>VmConfig\<close>; durations are in seconds.\<close>

record Config =
  cfg_ClusterConfig :: ClusterConfig
  cfg_VmConfig :: VmConfig
  cfg_ShutdownCommand :: string
  cfg_ShutdownTimeout :: nat
  cfg_PowerOnTimeout :: nat
  cfg_BootTimeout :: nat

record VMAPIResourceModel =
  api_Id :: string
  api_Machine :: int
  api_Name :: string
  api_GuestAgent :: bool
  api_CloudInitFiles :: "CloudInitFile list"

subsection \<open>Errors\<close>

text \<open>
  \<open>Errorf fmt args\<close> is \<open>fmt.Errorf(fmt, args...)\<close> with the format string of the
  source; \<open>ErrorsNew s\<close> is \<open>errors.New(s)\<close>. \<open>TransportError\<close> is an error of the
  HTTP client itself and \<open>ApiError status endpoint\<close> the \<open>client.Error\<close> that
  \<open>Client.Do\<close> builds from a reply below 200 or from 400 on.
\<close>

datatype error =
    ErrorsNew string
  | Errorf string "arg list"
  | TransportError string
  | ApiError nat endpoint
and arg = AStr string | AInt int | ADuration nat | AErr error

subsection \<open>Requests, replies and the history of effects\<close>

datatype payload =
    NoPayload
  | VMPayload VMAPIResourceModel
  | DiskPayload VMDiskResourceModel
  | NicPayload VMNicResourceModel
  | ActionPayload string string
  | DiskSizePayload int64

record request =
  req_method :: http_method
  req_endpoint :: endpoint
  req_payload :: payload
  req_fields :: string

text \<open>
  The body of a reply, as \<open>encoding/json\<close> sees it. \<open>DocUndecodable m\<close> is a body on
  which the decoder fails with the message \<open>m\<close>; a document of another shape than the one a caller decodes
  leaves the caller's fields at their zero values, as the decoder does for absent fields.
  \<open>DocVM\<close> is a VM object: each member is \<open>None\<close> when the body does not hold it.
  \<open>DocGuest\<close> carries \<open>machine.status.agent_guest_info\<close>: \<open>None\<close> when absent,
  otherwise the interfaces, each a name with its (address type, address) pairs.
\<close>

record VMDocument =
  doc_id :: "string option"
  doc_machine :: "int option"
  doc_name :: "string option"
  doc_guest_agent :: "bool option"
  doc_cloudinit_files :: "CloudInitFile list option"

datatype doc =
    DocEmpty
  | DocNoBody
  | DocUndecodable string
  | DocKey string
  | DocVM VMDocument
  | DocDiskStatus string
  | DocDisk int64
  | DocPowerState "bool option"
  | DocGuest "(string \<times> (string \<times> string) list) list option"

datatype reply = NoConnection string | HttpReply nat doc

datatype event = Http request | Sleep nat | SettleTimer

type_synonym trace = "event list"

text \<open>
  The environment of a build: the control plane, and the verdict of the standard
  library's \<open>net.ParseIP(s).IsLoopback()\<close> (with \<open>False\<close> where the string does not
  parse), which is not code of this repository. \<open>To_LowerCase\<close> stands for the case
  tables of the standard library's package \<open>unicode\<close>: it is
  \<open>unicode.To(unicode.LowerCase, r)\<close> for the runes \<open>r\<close> above U+007F.
\<close>

record env =
  http :: "trace \<Rightarrow> request \<Rightarrow> reply"
  ParseIP_IsLoopback :: "string \<Rightarrow> bool"
  To_LowerCase :: "nat \<Rightarrow> nat"

subsection \<open>The state bag\<close>

datatype val =
    VBool bool
  | VString string
  | VStrings "string list"
  | VInt int
  | VError error
  | VClusterConfig ClusterConfig
  | VVmConfig VmConfig
  | VConfig Config
  | VDisks "VMDiskResourceModel list"
  | VCommunicator

type_synonym StateBag = "string \<rightharpoonup> val"

text \<open>\<open>state.Get(k).(string)\<close> and its siblings: \<open>None\<close> is the panic.\<close>

definition get_string :: "StateBag \<Rightarrow> string \<Rightarrow> string option" where
  "get_string st k = (case st k of Some (VString s) \<Rightarrow> Some s | _ \<Rightarrow> None)"

definition get_cluster_config :: "StateBag \<Rightarrow> string \<Rightarrow> ClusterConfig option" where
  "get_cluster_config st k = (case st k of Some (VClusterConfig c) \<Rightarrow> Some c | _ \<Rightarrow> None)"

definition get_vm_config :: "StateBag \<Rightarrow> string \<Rightarrow> VmConfig option" where
  "get_vm_config st k = (case st k of Some (VVmConfig c) \<Rightarrow> Some c | _ \<Rightarrow> None)"

definition get_config :: "StateBag \<Rightarrow> string \<Rightarrow> Config option" where
  "get_config st k = (case st k of Some (VConfig c) \<Rightarrow> Some c | _ \<Rightarrow> None)"

text \<open>\<open>v.(string)\<close> and \<open>v.(bool)\<close> on a value already fetched with \<open>GetOk\<close>.\<close>

definition as_string :: "val \<Rightarrow> string option" where
  "as_string v = (case v of VString s \<Rightarrow> Some s | _ \<Rightarrow> None)"

definition as_bool :: "val \<Rightarrow> bool option" where
  "as_bool v = (case v of VBool b \<Rightarrow> Some b | _ \<Rightarrow> None)"

section \<open>The HTTP client (client/client.go)\<close>

text \<open>
  \<open>Client.Do\<close>: the request is sent; an error of the transport is returned as it is; a
  status below 200 or from 400 on becomes a \<open>client.Error\<close>; any other reply is handed
  to the caller.
\<close>

definition Do :: "env \<Rightarrow> request \<Rightarrow> trace \<Rightarrow> (error + nat \<times> doc) \<times> trace" where
  "Do e req tr =
     (case http e tr req of
        NoConnection m \<Rightarrow> (Inl (TransportError m), tr @ [Http req])
      | HttpReply status body \<Rightarrow>
          if status \<ge> 400 \<or> status < 200
          then (Inl (ApiError status (req_endpoint req)), tr @ [Http req])
          else (Inr (status, body), tr @ [Http req]))"

definition Get :: "env \<Rightarrow> endpoint \<Rightarrow> string \<Rightarrow> trace \<Rightarrow> (error + nat \<times> doc) \<times> trace" where
  "Get e ep flds tr =
     Do e \<lparr>req_method = GET, req_endpoint = ep, req_payload = NoPayload, req_fields = flds\<rparr> tr"

definition Post :: "env \<Rightarrow> endpoint \<Rightarrow> payload \<Rightarrow> trace \<Rightarrow> (error + nat \<times> doc) \<times> trace" where
  "Post e ep p tr =
     Do e \<lparr>req_method = POST, req_endpoint = ep, req_payload = p, req_fields = []\<rparr> tr"

definition Put :: "env \<Rightarrow> endpoint \<Rightarrow> payload \<Rightarrow> trace \<Rightarrow> (error + nat \<times> doc) \<times> trace" where
  "Put e ep p tr =
     Do e \<lparr>req_method = PUT, req_endpoint = ep, req_payload = p, req_fields = []\<rparr> tr"

definition Delete :: "env \<Rightarrow> endpoint \<Rightarrow> trace \<Rightarrow> (error + nat \<times> doc) \<times> trace" where
  "Delete e ep tr =
     Do e \<lparr>req_method = DELETE, req_endpoint = ep, req_payload = NoPayload, req_fields = []\<rparr> tr"

section \<open>Virtual machines (client/vm\_api.go)\<close>

text \<open>
  \<open>Client.Do\<close> never returns a nil response without an error, and encoding these
  structs cannot fail, so the branches for a missing response and for an encoding error
  are left out. The structs that the callers pass by pointer are returned updated.
\<close>

text \<open>
  \<open>json.Decoder.Decode\<close> into the struct that the caller passed: a member that the
  body holds overwrites the field, every other field is kept.
\<close>

definition decode_vm :: "VMDocument \<Rightarrow> VMAPIResourceModel \<Rightarrow> VMAPIResourceModel" where
  "decode_vm d data =
     \<lparr>api_Id = (case doc_id d of None \<Rightarrow> api_Id data | Some v \<Rightarrow> v),
      api_Machine = (case doc_machine d of None \<Rightarrow> api_Machine data | Some v \<Rightarrow> v),
      api_Name = (case doc_name d of None \<Rightarrow> api_Name data | Some v \<Rightarrow> v),
      api_GuestAgent = (case doc_guest_agent d of None \<Rightarrow> api_GuestAgent data | Some v \<Rightarrow> v),
      api_CloudInitFiles =
        (case doc_cloudinit_files d of None \<Rightarrow> api_CloudInitFiles data | Some v \<Rightarrow> v)\<rparr>"

definition readVM :: "env \<Rightarrow> VMAPIResourceModel \<Rightarrow> trace \<Rightarrow> error option \<times> VMAPIResourceModel \<times> trace" where
  "readVM e data tr =
     (case Get e (VMItem (api_Id data))
        ''id,machine,name,cluster,description,enabled,machine_type,allow_hotplug,disable_powercycle,cpu_cores,cpu_type,ram,console,display,video,sound,os_family,os_description,rtc_base,boot_order,console_pass_enabled,console_pass,usb_tablet,uefi,secure_boot,serial_port,boot_delay,preferred_node,snapshot_profile,cloudinit_datasource,ha_group,guest_agent,advanced,nested_virtualization,disable_hypervisor,machine#status#running as powerstate''
        tr of
        (Inl err, tr') \<Rightarrow> (Some err, data, tr')
      | (Inr (status, body), tr') \<Rightarrow>
          if status \<noteq> 200
          then (Some (Errorf ''missing response from API %d'' [AInt (int status)]), data, tr')
          else (case body of
                  DocUndecodable m \<Rightarrow>
                    (Some (Errorf ''invalid format received for VM Item: %v'' [AErr (ErrorsNew m)]),
                     data, tr')
                | DocVM d \<Rightarrow> (None, decode_vm d data, tr')
                | _ \<Rightarrow> (None, data, tr')))"

definition CreateVM :: "env \<Rightarrow> VMAPIResourceModel \<Rightarrow> trace \<Rightarrow> error option \<times> VMAPIResourceModel \<times> trace" where
  "CreateVM e apiData tr =
     (case Post e VMEndpoint (VMPayload apiData) tr of
        (Inl err, tr') \<Rightarrow> (Some err, apiData, tr')
      | (Inr (status, body), tr') \<Rightarrow>
          if status \<noteq> 201
          then (Some (Errorf ''missing response from API %d'' [AInt (int status)]), apiData, tr')
          else (case body of
                  DocUndecodable m \<Rightarrow>
                    (Some (Errorf ''invalid format received for VM Item: %v'' [AErr (ErrorsNew m)]),
                     apiData, tr')
                | _ \<Rightarrow>
                    let apiData' = apiData\<lparr>api_Id := (case body of DocKey k \<Rightarrow> k | _ \<Rightarrow> [])\<rparr>
                    in (case readVM e apiData' tr' of
                          (Some readError, data, tr'') \<Rightarrow>
                            (Some (Errorf ''Error reading the VM: %v'' [AErr readError]), data, tr'')
                        | (None, data, tr'') \<Rightarrow> (None, data, tr''))))"

definition DeleteVM :: "env \<Rightarrow> string \<Rightarrow> trace \<Rightarrow> error option \<times> trace" where
  "DeleteVM e vmId tr =
     (case Delete e (VMItem vmId) tr of
        (Inl err, tr') \<Rightarrow> (Some (Errorf ''error deleting VM %s: %w'' [AStr vmId, AErr err]), tr')
      | (Inr (status, body), tr') \<Rightarrow>
          if status \<noteq> 200 \<and> status \<noteq> 204
          then (Some (Errorf ''failed to delete VM %s, status code: %d'' [AStr vmId, AInt (int status)]),
                tr')
          else (None, tr'))"

definition IsVMRunning :: "env \<Rightarrow> string \<Rightarrow> trace \<Rightarrow> (error + bool option) \<times> trace" where
  "IsVMRunning e vmId tr =
     (case Get e (VMItem vmId) ''machine#status#running as powerstate'' tr of
        (Inl err, tr') \<Rightarrow> (Inl err, tr')
      | (Inr (status, body), tr') \<Rightarrow>
          if status \<noteq> 200
          then (Inl (Errorf ''missing response from API %d'' [AInt (int status)]), tr')
          else (case body of
                  DocUndecodable m \<Rightarrow>
                    (Inl (Errorf ''invalid format received for VM power state: %v''
                            [AErr (ErrorsNew m)]), tr')
                | DocPowerState powerState \<Rightarrow> (Inr powerState, tr')
                | _ \<Rightarrow> (Inr None, tr')))"

definition changeVMPowerState :: "env \<Rightarrow> string \<Rightarrow> string \<Rightarrow> trace \<Rightarrow> error option \<times> trace" where
  "changeVMPowerState e vmKey desiredState tr =
     (case Post e VMActionEndpoint (ActionPayload vmKey desiredState) tr of
        (Inl err, tr') \<Rightarrow> (Some err, tr')
      | (Inr (status, body), tr') \<Rightarrow>
          if status \<noteq> 201
          then (Some (Errorf ''failed to change the VM power state: status code %v''
                        [AInt (int status)]), tr')
          else (None, tr'))"

definition PowerOnVM :: "env \<Rightarrow> string \<Rightarrow> trace \<Rightarrow> error option \<times> trace" where
  "PowerOnVM e vmKey tr =
     (case changeVMPowerState e vmKey ''poweron'' tr of
        (Some err, tr') \<Rightarrow> (Some err, tr')
      | (None, tr') \<Rightarrow> (None, tr' @ [Sleep 10]))"

definition PowerOffVM :: "env \<Rightarrow> string \<Rightarrow> trace \<Rightarrow> error option \<times> trace" where
  "PowerOffVM e vmKey tr =
     (case changeVMPowerState e vmKey ''kill'' tr of
        (Some err, tr') \<Rightarrow> (Some err, tr')
      | (None, tr') \<Rightarrow> (None, tr' @ [Sleep 5]))"

section \<open>Network interfaces (client/nic\_api.go)\<close>

definition CreateVMNic :: "env \<Rightarrow> VMNicResourceModel \<Rightarrow> trace \<Rightarrow> error option \<times> trace" where
  "CreateVMNic e apiData tr =
     (case Post e NICEndpoint (NicPayload apiData) tr of
        (Inl err, tr') \<Rightarrow> (Some err, tr')
      | (Inr (status, body), tr') \<Rightarrow>
          if status \<noteq> 201
          then (Some (Errorf ''missing response from the API %d'' [AInt (int status)]), tr')
          else (case body of
                  DocUndecodable m \<Rightarrow>
                    (Some (Errorf ''invalid format received for creating a NIC %v''
                             [AErr (ErrorsNew m)]), tr')
                | _ \<Rightarrow> (None, tr')))"

section \<open>Drives (client/drive\_api.go)\<close>

definition CreateVMDiskWithKey :: "env \<Rightarrow> VMDiskResourceModel \<Rightarrow> trace \<Rightarrow> (error + string) \<times> trace" where
  "CreateVMDiskWithKey e apiData tr =
     (case Post e DiskEndpoint (DiskPayload apiData) tr of
        (Inl err, tr') \<Rightarrow> (Inl err, tr')
      | (Inr (status, body), tr') \<Rightarrow>
          if status \<noteq> 201
          then (Inl (Errorf ''missing response from the API %d'' [AInt (int status)]), tr')
          else (case body of
                  DocUndecodable m \<Rightarrow>
                    (Inl (Errorf ''invalid format received for creating a disk %v''
                            [AErr (ErrorsNew m)]), tr')
                | DocKey k \<Rightarrow> (Inr k, tr')
                | _ \<Rightarrow> (Inr [], tr')))"

definition CheckDiskImportStatus :: "env \<Rightarrow> string \<Rightarrow> trace \<Rightarrow> (error + string) \<times> trace" where
  "CheckDiskImportStatus e diskKey tr =
     (case Get e (DiskItem diskKey) ''status#status as powerState'' tr of
        (Inl err, tr') \<Rightarrow> (Inl (Errorf ''failed to get disk status: %w'' [AErr err]), tr')
      | (Inr (status, body), tr') \<Rightarrow>
          if status \<noteq> 200
          then (Inl (Errorf ''VergeIO API returned status code %d'' [AInt (int status)]), tr')
          else (case body of
                  DocUndecodable m \<Rightarrow>
                    (Inl (Errorf ''failed to decode disk status response: %w''
                            [AErr (ErrorsNew m)]), tr')
                | DocDiskStatus powerState \<Rightarrow> (Inr powerState, tr')
                | _ \<Rightarrow> (Inr [], tr')))"

text \<open>
  \<open>strings.ToLower\<close> of the standard library, on a string as the sequence of its bytes.
  In a string of ASCII bytes only, the capitals are replaced by their small letters. Any
  other string goes through \<open>strings.Map(unicode.ToLower, s)\<close>: it is read rune by rune
  as \<open>range\<close> reads it (\<open>utf8.DecodeRuneInString\<close>: a byte that starts no valid
  UTF-8 sequence is the rune U+FFFD of width 1), every rune is mapped by
  \<open>unicode.ToLower\<close> and written in UTF-8 (\<open>utf8.AppendRune\<close>: a surrogate or a
  value above U+10FFFF is written as U+FFFD). Runes are natural numbers here;
  \<open>unicode.ToLower\<close> never returns a negative rune, so the branch of \<open>Map\<close> that
  drops a rune is left out.
\<close>

definition ToLower_char :: "char \<Rightarrow> char" where
  "ToLower_char c =
     (case map_of (zip ''ABCDEFGHIJKLMNOPQRSTUVWXYZ'' ''abcdefghijklmnopqrstuvwxyz'') c of
        None \<Rightarrow> c
      | Some l \<Rightarrow> l)"

definition RuneError :: nat where
  "RuneError = 0xFFFD"

text \<open>
  The table \<open>first\<close> of the package \<open>utf8\<close> for a leading byte from 0x80 on: the
  length of the sequence and the range that the second byte must lie in.
\<close>

definition utf8_first :: "nat \<Rightarrow> (nat \<times> nat \<times> nat) option" where
  "utf8_first s0 =
     (if 0xC2 \<le> s0 \<and> s0 \<le> 0xDF then Some (2, 0x80, 0xBF)
      else if s0 = 0xE0 then Some (3, 0xA0, 0xBF)
      else if 0xE1 \<le> s0 \<and> s0 \<le> 0xEC then Some (3, 0x80, 0xBF)
      else if s0 = 0xED then Some (3, 0x80, 0x9F)
      else if 0xEE \<le> s0 \<and> s0 \<le> 0xEF then Some (3, 0x80, 0xBF)
      else if s0 = 0xF0 then Some (4, 0x90, 0xBF)
      else if 0xF1 \<le> s0 \<and> s0 \<le> 0xF3 then Some (4, 0x80, 0xBF)
      else if s0 = 0xF4 then Some (4, 0x80, 0x8F)
      else None)"

definition DecodeRuneInString :: "string \<Rightarrow> nat \<times> nat" where
  "DecodeRuneInString s =
     (case map (of_char :: char \<Rightarrow> nat) s of
        [] \<Rightarrow> (RuneError, 0)
      | s0 # rest \<Rightarrow>
          if s0 < 0x80 then (s0, 1)
          else (case utf8_first s0 of
                  None \<Rightarrow> (RuneError, 1)
                | Some (sz, lo, hi) \<Rightarrow>
                    if length s < sz then (RuneError, 1)
                    else
                      let s1 = rest ! 0
                      in if s1 < lo \<or> hi < s1 then (RuneError, 1)
                         else if sz \<le> 2 then (s0 mod 32 * 64 + s1 mod 64, 2)
                         else
                           let s2 = rest ! 1
                           in if s2 < 0x80 \<or> 0xBF < s2 then (RuneError, 1)
                              else if sz \<le> 3
                              then (s0 mod 16 * 4096 + s1 mod 64 * 64 + s2 mod 64, 3)
                              else
                                let s3 = rest ! 2
                                in if s3 < 0x80 \<or> 0xBF < s3 then (RuneError, 1)
                                   else (s0 mod 8 * 262144 + s1 mod 64 * 4096
                                           + s2 mod 64 * 64 + s3 mod 64, 4)))"

text \<open>The runes that \<open>for _, c := range s\<close> goes through.\<close>

fun runes :: "string \<Rightarrow> nat list" where
  "runes [] = []"
| "runes (c # s) =
     (case DecodeRuneInString (c # s) of
        (r, width) \<Rightarrow> r # runes (drop (width - 1) s))"

definition EncodeRune3 :: "nat \<Rightarrow> string" where
  "EncodeRune3 r = [char_of (0xE0 + r div 4096), char_of (0x80 + r div 64 mod 64),
                    char_of (0x80 + r mod 64)]"

definition AppendRune :: "nat \<Rightarrow> string" where
  "AppendRune r =
     (if r \<le> 0x7F then [char_of r]
      else if r \<le> 0x7FF then [char_of (0xC0 + r div 64), char_of (0x80 + r mod 64)]
      else if r > 0x10FFFF \<or> (0xD800 \<le> r \<and> r \<le> 0xDFFF) then EncodeRune3 RuneError
      else if r \<le> 0xFFFF then EncodeRune3 r
      else [char_of (0xF0 + r div 262144), char_of (0x80 + r div 4096 mod 64),
            char_of (0x80 + r div 64 mod 64), char_of (0x80 + r mod 64)])"

definition strings_Map :: "(nat \<Rightarrow> nat) \<Rightarrow> string \<Rightarrow> string" where
  "strings_Map mapping s = concat (map (\<lambda>c. AppendRune (mapping c)) (runes s))"

definition unicode_ToLower :: "env \<Rightarrow> nat \<Rightarrow> nat" where
  "unicode_ToLower e r =
     (if r \<le> 0x7F then (if 0x41 \<le> r \<and> r \<le> 0x5A then r + 0x20 else r)
      else To_LowerCase e r)"

definition ToLower :: "env \<Rightarrow> string \<Rightarrow> string" where
  "ToLower e s =
     (if list_all (\<lambda>c. (of_char c :: nat) < 0x80) s then map ToLower_char s
      else strings_Map (unicode_ToLower e) s)"

text \<open>
  The inner loop of \<open>WaitForDiskImportCompletion\<close>, \<open>for retries < maxRetries\<close>,
  for one disk: \<open>None\<close> when the loop is left normally, the error otherwise.
\<close>

function wait_disk :: "env \<Rightarrow> string \<Rightarrow> int \<Rightarrow> int \<Rightarrow> trace \<Rightarrow> error option \<times> trace" where
  "wait_disk e diskKey maxRetries retries tr =
     (if retries < maxRetries then
        (case CheckDiskImportStatus e diskKey tr of
           (Inl err, tr') \<Rightarrow>
             (Some (Errorf ''failed to check disk import status: %w'' [AErr err]), tr')
         | (Inr status, tr') \<Rightarrow>
             if ToLower e status \<noteq> ''importing'' then (None, tr')
             else if retries + 1 \<ge> maxRetries
             then (Some (Errorf ''disk %s failed to complete import after %d retries, last status: %s''
                           [AStr diskKey, AInt maxRetries, AStr status]), tr')
             else wait_disk e diskKey maxRetries (retries + 1) (tr' @ [Sleep 5]))
      else (None, tr))"
  by pat_completeness auto
termination
  by (relation "measure (\<lambda>(e, diskKey, maxRetries, retries, tr). nat (maxRetries - retries))") auto

declare wait_disk.simps [simp del]

fun wait_disks :: "env \<Rightarrow> string list \<Rightarrow> int \<Rightarrow> trace \<Rightarrow> error option \<times> trace" where
  "wait_disks e [] maxRetries tr = (None, tr)"
| "wait_disks e (diskKey # rest) maxRetries tr =
     (case wait_disk e diskKey maxRetries 0 tr of
        (Some err, tr') \<Rightarrow> (Some err, tr')
      | (None, tr') \<Rightarrow> wait_disks e rest maxRetries tr')"

definition WaitForDiskImportCompletion :: "env \<Rightarrow> string list \<Rightarrow> int \<Rightarrow> trace \<Rightarrow> error option \<times> trace" where
  "WaitForDiskImportCompletion e diskKeys maxRetries tr =
     (if length diskKeys = 0 then (None, tr)
      else wait_disks e diskKeys maxRetries (tr @ [Sleep 5]))"

text \<open>
  \<open>ReadDisk\<close> decodes the reply into a fresh struct, of which the callers read
  \<open>DiskSize\<close> only.
\<close>

definition ReadDisk :: "env \<Rightarrow> string \<Rightarrow> trace \<Rightarrow> (error + VMDiskResourceModel) \<times> trace" where
  "ReadDisk e diskKey tr =
     (case Get e (DiskItem diskKey)
        ''machine,name,disksize,interface,media,description,enabled,serial,media_source,preferred_tier,readonly,preserve_drive_format,asset,orderid''
        tr of
        (Inl err, tr') \<Rightarrow> (Inl (Errorf ''failed to read disk: %w'' [AErr err]), tr')
      | (Inr (status, body), tr') \<Rightarrow>
          if status \<noteq> 200
          then (Inl (Errorf ''VergeIO API returned status code %d'' [AInt (int status)]), tr')
          else (case body of
                  DocUndecodable m \<Rightarrow>
                    (Inl (Errorf ''failed to decode disk response: %w'' [AErr (ErrorsNew m)]), tr')
                | DocDisk disksize \<Rightarrow>
                    (Inr \<lparr>disk_Machine = 0, disk_Name = [], disk_Media = [], disk_DiskSize = disksize\<rparr>,
                     tr')
                | _ \<Rightarrow>
                    (Inr \<lparr>disk_Machine = 0, disk_Name = [], disk_Media = [], disk_DiskSize = 0\<rparr>,
                     tr')))"

text \<open>The payload is \<open>requestedSizeGB * 1024 * 1024 * 1024\<close> in \<open>int64\<close>, which wraps.\<close>

definition UpdateDiskSize :: "env \<Rightarrow> string \<Rightarrow> int64 \<Rightarrow> trace \<Rightarrow> error option \<times> trace" where
  "UpdateDiskSize e diskKey requestedSizeGB tr =
     (case Put e (DiskItem diskKey) (DiskSizePayload (requestedSizeGB * 1024 * 1024 * 1024)) tr of
        (Inl err, tr') \<Rightarrow> (Some (Errorf ''failed to update disk size: %w'' [AErr err]), tr')
      | (Inr (status, body), tr') \<Rightarrow>
          if status \<noteq> 200
          then (Some (Errorf ''VergeIO API returned status code %d for disk update''
                        [AInt (int status)]), tr')
          else (None, tr'))"

text \<open>Go's \<open>/\<close> on \<open>int64\<close>: the quotient is truncated towards zero.\<close>

definition int64_quo :: "int64 \<Rightarrow> int64 \<Rightarrow> int64" where
  "int64_quo a b = word_of_int (sint a sdiv sint b)"

text \<open>
  The loop \<open>for i, diskKey := range diskKeys\<close> of \<open>CheckAndResizeImportedDisks\<close>.
  The map \<open>diskSizeMap\<close> that the function builds first is never read.
\<close>

fun resize_loop ::
  "env \<Rightarrow> VMDiskResourceModel list \<Rightarrow> nat \<Rightarrow> string list \<Rightarrow> trace \<Rightarrow> error option \<times> trace" where
  "resize_loop e diskConfigs i [] tr = (None, tr)"
| "resize_loop e diskConfigs i (diskKey # rest) tr =
     (if i \<ge> length diskConfigs then resize_loop e diskConfigs (Suc i) rest tr
      else
        let config = diskConfigs ! i;
            requestedSizeGB = disk_DiskSize config
        in case ReadDisk e diskKey tr of
             (Inl err, tr') \<Rightarrow>
               (Some (Errorf ''failed to read disk %s after import: %w''
                        [AStr (disk_Name config), AErr err]), tr')
           | (Inr currentDisk, tr') \<Rightarrow>
               let currentSizeGB = int64_quo (disk_DiskSize currentDisk) (1024 * 1024 * 1024)
               in if currentSizeGB \<noteq> requestedSizeGB
                  then (case UpdateDiskSize e diskKey requestedSizeGB tr' of
                          (Some err, tr'') \<Rightarrow>
                            (Some (Errorf ''failed to resize disk %s: %w''
                                     [AStr (disk_Name config), AErr err]), tr'')
                        | (None, tr'') \<Rightarrow> resize_loop e diskConfigs (Suc i) rest tr'')
                  else resize_loop e diskConfigs (Suc i) rest tr')"

definition CheckAndResizeImportedDisks ::
  "env \<Rightarrow> VMDiskResourceModel list \<Rightarrow> string list \<Rightarrow> trace \<Rightarrow> error option \<times> trace" where
  "CheckAndResizeImportedDisks e diskConfigs diskKeys tr =
     (if length diskConfigs = 0 \<or> length diskKeys = 0 then (None, tr)
      else resize_loop e diskConfigs 0 diskKeys tr)"

section \<open>Guest-agent addresses (client/vm\_api.go)\<close>

text \<open>
  The inner loops of \<open>GetGuestAgentIPs\<close>: of every interface, in the order of the
  reply, the addresses of type \<open>ipv4\<close> that are not empty and not loopback.
\<close>

definition guest_ipv4 ::
  "env \<Rightarrow> (string \<times> (string \<times> string) list) list \<Rightarrow> string list" where
  "guest_ipv4 e networks =
     concat (map (\<lambda>(name, ips).
       map snd (filter (\<lambda>(ty, a). ty = ''ipv4'' \<and> a \<noteq> [] \<and> \<not> ParseIP_IsLoopback e a) ips))
       networks)"

definition GetGuestAgentIPs :: "env \<Rightarrow> string \<Rightarrow> trace \<Rightarrow> (error + string list) \<times> trace" where
  "GetGuestAgentIPs e vmId tr =
     (case Get e (VMItem vmId) ''dashboard'' tr of
        (Inl err, tr') \<Rightarrow>
          (Inl (Errorf ''failed to get guest agent info from VergeIO API: %w'' [AErr err]), tr')
      | (Inr (status, body), tr') \<Rightarrow>
          if status \<noteq> 200
          then (Inl (Errorf ''VergeIO API returned status code %d when requesting guest agent info''
                       [AInt (int status)]), tr')
          else (case body of
                  DocNoBody \<Rightarrow> (Inl (Errorf ''no guest agent data available'' []), tr')
                | DocUndecodable m \<Rightarrow> (Inr [], tr')
                | DocGuest (Some networks) \<Rightarrow> (Inr (guest_ipv4 e networks), tr')
                | _ \<Rightarrow> (Inr [], tr')))"

section \<open>Waiting for a guest-reported address (builder/vergeio/step\_wait\_for\_ip.go)\<close>

text \<open>
  A Go \<open>map[string]bool\<close> is an association list with one entry per key; reading a
  missing key yields \<open>false\<close>.
\<close>

definition map_index :: "(string \<times> bool) list \<Rightarrow> string \<Rightarrow> bool" where
  "map_index m k = (case map_of m k of Some v \<Rightarrow> v | None \<Rightarrow> False)"

definition ipSlicesEqual :: "string list \<Rightarrow> string list \<Rightarrow> bool" where
  "ipSlicesEqual a b =
     (if length a \<noteq> length b then False
      else
        let aMap = fold (\<lambda>ip m. AList.update ip True m) a [];
            bMap = fold (\<lambda>ip m. AList.update ip True m) b []
        in if \<not> list_all (\<lambda>ip. map_index bMap ip) (map fst aMap) then False
           else if \<not> list_all (\<lambda>ip. map_index aMap ip) (map fst bMap) then False
           else True)"

text \<open>
  Phase 1, the loop \<open>for len(discoveredIPs) == 0\<close>: the argument counts the ticks of
  the 15-second ticker that are delivered before the deadline of \<open>timeoutCtx\<close> fires.
  The result \<open>None\<close> is the timeout.
\<close>

fun discovery_loop :: "env \<Rightarrow> string \<Rightarrow> nat \<Rightarrow> trace \<Rightarrow> string list option \<times> trace" where
  "discovery_loop e vmId 0 tr = (None, tr)"
| "discovery_loop e vmId (Suc n) tr =
     (case GetGuestAgentIPs e vmId tr of
        (Inl err, tr') \<Rightarrow> discovery_loop e vmId n tr'
      | (Inr currentIPs, tr') \<Rightarrow>
          if length currentIPs = 0 then discovery_loop e vmId n tr'
          else (Some currentIPs, tr'))"

text \<open>
  Phase 2, the settle loop. \<open>ticks k\<close> is the number of ticks of the 5-second ticker
  that are delivered before the deadline of the \<open>k\<close>-th settle context fires, and
  \<open>n\<close> what is left of it in the current window. Creating a settle context is the
  event \<open>SettleTimer\<close>. In the source the \<open>break\<close> that follows the \<open>select\<close>
  is reached from both of its cases, unless the ticker case has run \<open>continue\<close>.
  The loop has no bound of its own, so it takes fuel: \<open>None\<close> is a loop still running.
\<close>

datatype settle_result = ConnectionLost | Settled "string list"

fun settle_loop ::
  "env \<Rightarrow> string \<Rightarrow> (nat \<Rightarrow> nat) \<Rightarrow> nat \<Rightarrow> nat \<Rightarrow> string list \<Rightarrow> string list \<Rightarrow> trace \<Rightarrow> nat
     \<Rightarrow> (settle_result \<times> trace) option" where
  "settle_loop e vmId ticks k n discoveredIPs lastDiscoveredIPs tr 0 = None"
| "settle_loop e vmId ticks k n discoveredIPs lastDiscoveredIPs tr (Suc fuel) =
     (case n of
        0 \<Rightarrow> Some (Settled discoveredIPs, tr)
      | Suc m \<Rightarrow>
          (case GetGuestAgentIPs e vmId tr of
             (Inl err, tr') \<Rightarrow> Some (ConnectionLost, tr')
           | (Inr currentIPs, tr') \<Rightarrow>
               if \<not> ipSlicesEqual currentIPs lastDiscoveredIPs
               then settle_loop e vmId ticks (Suc k) (ticks (Suc k)) currentIPs currentIPs
                      (tr' @ [SettleTimer]) fuel
               else Some (Settled discoveredIPs, tr')))"

record StepWaitForIP =
  WaitTimeout :: nat
  SettleTimeout :: nat

datatype step_result = Panic | Returned StepAction StateBag trace

definition StepWaitForIP_Run ::
  "StepWaitForIP \<Rightarrow> env \<Rightarrow> nat \<Rightarrow> (nat \<Rightarrow> nat) \<Rightarrow> nat \<Rightarrow> StateBag \<Rightarrow> trace \<Rightarrow> step_result option" where
  "StepWaitForIP_Run s e discovery_ticks ticks fuel state tr =
     (case get_cluster_config state ''cluster_config'' of
        None \<Rightarrow> Some Panic
      | Some cc \<Rightarrow>
     (case state ''vm_id'' of
        None \<Rightarrow>
          Some (Returned ActionHalt
            (state(''error'' \<mapsto> VError (Errorf ''vm_id not available in build state'' []))) tr)
      | Some vmId \<Rightarrow>
     (case as_string vmId of
        None \<Rightarrow> Some Panic
      | Some vmIdStr \<Rightarrow>
          let waitTimeout = (if WaitTimeout s = 0 then 10 * 60 else WaitTimeout s);
              settleTimeout = (if SettleTimeout s = 0 then 30 else SettleTimeout s);
              (initial, tr0) = GetGuestAgentIPs e vmIdStr tr;
              (discovered, tr1) =
                (case initial of
                   Inr initialIPs \<Rightarrow>
                     if length initialIPs > 0 then (Some initialIPs, tr0)
                     else discovery_loop e vmIdStr discovery_ticks tr0
                 | Inl err \<Rightarrow> discovery_loop e vmIdStr discovery_ticks tr0)
          in case discovered of
               None \<Rightarrow>
                 Some (Returned ActionHalt
                   (state(''error'' \<mapsto> VError
                      (Errorf ''timeout waiting for guest agent IP discovery after %v''
                         [ADuration waitTimeout]))) tr1)
             | Some ips \<Rightarrow>
                 (case settle_loop e vmIdStr ticks 0 (ticks 0) ips ips (tr1 @ [SettleTimer]) fuel of
                    None \<Rightarrow> None
                  | Some (ConnectionLost, tr2) \<Rightarrow>
                      Some (Returned ActionHalt
                        (state(''error'' \<mapsto> VError
                           (Errorf ''guest agent connection lost during settle period'' []))) tr2)
                  | Some (Settled discoveredIPs, tr2) \<Rightarrow>
                      (case discoveredIPs of
                         [] \<Rightarrow>
                           Some (Returned ActionHalt
                             (state(''error'' \<mapsto> VError (Errorf ''no IP addresses discovered'' [])))
                             tr2)
                       | selectedIP # rest \<Rightarrow>
                           Some (Returned ActionContinue
                             (state(''host'' \<mapsto> VString selectedIP,
                                    ''discovered_ips'' \<mapsto> VStrings discoveredIPs))
                             tr2))))))"

section \<open>Creating the VM (builder/vergeio/step\_vm\_create.go)\<close>

text \<open>
  The disk loop of \<open>StepVMCreate.Run\<close>. It returns the error that is put into the
  state, or the keys and the configurations of the disks whose media is \<open>import\<close>.
\<close>

fun create_disks ::
  "env \<Rightarrow> int \<Rightarrow> VmDiskConfig list \<Rightarrow> string list \<Rightarrow> VMDiskResourceModel list \<Rightarrow> trace
     \<Rightarrow> (error + string list \<times> VMDiskResourceModel list) \<times> trace" where
  "create_disks e machineID [] importDiskKeys importDiskConfigs tr =
     (Inr (importDiskKeys, importDiskConfigs), tr)"
| "create_disks e machineID (disk # rest) importDiskKeys importDiskConfigs tr =
     (let diskData = \<lparr>disk_Machine = machineID, disk_Name = dc_Name disk,
                       disk_Media = dc_Media disk, disk_DiskSize = dc_DiskSize disk\<rparr>
      in case CreateVMDiskWithKey e diskData tr of
           (Inl err, tr') \<Rightarrow>
             (Inl (Errorf ''error creating disk '%s': %w'' [AStr (dc_Name disk), AErr err]), tr')
         | (Inr diskKey, tr') \<Rightarrow>
             if dc_Media disk = ''import''
             then create_disks e machineID rest (importDiskKeys @ [diskKey])
                    (importDiskConfigs @ [diskData]) tr'
             else create_disks e machineID rest importDiskKeys importDiskConfigs tr')"

fun create_nics :: "env \<Rightarrow> int \<Rightarrow> VmNicConfig list \<Rightarrow> trace \<Rightarrow> error option \<times> trace" where
  "create_nics e machineID [] tr = (None, tr)"
| "create_nics e machineID (nic # rest) tr =
     (let nicData = \<lparr>nic_Machine = machineID, nic_Name = nc_Name nic\<rparr>
      in case CreateVMNic e nicData tr of
           (Some err, tr') \<Rightarrow>
             (Some (Errorf ''error creating NIC '%s': %w'' [AStr (nc_Name nic), AErr err]), tr')
         | (None, tr') \<Rightarrow> create_nics e machineID rest tr')"

definition StepVMCreate_Run :: "env \<Rightarrow> StateBag \<Rightarrow> trace \<Rightarrow> step_result" where
  "StepVMCreate_Run e state tr =
     (case get_cluster_config state ''cluster_config'' of
        None \<Rightarrow> Panic
      | Some cc \<Rightarrow>
     (case get_vm_config state ''vm_config'' of
        None \<Rightarrow> Panic
      | Some vm \<Rightarrow>
          let apiData = \<lparr>api_Id = [], api_Machine = vm_Machine vm, api_Name = vm_Name vm,
                          api_GuestAgent = vm_GuestAgent vm,
                          api_CloudInitFiles = vm_CloudInitFiles vm\<rparr>
          in case CreateVM e apiData tr of
               (Some err, apiData', tr1) \<Rightarrow>
                 Returned ActionHalt
                   (state(''error'' \<mapsto> VError (Errorf ''error making POST request to %s: %w''
                                                  [AStr ''api/v4/vm_actions'', AErr err]))) tr1
             | (None, apiData', tr1) \<Rightarrow>
                 let machineID = api_Machine apiData'
                 in if machineID = 0
                    then Returned ActionHalt
                           (state(''error'' \<mapsto> VError
                              (Errorf ''failed to retrieve machine ID from created VM'' []))) tr1
                    else
                      let state1 = state(''machine_id'' \<mapsto> VInt machineID,
                                         ''vm_id'' \<mapsto> VString (api_Id apiData'))
                      in case create_disks e machineID (vm_VmDiskConfigs vm) [] [] tr1 of
                           (Inl err, tr2) \<Rightarrow>
                             Returned ActionHalt
                               (state1(''error'' \<mapsto> VError err,
                                       ''vm_creation_failed'' \<mapsto> VBool True)) tr2
                         | (Inr (importDiskKeys, importDiskConfigs), tr2) \<Rightarrow>
                             let state2 =
                                   (if length importDiskKeys > 0
                                    then state1(''import_disk_keys'' \<mapsto> VStrings importDiskKeys,
                                                ''import_disk_configs'' \<mapsto> VDisks importDiskConfigs)
                                    else state1)
                             in case create_nics e machineID (vm_VmNicConfigs vm) tr2 of
                                  (Some err, tr3) \<Rightarrow>
                                    Returned ActionHalt
                                      (state2(''error'' \<mapsto> VError err,
                                              ''vm_creation_failed'' \<mapsto> VBool True)) tr3
                                | (None, tr3) \<Rightarrow> Returned ActionContinue state2 tr3))"

text \<open>
  \<open>Cleanup\<close> methods return nothing; the model returns the state they leave and the
  history, or \<open>None\<close> for a panic.
\<close>

definition StepVMCreate_Cleanup :: "env \<Rightarrow> StateBag \<Rightarrow> trace \<Rightarrow> (StateBag \<times> trace) option" where
  "StepVMCreate_Cleanup e state tr =
     (case (state ''vm_id'', state ''vm_creation_failed'') of
        (Some vmId, Some creationFailed) \<Rightarrow>
          (case as_bool creationFailed of
             None \<Rightarrow> None
           | Some False \<Rightarrow> Some (state, tr)
           | Some True \<Rightarrow>
               (case as_string vmId of
                  None \<Rightarrow> None
                | Some vmIdStr \<Rightarrow>
                    (case state ''cluster_config'' of
                       None \<Rightarrow> Some (state, tr)
                     | Some cc \<Rightarrow>
                         (case cc of
                            VClusterConfig clusterConfig \<Rightarrow>
                              (case DeleteVM e vmIdStr tr of
                                 (Some err, tr') \<Rightarrow> Some (state, tr')
                               | (None, tr') \<Rightarrow> Some (state, tr'))
                          | _ \<Rightarrow> None))))
      | _ \<Rightarrow> Some (state, tr))"

section \<open>Waiting for disk imports (builder/vergeio/step\_vm\_create.go)\<close>

definition StepWaitForDiskImport_Run :: "env \<Rightarrow> StateBag \<Rightarrow> trace \<Rightarrow> step_result" where
  "StepWaitForDiskImport_Run e state tr =
     (case state ''import_disk_keys'' of
        None \<Rightarrow> Returned ActionContinue state tr
      | Some importDiskKeysInterface \<Rightarrow>
          (case importDiskKeysInterface of
             VStrings importDiskKeys \<Rightarrow>
               if length importDiskKeys = 0 then Returned ActionContinue state tr
               else
                 let maxRetries = 20
                 in (case WaitForDiskImportCompletion e importDiskKeys maxRetries tr of
                       (Some err, tr1) \<Rightarrow>
                         Returned ActionHalt
                           (state(''error'' \<mapsto> VError (Errorf ''disk import failed: %w'' [AErr err])))
                           tr1
                     | (None, tr1) \<Rightarrow>
                         (case state ''import_disk_configs'' of
                            Some (VDisks importDiskConfigs) \<Rightarrow>
                              if length importDiskConfigs > 0
                              then (case CheckAndResizeImportedDisks e importDiskConfigs
                                           importDiskKeys tr1 of
                                      (Some err, tr2) \<Rightarrow>
                                        Returned ActionHalt
                                          (state(''error'' \<mapsto> VError
                                             (Errorf ''disk resize after import failed: %w''
                                                [AErr err]))) tr2
                                    | (None, tr2) \<Rightarrow> Returned ActionContinue state tr2)
                              else Returned ActionContinue state tr1
                          | _ \<Rightarrow> Returned ActionContinue state tr1))
           | _ \<Rightarrow> Returned ActionContinue state tr))"

definition StepWaitForDiskImport_Cleanup :: "StateBag \<Rightarrow> trace \<Rightarrow> (StateBag \<times> trace) option" where
  "StepWaitForDiskImport_Cleanup state tr = Some (state, tr)"

section \<open>Powering on (step\_power\_on.go, stored in builder/vergeio/config.go)\<close>

text \<open>
  The pattern of \<open>extractIPFromCloudInit\<close> is
  \<^verbatim>\<open>(?:^|\s+)(\d{1,3}\.\d{1,3}\.\d{1,3}\.\d{1,3})\/\d{1,2}\<close>.
  In Go's syntax \<open>\d\<close> is an ASCII digit, \<open>\s\<close> one of tab, line feed, form feed,
  carriage return and space, and \<open>^\<close> (without the flag \<open>m\<close>) the start of the text.
\<close>

definition is_digit :: "char \<Rightarrow> bool" where
  "is_digit c = (c \<in> set ''0123456789'')"

definition is_space :: "char \<Rightarrow> bool" where
  "is_space c = (c \<in> {CHR 0x09, CHR 0x0A, CHR 0x0C, CHR 0x0D, CHR '' ''})"

text \<open>
  \<open>\d{1,3}\<close> followed by the literal \<open>c\<close>: every part of the pattern that follows a
  digit group starts with a character that is not a digit, so a group matches exactly when
  the digits at this place are one to three and \<open>c\<close> comes next. The result is the
  group and the text after \<open>c\<close>.
\<close>

definition digits_then :: "char \<Rightarrow> string \<Rightarrow> (string \<times> string) option" where
  "digits_then c s =
     (let ds = takeWhile is_digit s
      in if 1 \<le> length ds \<and> length ds \<le> 3
         then (case dropWhile is_digit s of
                 [] \<Rightarrow> None
               | x # rest \<Rightarrow> if x = c then Some (ds, rest) else None)
         else None)"

text \<open>
  The part of the pattern after the non-capturing group, matched at the head of the text:
  the result is the capture group, without the \<open>/\<close> and the prefix length.
\<close>

definition match_quad :: "string \<Rightarrow> string option" where
  "match_quad s =
     (case digits_then CHR ''.'' s of
        None \<Rightarrow> None
      | Some (a, s1) \<Rightarrow>
     (case digits_then CHR ''.'' s1 of
        None \<Rightarrow> None
      | Some (b, s2) \<Rightarrow>
     (case digits_then CHR ''.'' s2 of
        None \<Rightarrow> None
      | Some (c, s3) \<Rightarrow>
     (case digits_then CHR ''/'' s3 of
        None \<Rightarrow> None
      | Some (d, s4) \<Rightarrow>
     (case s4 of
        [] \<Rightarrow> None
      | x # rest \<Rightarrow>
          if is_digit x then Some (a @ ''.'' @ b @ ''.'' @ c @ ''.'' @ d) else None)))))"

text \<open>
  The leftmost match: the text is read from the left; \<open>boundary\<close> tells whether the
  place is the start of the text or follows a white-space character, which is where
  \<open>(?:^|\s+)\<close> can end.
\<close>

fun find_quad :: "bool \<Rightarrow> string \<Rightarrow> string option" where
  "find_quad boundary [] = None"
| "find_quad boundary (c # cs) =
     (case (if boundary then match_quad (c # cs) else None) of
        Some ip \<Rightarrow> Some ip
      | None \<Rightarrow> find_quad (is_space c) cs)"

text \<open>\<open>ipRegex.FindStringSubmatch(contents)[1]\<close>, or \<open>None\<close> when there is no match.\<close>

definition FindStringSubmatch1 :: "string \<Rightarrow> string option" where
  "FindStringSubmatch1 contents = find_quad True contents"

fun extract_loop :: "CloudInitFile list \<Rightarrow> string option" where
  "extract_loop [] = None"
| "extract_loop (cloudInitFile # rest) =
     (if cif_Name cloudInitFile = ''network-config''
      then (case FindStringSubmatch1 (cif_Contents cloudInitFile) of
              Some ip \<Rightarrow> Some ip
            | None \<Rightarrow> extract_loop rest)
      else extract_loop rest)"

definition extractIPFromCloudInit :: "Config \<Rightarrow> error + string" where
  "extractIPFromCloudInit config =
     (case extract_loop (vm_CloudInitFiles (cfg_VmConfig config)) of
        Some ip \<Rightarrow> Inr ip
      | None \<Rightarrow> Inl (Errorf ''no static IP address found in cloud-init network-config'' []))"

record StepPowerOn =
  PowerOnTimeout :: nat
  BootTimeout :: nat

text \<open>
  The polling loop of \<open>StepPowerOn.Run\<close>: the argument counts the ticks of the 5-second
  ticker that are delivered before the deadline of \<open>timeoutCtx\<close> fires. The result is
  \<open>True\<close> when the VM was seen running (\<open>goto bootWait\<close>), \<open>False\<close> on the timeout.
\<close>

fun power_on_poll :: "env \<Rightarrow> string \<Rightarrow> nat \<Rightarrow> trace \<Rightarrow> bool \<times> trace" where
  "power_on_poll e vmKeyStr 0 tr = (False, tr)"
| "power_on_poll e vmKeyStr (Suc n) tr =
     (case IsVMRunning e vmKeyStr tr of
        (Inl err, tr') \<Rightarrow> power_on_poll e vmKeyStr n tr'
      | (Inr isRunning, tr') \<Rightarrow>
          if isRunning = Some True then (True, tr')
          else power_on_poll e vmKeyStr n tr')"

definition StepPowerOn_Run :: "StepPowerOn \<Rightarrow> env \<Rightarrow> nat \<Rightarrow> StateBag \<Rightarrow> trace \<Rightarrow> step_result" where
  "StepPowerOn_Run s e ticks state tr =
     (case get_cluster_config state ''cluster_config'' of
        None \<Rightarrow> Panic
      | Some cc \<Rightarrow>
     (case state ''vm_id'' of
        None \<Rightarrow>
          Returned ActionHalt
            (state(''error'' \<mapsto> VError (Errorf ''vm_id (key) not available in build state'' []))) tr
      | Some vmId \<Rightarrow>
     (case as_string vmId of
        None \<Rightarrow> Panic
      | Some vmKeyStr \<Rightarrow>
          let powerOnTimeout = (if PowerOnTimeout s = 0 then 2 * 60 else PowerOnTimeout s)
          in case PowerOnVM e vmKeyStr tr of
               (Some err, tr1) \<Rightarrow>
                 Returned ActionHalt
                   (state(''error'' \<mapsto> VError (Errorf ''failed to power on VM: %w'' [AErr err]))) tr1
             | (None, tr1) \<Rightarrow>
                 (case power_on_poll e vmKeyStr ticks tr1 of
                    (False, tr2) \<Rightarrow>
                      Returned ActionHalt
                        (state(''error'' \<mapsto> VError
                                 (Errorf ''timeout waiting for VM to power on after %v''
                                    [ADuration powerOnTimeout]),
                               ''vm_power_on_failed'' \<mapsto> VBool True)) tr2
                  | (True, tr2) \<Rightarrow>
                      let state1 = state(''vm_powered_on'' \<mapsto> VBool True)
                      in (case get_config state1 ''config'' of
                            None \<Rightarrow> Panic
                          | Some config \<Rightarrow>
                              (case extractIPFromCloudInit config of
                                 Inl err \<Rightarrow>
                                   if vm_GuestAgent (cfg_VmConfig config)
                                   then Returned ActionContinue state1 tr2
                                   else Returned ActionHalt
                                          (state1(''error'' \<mapsto> VError
                                             (Errorf ''no IP discovery method available - enable guest_agent or configure static IP'' [])))
                                          tr2
                               | Inr staticIP \<Rightarrow>
                                   Returned ActionContinue
                                     (state1(''host'' \<mapsto> VString staticIP,
                                             ''discovered_ips'' \<mapsto> VStrings [staticIP]))
                                     tr2))))))"

definition StepPowerOn_Cleanup :: "StateBag \<Rightarrow> trace \<Rightarrow> (StateBag \<times> trace) option" where
  "StepPowerOn_Cleanup state tr =
     (case (case state ''vm_power_on_failed'' of
              None \<Rightarrow> Some False
            | Some powerOnFailed \<Rightarrow> as_bool powerOnFailed) of
        None \<Rightarrow> None
      | Some True \<Rightarrow> Some (state, tr)
      | Some False \<Rightarrow>
          (case (case state ''vm_powered_on'' of
                   None \<Rightarrow> Some False
                 | Some poweredOn \<Rightarrow> as_bool poweredOn) of
             None \<Rightarrow> None
           | Some b \<Rightarrow> Some (state, tr)))"

section \<open>Shutting down (step\_shutdown.go, stored in builder/vergeio/config.go)\<close>

text \<open>
  What the communicator and the clock do during one run of \<open>StepShutdown.Run\<close>:
  the result of \<open>comm.Start\<close>; which case of the Phase 2 \<open>select\<close> fires, the
  deadline or the end of the command with its exit status; and whether the build is
  cancelled during the 30 seconds of Phase 3.
\<close>

datatype cmd_outcome = TimedOut | Exited int

record shutdown_script =
  start_error :: "error option"
  wait_outcome :: cmd_outcome
  cancelled_in_drain :: bool

record StepShutdown =
  Command :: string
  Timeout :: nat

definition performForcedShutdown :: "env \<Rightarrow> StateBag \<Rightarrow> string \<Rightarrow> trace \<Rightarrow> step_result" where
  "performForcedShutdown e state vmIdStr tr =
     (if vmIdStr = [] then Returned ActionContinue state tr
      else (case PowerOffVM e vmIdStr tr of
              (Some err, tr') \<Rightarrow> Returned ActionContinue state tr'
            | (None, tr') \<Rightarrow>
                Returned ActionContinue (state(''vm_shutdown_completed'' \<mapsto> VBool True)) tr'))"

text \<open>
  The assertion \<open>state.Get("communicator").(packersdk.Communicator)\<close> panics on a
  missing key, so the branch \<open>comm == nil\<close> that follows it is never taken.
\<close>

definition StepShutdown_Run :: "StepShutdown \<Rightarrow> env \<Rightarrow> shutdown_script \<Rightarrow> StateBag \<Rightarrow> trace \<Rightarrow> step_result" where
  "StepShutdown_Run s e script state tr =
     (if Command s = [] then Returned ActionContinue state tr
      else
     (case state ''communicator'' of
        None \<Rightarrow> Panic
      | Some comm \<Rightarrow>
     (case comm of
        VCommunicator \<Rightarrow>
     (case get_cluster_config state ''cluster_config'' of
        None \<Rightarrow> Panic
      | Some cc \<Rightarrow>
     (case (case state ''vm_id'' of None \<Rightarrow> Some [] | Some vmId \<Rightarrow> as_string vmId) of
        None \<Rightarrow> Panic
      | Some vmIdStr \<Rightarrow>
          (case start_error script of
             Some err \<Rightarrow> performForcedShutdown e state vmIdStr tr
           | None \<Rightarrow>
               (case wait_outcome script of
                  TimedOut \<Rightarrow> performForcedShutdown e state vmIdStr tr
                | Exited exitStatus \<Rightarrow>
                    if exitStatus \<noteq> 0 then performForcedShutdown e state vmIdStr tr
                    else if cancelled_in_drain script then Returned ActionHalt state tr
                    else
                      let tr1 = (if vmIdStr \<noteq> [] then snd (IsVMRunning e vmIdStr tr) else tr)
                      in Returned ActionContinue
                           (state(''vm_shutdown_completed'' \<mapsto> VBool True)) tr1))))
      | _ \<Rightarrow> Panic)))"

definition StepShutdown_Cleanup :: "StateBag \<Rightarrow> trace \<Rightarrow> (StateBag \<times> trace) option" where
  "StepShutdown_Cleanup state tr =
     (case (case state ''vm_shutdown_completed'' of
              None \<Rightarrow> Some False
            | Some shutdownCompleted \<Rightarrow> as_bool shutdownCompleted) of
        None \<Rightarrow> None
      | Some b \<Rightarrow> Some (state, tr))"

section \<open>The builder (builder/vergeio/builder.go)\<close>

text \<open>
  The steps that \<open>Builder.Run\<close> can put into its pipeline. \<open>Connect\<close> and
  \<open>Provision\<close> are the SDK's \<open>communicator.StepConnect\<close> and
  \<open>commonsteps.StepProvision\<close>.
\<close>

datatype Step =
    VMCreate
  | WaitForDiskImport
  | PowerOn StepPowerOn
  | WaitForIP StepWaitForIP
  | Connect
  | Provision
  | Shutdown StepShutdown

definition Builder_steps :: "Config \<Rightarrow> Step list" where
  "Builder_steps config =
     [VMCreate,
      WaitForDiskImport,
      PowerOn \<lparr>PowerOnTimeout = (if cfg_PowerOnTimeout config = 0 then 2 * 60
                                   else cfg_PowerOnTimeout config),
               BootTimeout = (if cfg_BootTimeout config = 0 then 5 * 60
                              else cfg_BootTimeout config)\<rparr>,
      Connect,
      Provision,
      Shutdown \<lparr>Command = cfg_ShutdownCommand config, Timeout = cfg_ShutdownTimeout config\<rparr>]"

text \<open>
  The state bag that \<open>Builder.Run\<close> sets up, without the keys \<open>hook\<close>, \<open>ui\<close> and
  \<open>generated_data\<close>, which no step of this repository reads other than for output.
\<close>

definition Builder_state :: "Config \<Rightarrow> StateBag" where
  "Builder_state config =
     [''cluster_config'' \<mapsto> VClusterConfig (cfg_ClusterConfig config),
      ''vm_config'' \<mapsto> VVmConfig (cfg_VmConfig config),
      ''config'' \<mapsto> VConfig config]"

text \<open>The function that \<open>getHostFunc\<close> returns; \<open>None\<close> is the panic of \<open>host.(string)\<close>.\<close>

definition getHostFunc :: "StateBag \<Rightarrow> (error + string) option" where
  "getHostFunc state =
     (case state ''host'' of
        None \<Rightarrow> Some (Inl (Errorf ''no host found in state - IP discovery may have failed'' []))
      | Some host \<Rightarrow> (case as_string host of None \<Rightarrow> None | Some h \<Rightarrow> Some (Inr h)))"

text \<open>
  What the environment decides during one build: the control plane, the ticks that the
  polling loops get before their deadlines, the shutdown script, and the two steps of the
  SDK, of which nothing is known here.
\<close>

record world =
  w_env :: env
  w_power_on_ticks :: nat
  w_discovery_ticks :: nat
  w_settle_ticks :: "nat \<Rightarrow> nat"
  w_fuel :: nat
  w_shutdown :: shutdown_script
  w_external :: "Step \<Rightarrow> StateBag \<Rightarrow> trace \<Rightarrow> step_result"

definition Step_Run :: "world \<Rightarrow> Step \<Rightarrow> StateBag \<Rightarrow> trace \<Rightarrow> step_result option" where
  "Step_Run w step state tr =
     (case step of
        VMCreate \<Rightarrow> Some (StepVMCreate_Run (w_env w) state tr)
      | WaitForDiskImport \<Rightarrow> Some (StepWaitForDiskImport_Run (w_env w) state tr)
      | PowerOn s \<Rightarrow> Some (StepPowerOn_Run s (w_env w) (w_power_on_ticks w) state tr)
      | WaitForIP s \<Rightarrow>
          StepWaitForIP_Run s (w_env w) (w_discovery_ticks w) (w_settle_ticks w) (w_fuel w) state tr
      | Shutdown s \<Rightarrow> Some (StepShutdown_Run s (w_env w) (w_shutdown w) state tr)
      | _ \<Rightarrow> Some (w_external w step state tr))"

definition Step_Cleanup :: "world \<Rightarrow> Step \<Rightarrow> StateBag \<Rightarrow> trace \<Rightarrow> (StateBag \<times> trace) option" where
  "Step_Cleanup w step state tr =
     (case step of
        VMCreate \<Rightarrow> StepVMCreate_Cleanup (w_env w) state tr
      | WaitForDiskImport \<Rightarrow> StepWaitForDiskImport_Cleanup state tr
      | PowerOn s \<Rightarrow> StepPowerOn_Cleanup state tr
      | Shutdown s \<Rightarrow> StepShutdown_Cleanup state tr
      | _ \<Rightarrow> Some (state, tr))"

text \<open>
  The runner, \<open>multistep.BasicRunner\<close> of the SDK, is not code of this repository. It
  is modelled as the specification describes it (sections 4.6 and 7): the steps run in
  order until one of them halts, and then the \<open>Cleanup\<close> of every step that has run
  is called, the last one first. \<open>run_steps\<close> returns the steps that have run, the
  last one first, and where the last one left the build.
\<close>

datatype run_result = RunPanic | RunDiverges | RunEnds "Step list" StepAction StateBag trace

fun run_steps :: "world \<Rightarrow> Step list \<Rightarrow> Step list \<Rightarrow> StateBag \<Rightarrow> trace \<Rightarrow> run_result" where
  "run_steps w [] executed state tr = RunEnds executed ActionContinue state tr"
| "run_steps w (step # rest) executed state tr =
     (case Step_Run w step state tr of
        None \<Rightarrow> RunDiverges
      | Some Panic \<Rightarrow> RunPanic
      | Some (Returned ActionHalt state' tr') \<Rightarrow> RunEnds (step # executed) ActionHalt state' tr'
      | Some (Returned ActionContinue state' tr') \<Rightarrow> run_steps w rest (step # executed) state' tr')"

fun cleanup_steps :: "world \<Rightarrow> Step list \<Rightarrow> StateBag \<Rightarrow> trace \<Rightarrow> (StateBag \<times> trace) option" where
  "cleanup_steps w [] state tr = Some (state, tr)"
| "cleanup_steps w (step # rest) state tr =
     (case Step_Cleanup w step state tr of
        None \<Rightarrow> None
      | Some (state', tr') \<Rightarrow> cleanup_steps w rest state' tr')"

definition BasicRunner_Run :: "world \<Rightarrow> Step list \<Rightarrow> StateBag \<Rightarrow> trace \<Rightarrow> (StateBag \<times> trace) option" where
  "BasicRunner_Run w steps state tr =
     (case run_steps w steps [] state tr of
        RunEnds executed action state' tr' \<Rightarrow> cleanup_steps w executed state' tr'
      | _ \<Rightarrow> None)"

section \<open>Environments used to exercise the model\<close>

text \<open>
  The entries of the case tables that lead from a rune above U+007F to an ASCII letter:
  the capital I with a dot above, U+0130, and the Kelvin sign, U+212A. The environments
  below are used with status words of these runes and of ASCII letters only, so the other
  entries are not spelled out.
\<close>

definition case_table :: "nat \<Rightarrow> nat" where
  "case_table r = (if r = 0x130 then 0x69 else if r = 0x212A then 0x6B else r)"

text \<open>The object that the control plane returns for the VM with key 42 on machine \<open>m\<close>.\<close>

definition vm_document :: "int \<Rightarrow> VMDocument" where
  "vm_document m =
     \<lparr>doc_id = Some ''42'', doc_machine = Some m, doc_name = None, doc_guest_agent = None,
      doc_cloudinit_files = None\<rparr>"

text \<open>A control plane whose guest agent always reports the given addresses on one interface.\<close>

definition delete_request :: "string \<Rightarrow> request" where
  "delete_request vmId =
     \<lparr>req_method = DELETE, req_endpoint = VMItem vmId, req_payload = NoPayload, req_fields = []\<rparr>"

text \<open>
  A control plane that creates the VM (key 42, machine 7) and every disk but the one
  named \<open>data\<close>, and that refuses everything else, deletions included.
\<close>

definition failing_disk_env :: env where
  "failing_disk_env =
     \<lparr>http = (\<lambda>tr req.
        case req_payload req of
          DiskPayload d \<Rightarrow>
            if disk_Name d = ''data'' then HttpReply 500 DocEmpty else HttpReply 201 (DocKey ''11'')
        | VMPayload v \<Rightarrow> HttpReply 201 (DocKey ''42'')
        | _ \<Rightarrow>
            (case req_method req of
               GET \<Rightarrow> HttpReply 200 (DocVM (vm_document 7))
             | _ \<Rightarrow> HttpReply 500 DocEmpty)),
      ParseIP_IsLoopback = (\<lambda>s. False), To_LowerCase = case_table\<rparr>"

definition two_disk_config :: Config where
  "two_disk_config =
     \<lparr>cfg_ClusterConfig = \<lparr>cc_Username = ''u'', cc_Password = ''p'', cc_Insecure = False,
                             cc_Endpoint = ''h''\<rparr>,
      cfg_VmConfig = \<lparr>vm_Machine = 0, vm_Name = ''vm'', vm_GuestAgent = False,
                        vm_VmDiskConfigs =
                          [\<lparr>dc_Name = ''os'', dc_Media = ''import'', dc_DiskSize = 20\<rparr>,
                           \<lparr>dc_Name = ''data'', dc_Media = ''disk'', dc_DiskSize = 5\<rparr>],
                        vm_VmNicConfigs = [\<lparr>nc_Name = ''nic0''\<rparr>],
                        vm_CloudInitFiles = []\<rparr>,
      cfg_ShutdownCommand = [], cfg_ShutdownTimeout = 0, cfg_PowerOnTimeout = 0,
      cfg_BootTimeout = 0\<rparr>"

definition agent_env :: "string list \<Rightarrow> env" where
  "agent_env ips =
     \<lparr>http = (\<lambda>tr req. HttpReply 200 (DocGuest (Some [(''eth0'', map (\<lambda>a. (''ipv4'', a)) ips)]))),
      ParseIP_IsLoopback = (\<lambda>s. False), To_LowerCase = case_table\<rparr>"



text \<open>
  A build in which the power-on poll gets two ticks, discovery two, every settle window
  two, the settle loop fuel for five rounds, the shutdown command ends with status 0 and
  the SDK's steps continue.
\<close>

definition demo_world :: "env \<Rightarrow> world" where
  "demo_world e =
     \<lparr>w_env = e, w_power_on_ticks = Suc (Suc 0), w_discovery_ticks = Suc (Suc 0),
      w_settle_ticks = (\<lambda>k. Suc (Suc 0)), w_fuel = Suc (Suc (Suc (Suc (Suc 0)))),
      w_shutdown = \<lparr>start_error = None, wait_outcome = Exited 0, cancelled_in_drain = False\<rparr>,
      w_external = (\<lambda>step state tr. Returned ActionContinue state tr)\<rparr>"

text \<open>
  A control plane that accepts every request, creates the VM with key 42 and machine 7,
  and reports the VM as running or not as the argument says.
\<close>

definition simple_env :: "bool \<Rightarrow> env" where
  "simple_env running =
     \<lparr>http = (\<lambda>tr req.
        case req_method req of
          POST \<Rightarrow> HttpReply 201 (DocKey ''42'')
        | GET \<Rightarrow>
            if req_fields req = ''machine#status#running as powerstate''
            then HttpReply 200 (DocPowerState (Some running))
            else HttpReply 200 (DocVM (vm_document 7))
        | _ \<Rightarrow> HttpReply 200 DocEmpty),
      ParseIP_IsLoopback = (\<lambda>s. False), To_LowerCase = case_table\<rparr>"

definition plain_config :: "bool \<Rightarrow> CloudInitFile list \<Rightarrow> Config" where
  "plain_config guestAgent files =
     \<lparr>cfg_ClusterConfig = \<lparr>cc_Username = ''u'', cc_Password = ''p'', cc_Insecure = False,
                             cc_Endpoint = ''h''\<rparr>,
      cfg_VmConfig = \<lparr>vm_Machine = 0, vm_Name = ''vm'', vm_GuestAgent = guestAgent,
                        vm_VmDiskConfigs = [\<lparr>dc_Name = ''os'', dc_Media = ''disk'', dc_DiskSize = 20\<rparr>],
                        vm_VmNicConfigs = [\<lparr>nc_Name = ''nic0''\<rparr>],
                        vm_CloudInitFiles = files\<rparr>,
      cfg_ShutdownCommand = ''poweroff'', cfg_ShutdownTimeout = 0, cfg_PowerOnTimeout = 0,
      cfg_BootTimeout = 0\<rparr>"

text \<open>The state of a build after the SDK's connect step, for the VM with key 42.\<close>

definition connected_state :: StateBag where
  "connected_state =
     (Builder_state (plain_config True []))(''vm_id'' \<mapsto> VString ''42'',
        ''communicator'' \<mapsto> VCommunicator)"

definition drain_cancelled :: shutdown_script where
  "drain_cancelled = \<lparr>start_error = None, wait_outcome = Exited 0, cancelled_in_drain = True\<rparr>"

definition exit_one :: shutdown_script where
  "exit_one = \<lparr>start_error = None, wait_outcome = Exited 1, cancelled_in_drain = False\<rparr>"

text \<open>
  A control plane whose guest agent answers the \<open>n\<close>-th request of the build with the
  \<open>n\<close>-th address list of a script (and with no address once the script is used up).
\<close>

definition requests :: "trace \<Rightarrow> nat" where
  "requests tr = length (filter (\<lambda>ev. case ev of Http r \<Rightarrow> True | _ \<Rightarrow> False) tr)"

definition scripted_agent_env :: "string list list \<Rightarrow> env" where
  "scripted_agent_env polls =
     \<lparr>http = (\<lambda>tr req.
        HttpReply 200 (DocGuest (Some [(''eth0'',
          map (\<lambda>a. (''ipv4'', a))
            (if requests tr < length polls then polls ! requests tr else []))]))),
      ParseIP_IsLoopback = (\<lambda>s. False), To_LowerCase = case_table\<rparr>"

definition dashboard_request :: "string \<Rightarrow> request" where
  "dashboard_request vmId =
     \<lparr>req_method = GET, req_endpoint = VMItem vmId, req_payload = NoPayload,
      req_fields = ''dashboard''\<rparr>"

definition powered_state :: StateBag where
  "powered_state = (Builder_state (plain_config True []))(''vm_id'' \<mapsto> VString ''42'')"

section \<open>Describing the histories of the polling loops\<close>

definition status_request :: "string \<Rightarrow> request" where
  "status_request diskKey =
     \<lparr>req_method = GET, req_endpoint = DiskItem diskKey, req_payload = NoPayload,
      req_fields = ''status#status as powerState''\<rparr>"

text \<open>\<open>i\<close> rounds of the import wait for one disk: a status request, then 5 seconds of sleep.\<close>

fun rounds :: "string \<Rightarrow> nat \<Rightarrow> trace" where
  "rounds diskKey 0 = []"
| "rounds diskKey (Suc i) = Http (status_request diskKey) # Sleep 5 # rounds diskKey i"

text \<open>What the status request that follows \<open>i\<close> rounds returns.\<close>

definition seen :: "env \<Rightarrow> string \<Rightarrow> trace \<Rightarrow> nat \<Rightarrow> error + string" where
  "seen e diskKey tr i = fst (CheckDiskImportStatus e diskKey (tr @ rounds diskKey i))"

text \<open>
  The history of waiting for several disks, one after the other: for each disk its
  rounds and the status request that ended its wait.
\<close>

definition waits :: "(string \<times> nat) list \<Rightarrow> trace" where
  "waits kms = concat (map (\<lambda>(diskKey, m). rounds diskKey m @ [Http (status_request diskKey)]) kms)"

text \<open>
  The wait for one disk, told from the status requests: starting from the history \<open>t\<close>
  the disk was polled \<open>m + 1\<close> times, at most 20; each of the first \<open>m\<close> polls
  returned a status that \<open>strings.ToLower\<close> turns into "importing"; and the last poll
  decided the \<open>verdict\<close>: a failed request is an error, any other status ends the wait
  without one, and "importing" on the twentieth poll is the timeout error.
\<close>

definition keeps_polling :: "env \<Rightarrow> error + string \<Rightarrow> bool" where
  "keeps_polling e r = (case r of Inl x \<Rightarrow> False | Inr s \<Rightarrow> ToLower e s = ''importing'')"

definition disk_wait :: "env \<Rightarrow> string \<Rightarrow> trace \<Rightarrow> nat \<Rightarrow> error option \<Rightarrow> bool" where
  "disk_wait e diskKey t m verdict =
     (m < 20
      \<and> list_all (\<lambda>i. keeps_polling e (seen e diskKey t i)) [0..<m]
      \<and> (case seen e diskKey t m of
           Inl x \<Rightarrow> verdict = Some (Errorf ''failed to check disk import status: %w'' [AErr x])
         | Inr s \<Rightarrow>
             if ToLower e s \<noteq> ''importing'' then verdict = None
             else m = 19
                  \<and> verdict = Some (Errorf ''disk %s failed to complete import after %d retries, last status: %s''
                                      [AStr diskKey, AInt 20, AStr s])))"

text \<open>
  The status word "IMPORTING" with the capital I with a dot above, U+0130, as its first
  letter, in UTF-8.
\<close>

definition dotted_importing :: string where
  "dotted_importing = CHR 0xC4 # CHR 0xB0 # ''MPORTING''"

text \<open>
  A control plane that answers the \<open>n\<close>-th request of the build with the \<open>n\<close>-th disk
  status of a script, and with the last argument once the script is used up.
\<close>

definition scripted_status_env :: "string list \<Rightarrow> string \<Rightarrow> env" where
  "scripted_status_env statuses final =
     \<lparr>http = (\<lambda>tr req.
        HttpReply 200 (DocDiskStatus
          (if requests tr < length statuses then statuses ! requests tr else final))),
      ParseIP_IsLoopback = (\<lambda>s. False), To_LowerCase = case_table\<rparr>"

definition import_state :: "string list \<Rightarrow> VMDiskResourceModel list \<Rightarrow> StateBag" where
  "import_state diskKeys diskConfigs =
     (Builder_state (plain_config True []))(''vm_id'' \<mapsto> VString ''42'',
        ''import_disk_keys'' \<mapsto> VStrings diskKeys,
        ''import_disk_configs'' \<mapsto> VDisks diskConfigs)"

definition read_request :: "string \<Rightarrow> request" where
  "read_request diskKey =
     \<lparr>req_method = GET, req_endpoint = DiskItem diskKey, req_payload = NoPayload,
      req_fields = ''machine,name,disksize,interface,media,description,enabled,serial,media_source,preferred_tier,readonly,preserve_drive_format,asset,orderid''\<rparr>"

definition resize_request :: "string \<Rightarrow> int64 \<Rightarrow> request" where
  "resize_request diskKey requestedSizeGB =
     \<lparr>req_method = PUT, req_endpoint = DiskItem diskKey,
      req_payload = DiskSizePayload (requestedSizeGB * 1024 * 1024 * 1024), req_fields = []\<rparr>"

text \<open>
  The history of checking several disks, one after the other: for each disk the request
  that reads it and, where a size is given, one request that resizes it to that size.
\<close>

definition checks :: "(string \<times> int64 option) list \<Rightarrow> trace" where
  "checks kas =
     concat (map (\<lambda>(diskKey, resize).
       Http (read_request diskKey)
         # (case resize of None \<Rightarrow> [] | Some gb \<Rightarrow> [Http (resize_request diskKey gb)])) kas)"

text \<open>
  The check of one disk, told from the requests: starting from the history \<open>t\<close> the
  disk is read; a failed read is an error and nothing is resized; a size that, divided by
  \<open>1024 * 1024 * 1024\<close>, equals the requested size is left alone; any other size is
  followed by a resize to the requested size, whose failure is an error.
\<close>

definition reconciled ::
  "env \<Rightarrow> VMDiskResourceModel \<Rightarrow> string \<Rightarrow> trace \<Rightarrow> int64 option \<Rightarrow> error option \<Rightarrow> bool" where
  "reconciled e config diskKey t resize verdict =
     (case fst (ReadDisk e diskKey t) of
        Inl err \<Rightarrow>
          resize = None
          \<and> verdict = Some (Errorf ''failed to read disk %s after import: %w''
                             [AStr (disk_Name config), AErr err])
      | Inr currentDisk \<Rightarrow>
          if int64_quo (disk_DiskSize currentDisk) (1024 * 1024 * 1024) = disk_DiskSize config
          then resize = None \<and> verdict = None
          else resize = Some (disk_DiskSize config)
               \<and> (case fst (UpdateDiskSize e diskKey (disk_DiskSize config)
                               (t @ [Http (read_request diskKey)])) of
                    Some err \<Rightarrow>
                      verdict = Some (Errorf ''failed to resize disk %s: %w''
                                        [AStr (disk_Name config), AErr err])
                  | None \<Rightarrow> verdict = None))"

text \<open>
  A control plane on which every import has ended, disk \<open>k1\<close> has 15 GiB, every other
  disk 20 GiB and 5 bytes, and every resize succeeds.
\<close>

definition resize_env :: env where
  "resize_env =
     \<lparr>http = (\<lambda>tr req.
        case req_method req of
          PUT \<Rightarrow> HttpReply 200 DocEmpty
        | _ \<Rightarrow>
            if req_fields req = ''status#status as powerState''
            then HttpReply 200 (DocDiskStatus ''online'')
            else if req_endpoint req = DiskItem ''k1''
            then HttpReply 200 (DocDisk 16106127360)
            else HttpReply 200 (DocDisk 21474836485)),
      ParseIP_IsLoopback = (\<lambda>s. False), To_LowerCase = case_table\<rparr>"

definition disk20 :: "string \<Rightarrow> VMDiskResourceModel" where
  "disk20 name = \<lparr>disk_Machine = 7, disk_Name = name, disk_Media = ''import'', disk_DiskSize = 20\<rparr>"

definition running_request :: "string \<Rightarrow> request" where
  "running_request vmId =
     \<lparr>req_method = GET, req_endpoint = VMItem vmId, req_payload = NoPayload,
      req_fields = ''machine#status#running as powerstate''\<rparr>"

text \<open>
  A control plane that refuses the first \<open>n\<close> requests of a build with status 503 and
  accepts every later one: the disks are online, the VM is running and its guest agent
  reports the address 10.0.0.9.
\<close>

definition flaky_env :: "nat \<Rightarrow> env" where
  "flaky_env n =
     \<lparr>http = (\<lambda>tr req.
        if requests tr < n then HttpReply 503 DocEmpty
        else if req_fields req = ''status#status as powerState''
        then HttpReply 200 (DocDiskStatus ''online'')
        else if req_fields req = ''machine#status#running as powerstate''
        then HttpReply 200 (DocPowerState (Some True))
        else if req_fields req = ''dashboard''
        then HttpReply 200 (DocGuest (Some [(''eth0'', [(''ipv4'', ''10.0.0.9'')])]))
        else if req_method req = POST then HttpReply 201 (DocKey ''42'')
        else HttpReply 200 (DocVM (vm_document 7))),
      ParseIP_IsLoopback = (\<lambda>s. False), To_LowerCase = case_table\<rparr>"

section \<open>The pattern of the static address, declaratively\<close>

text \<open>\<open>\d{1,n}\<close>: between one and \<open>n\<close> digits.\<close>

definition digit_group :: "nat \<Rightarrow> string \<Rightarrow> bool" where
  "digit_group n w = (1 \<le> length w \<and> length w \<le> n \<and> list_all is_digit w)"

text \<open>
  The text \<open>rest\<close> starts with a match of
  \<^verbatim>\<open>(\d{1,3}\.\d{1,3}\.\d{1,3}\.\d{1,3})\/\d{1,2}\<close> whose group is \<open>g\<close>.
\<close>

definition quad_prefix :: "string \<Rightarrow> string \<Rightarrow> bool" where
  "quad_prefix rest g =
     (\<exists>a b c d p tl.
        rest = a @ ''.'' @ b @ ''.'' @ c @ ''.'' @ d @ ''/'' @ p @ tl
        \<and> digit_group 3 a \<and> digit_group 3 b \<and> digit_group 3 c \<and> digit_group 3 d
        \<and> digit_group 2 p
        \<and> g = a @ ''.'' @ b @ ''.'' @ c @ ''.'' @ d)"

text \<open>
  The whole pattern matches in \<open>s\<close> with the group \<open>g\<close> starting after \<open>pre\<close>:
  \<open>(?:^|\s+)\<close> ends either at the start of the text or after a white-space character.
\<close>

definition pattern_match :: "string \<Rightarrow> string \<Rightarrow> string \<Rightarrow> bool" where
  "pattern_match s pre g =
     (\<exists>rest. s = pre @ rest \<and> (pre = [] \<or> is_space (last pre)) \<and> quad_prefix rest g)"

definition has_match :: "string \<Rightarrow> bool" where
  "has_match s = (\<exists>pre g. pattern_match s pre g)"

text \<open>\<open>g\<close> is the group of the leftmost match in \<open>s\<close>.\<close>

definition first_match :: "string \<Rightarrow> string \<Rightarrow> bool" where
  "first_match s g =
     (\<exists>pre. pattern_match s pre g
        \<and> (\<forall>pre' g'. pattern_match s pre' g' \<longrightarrow> length pre \<le> length pre'))"

text \<open>Where \<open>(?:^|\s+)\<close> can end, for the scan of \<open>find_quad\<close>.\<close>

definition at_boundary :: "bool \<Rightarrow> string \<Rightarrow> bool" where
  "at_boundary b pre = (if pre = [] then b else is_space (last pre))"

text \<open>
  An IPv4 address in CIDR notation, as the specification speaks of it: four decimal
  octets and a prefix length of at most 32.
\<close>

definition decimal :: "string \<Rightarrow> nat" where
  "decimal w = foldl (\<lambda>n c. 10 * n + (of_char c - 48)) 0 w"

definition ipv4_cidr :: "string \<Rightarrow> bool" where
  "ipv4_cidr w =
     (\<exists>a b c d p.
        w = a @ ''.'' @ b @ ''.'' @ c @ ''.'' @ d @ ''/'' @ p
        \<and> digit_group 3 a \<and> digit_group 3 b \<and> digit_group 3 c \<and> digit_group 3 d
        \<and> digit_group 2 p
        \<and> decimal a \<le> 255 \<and> decimal b \<le> 255 \<and> decimal c \<le> 255 \<and> decimal d \<le> 255
        \<and> decimal p \<le> 32)"

definition contains_ipv4_cidr :: "string \<Rightarrow> string \<Rightarrow> bool" where
  "contains_ipv4_cidr s w = (ipv4_cidr w \<and> (\<exists>pre tl. s = pre @ w @ tl))"

text \<open>The request of \<open>PowerOnVM\<close>.\<close>

definition poweron_request :: "string \<Rightarrow> request" where
  "poweron_request vmKey =
     \<lparr>req_method = POST, req_endpoint = VMActionEndpoint,
      req_payload = ActionPayload vmKey ''poweron'', req_fields = []\<rparr>"

text \<open>
  Two payloads with the same static address: a block sequence, as in the documentation
  of the plugin, and a flow sequence.
\<close>

definition network_config :: "string \<Rightarrow> CloudInitFile" where
  "network_config contents = \<lparr>cif_Name = ''network-config'', cif_Contents = contents\<rparr>"

definition block_text :: string where
  "block_text = ''addresses:\<newline>  - 10.0.0.5/24''"

definition flow_text :: string where
  "flow_text = ''addresses: [10.0.0.5/24]''"

text \<open>The state of a build after \<open>StepWaitForDiskImport\<close>, for the VM with key 42.\<close>

definition created_state :: "Config \<Rightarrow> StateBag" where
  "created_state config = (Builder_state config)(''vm_id'' \<mapsto> VString ''42'')"

section \<open>Verification\<close>

subsection \<open>Comparing address sets\<close>

lemma map_of_fold_update:
  "map_of (fold (\<lambda>ip m. AList.update ip True m) a m0) k
     = (if k \<in> set a then Some True else map_of m0 k)"
  by (induction a arbitrary: m0) (auto simp: AList.update_conv')

lemma keys_fold_update:
  "set (map fst (fold (\<lambda>ip m. AList.update ip True m) a [])) = set a"
proof -
  have "set (map fst (fold (\<lambda>ip m. AList.update ip True m) a []))
          = dom (map_of (fold (\<lambda>ip m. AList.update ip True m) a []))"
    by (simp add: dom_map_of_conv_image_fst)
  also have "\<dots> = set a"
    by (auto simp: dom_def map_of_fold_update)
  finally show ?thesis .
qed

lemma map_index_fold_update:
  "map_index (fold (\<lambda>ip m. AList.update ip True m) a []) k = (k \<in> set a)"
  by (simp add: map_index_def map_of_fold_update)

lemma ipSlicesEqual_iff: "ipSlicesEqual a b \<longleftrightarrow> length a = length b \<and> set a = set b"
proof -
  have "list_all (\<lambda>ip. map_index (fold (\<lambda>ip m. AList.update ip True m) y []) ip)
          (map fst (fold (\<lambda>ip m. AList.update ip True m) x [])) \<longleftrightarrow> set x \<subseteq> set y" for x y
    unfolding list_all_iff keys_fold_update map_index_fold_update by auto
  then show ?thesis
    by (auto simp: ipSlicesEqual_def Let_def)
qed

text \<open>
  Claim C10. \<open>ipSlicesEqual\<close> returns true exactly when the two slices have the same
  length and the same set of elements. It is symmetric, and its result does not change
  when either slice is permuted. Hence a settle tick whose poll returns the last observed
  addresses in another order does not restart the settle window: the loop ends on that
  tick with the addresses it held, and no new settle timer is created.
\<close>

theorem ipSlicesEqual_length_and_set:
  "(ipSlicesEqual a b \<longleftrightarrow> length a = length b \<and> set a = set b)
   \<and> ipSlicesEqual a b = ipSlicesEqual b a
   \<and> (mset a' = mset a \<and> mset b' = mset b \<longrightarrow> ipSlicesEqual a' b' = ipSlicesEqual a b)
   \<and> (mset currentIPs = mset lastDiscoveredIPs \<and>
        GetGuestAgentIPs e vmId tr = (Inr currentIPs, tr') \<longrightarrow>
        settle_loop e vmId ticks k (Suc m) discoveredIPs lastDiscoveredIPs tr (Suc fuel)
          = Some (Settled discoveredIPs, tr'))"
proof (intro conjI impI)
  show "ipSlicesEqual a b \<longleftrightarrow> length a = length b \<and> set a = set b"
    by (rule ipSlicesEqual_iff)
  show "ipSlicesEqual a b = ipSlicesEqual b a"
    by (auto simp: ipSlicesEqual_iff)
  show "ipSlicesEqual a' b' = ipSlicesEqual a b" if "mset a' = mset a \<and> mset b' = mset b"
  proof -
    from that have "length a' = length a" "length b' = length b" "set a' = set a" "set b' = set b"
      by (auto dest: mset_eq_length mset_eq_setD)
    then show ?thesis by (simp add: ipSlicesEqual_iff)
  qed
  show "settle_loop e vmId ticks k (Suc m) discoveredIPs lastDiscoveredIPs tr (Suc fuel)
          = Some (Settled discoveredIPs, tr')"
    if "mset currentIPs = mset lastDiscoveredIPs \<and>
        GetGuestAgentIPs e vmId tr = (Inr currentIPs, tr')"
  proof -
    from that have "ipSlicesEqual currentIPs lastDiscoveredIPs"
      by (auto simp: ipSlicesEqual_iff dest: mset_eq_length mset_eq_setD)
    with that show ?thesis by simp
  qed
qed

theorem ipSlicesEqual_length_and_set_witness:
  "mset [''b'', ''a''] = mset [''a'', ''b'']
   \<and> GetGuestAgentIPs (agent_env [''b'', ''a'']) ''vm1'' []
       = (Inr [''b'', ''a''],
          [Http \<lparr>req_method = GET, req_endpoint = VMItem ''vm1'', req_payload = NoPayload,
                  req_fields = ''dashboard''\<rparr>])
   \<and> ipSlicesEqual [''b'', ''a''] [''a'', ''b'']
   \<and> settle_loop (agent_env [''b'', ''a'']) ''vm1'' (\<lambda>k. 6) 0 (Suc 5) [''a'', ''b''] [''a'', ''b''] []
         (Suc 0)
       = Some (Settled [''a'', ''b''],
          [Http \<lparr>req_method = GET, req_endpoint = VMItem ''vm1'', req_payload = NoPayload,
                  req_fields = ''dashboard''\<rparr>])"
proof -
  have h1: "mset [''b'', ''a''] = mset [''a'', ''b'']"
    by simp
  have h2: "GetGuestAgentIPs (agent_env [''b'', ''a'']) ''vm1'' []
       = (Inr [''b'', ''a''],
          [Http \<lparr>req_method = GET, req_endpoint = VMItem ''vm1'', req_payload = NoPayload,
                  req_fields = ''dashboard''\<rparr>])"
    by (simp add: GetGuestAgentIPs_def agent_env_def Get_def Do_def guest_ipv4_def)
  note inst = ipSlicesEqual_length_and_set [where a = "[''b'', ''a'']" and b = "[''a'', ''b'']"
        and a' = "[''b'', ''a'']" and b' = "[''a'', ''b'']"
        and currentIPs = "[''b'', ''a'']" and lastDiscoveredIPs = "[''a'', ''b'']"
        and e = "agent_env [''b'', ''a'']" and vmId = "''vm1''" and tr = "[]"
        and tr' = "[Http \<lparr>req_method = GET, req_endpoint = VMItem ''vm1'',
                     req_payload = NoPayload, req_fields = ''dashboard''\<rparr>]"
        and ticks = "\<lambda>k. 6" and k = 0 and m = 5 and discoveredIPs = "[''a'', ''b'']"
        and fuel = 0]
  have h3: "ipSlicesEqual [''b'', ''a''] [''a'', ''b'']"
    using inst [THEN conjunct1] by auto
  have h4: "settle_loop (agent_env [''b'', ''a'']) ''vm1'' (\<lambda>k. 6) 0 (Suc 5) [''a'', ''b''] [''a'', ''b''] []
         (Suc 0)
       = Some (Settled [''a'', ''b''],
          [Http \<lparr>req_method = GET, req_endpoint = VMItem ''vm1'', req_payload = NoPayload,
                  req_fields = ''dashboard''\<rparr>])"
    by (rule mp [OF inst [THEN conjunct2, THEN conjunct2, THEN conjunct2] conjI [OF h1 h2]])
  show ?thesis
    using h1 h2 h3 h4 by blast
qed

subsection \<open>Rollback of a failed creation\<close>

text \<open>
  The key that \<open>StepVMCreate.Run\<close> stores as \<open>vm_id\<close> is the \<open>Id\<close> of the struct
  after \<open>readVM\<close>: the \<open>id\<close> of the object that was read when it holds one, the
  key of the creation reply otherwise.
\<close>

lemma decode_vm_id:
  "api_Id (decode_vm d data) = (case doc_id d of None \<Rightarrow> api_Id data | Some i \<Rightarrow> i)"
  by (simp add: decode_vm_def)

lemma readVM_result:
  "readVM e data tr = (None, data', tr') \<Longrightarrow> data' = data \<or> (\<exists>d. data' = decode_vm d data)"
  unfolding readVM_def
  by (auto split: prod.splits sum.splits if_splits doc.splits)

lemma cleanup_frame:
  "StepVMCreate_Cleanup e st t = Some (st', t') \<Longrightarrow>
     st' = st \<and> (t' = t \<or>
       (\<exists>key. st ''vm_id'' = Some (VString key) \<and> st ''vm_creation_failed'' = Some (VBool True)
           \<and> t' = t @ [Http (delete_request key)]))"
  unfolding StepVMCreate_Cleanup_def DeleteVM_def Delete_def Do_def delete_request_def as_bool_def as_string_def
  by (auto split: option.splits val.splits bool.splits prod.splits sum.splits reply.splits if_splits)

lemma cleanup_deletes:
  "st ''vm_id'' = Some (VString key) \<Longrightarrow> st ''vm_creation_failed'' = Some (VBool True) \<Longrightarrow>
   st ''cluster_config'' = Some (VClusterConfig cc) \<Longrightarrow>
   StepVMCreate_Cleanup e st t = Some (st, t @ [Http (delete_request key)])"
  unfolding StepVMCreate_Cleanup_def DeleteVM_def Delete_def Do_def delete_request_def as_bool_def as_string_def
  by (auto split: option.splits val.splits bool.splits prod.splits sum.splits reply.splits if_splits)

lemma run_failed_state:
  assumes "StepVMCreate_Run e state tr = Returned ActionHalt state1 tr1"
    and "state1 ''vm_creation_failed'' = Some (VBool True)"
    and "state ''vm_creation_failed'' = None"
  shows "\<exists>key err cc. state1 ''vm_id'' = Some (VString key) \<and> state1 ''error'' = Some (VError err)
     \<and> state1 ''cluster_config'' = Some (VClusterConfig cc)"
  using assms unfolding StepVMCreate_Run_def get_cluster_config_def get_vm_config_def Let_def
  by (auto split: option.splits val.splits prod.splits sum.splits if_splits)

text \<open>
  Claim C2. When \<open>StepVMCreate.Run\<close> halts with the failure flag set (a disk or a NIC
  could not be created, after the VM and possibly some of its disks were), the state holds
  the VM's key and the creation error, and the cleanup sends exactly one request, the
  deletion of that VM: no request for a single disk. Whatever the control plane answers to
  the deletion, the state, and with it the error that \<open>Builder.Run\<close> reports, is the
  one that the failed step left. The same holds for the whole run of the pipeline. In
  general the cleanup never changes the state, and it sends a request only when the state
  holds a VM key and the failure flag.
\<close>

theorem vm_create_rollback:
  assumes run: "StepVMCreate_Run (w_env w) state tr = Returned ActionHalt state1 tr1"
    and flag: "state1 ''vm_creation_failed'' = Some (VBool True)"
    and fresh: "state ''vm_creation_failed'' = None"
  shows "(\<exists>key err. state1 ''vm_id'' = Some (VString key) \<and> state1 ''error'' = Some (VError err)
            \<and> (\<forall>e'. StepVMCreate_Cleanup e' state1 tr1
                       = Some (state1, tr1 @ [Http (delete_request key)]))
            \<and> BasicRunner_Run w (VMCreate # rest) state tr
                 = Some (state1, tr1 @ [Http (delete_request key)]))
         \<and> (\<forall>e' st t st' t'. StepVMCreate_Cleanup e' st t = Some (st', t') \<longrightarrow>
               st' = st \<and> (t' = t \<or>
                 (\<exists>key. st ''vm_id'' = Some (VString key)
                    \<and> st ''vm_creation_failed'' = Some (VBool True)
                    \<and> t' = t @ [Http (delete_request key)])))"
proof -
  from run_failed_state [OF run flag fresh] obtain key err cc where
    k: "state1 ''vm_id'' = Some (VString key)" and e: "state1 ''error'' = Some (VError err)"
    and c: "state1 ''cluster_config'' = Some (VClusterConfig cc)"
    by blast
  have del: "StepVMCreate_Cleanup e' state1 tr1 = Some (state1, tr1 @ [Http (delete_request key)])"
    for e'
    by (rule cleanup_deletes [OF k flag c])
  have "BasicRunner_Run w (VMCreate # rest) state tr
          = Some (state1, tr1 @ [Http (delete_request key)])"
    by (simp add: BasicRunner_Run_def Step_Run_def Step_Cleanup_def run del)
  with k e del
  have first: "\<exists>key err. state1 ''vm_id'' = Some (VString key) \<and> state1 ''error'' = Some (VError err)
            \<and> (\<forall>e'. StepVMCreate_Cleanup e' state1 tr1
                       = Some (state1, tr1 @ [Http (delete_request key)]))
            \<and> BasicRunner_Run w (VMCreate # rest) state tr
                 = Some (state1, tr1 @ [Http (delete_request key)])"
    by blast
  have second: "\<forall>e' st t st' t'. StepVMCreate_Cleanup e' st t = Some (st', t') \<longrightarrow>
               st' = st \<and> (t' = t \<or>
                 (\<exists>key. st ''vm_id'' = Some (VString key)
                    \<and> st ''vm_creation_failed'' = Some (VBool True)
                    \<and> t' = t @ [Http (delete_request key)]))"
    using cleanup_frame by blast
  from first second show ?thesis
    by (rule conjI)
qed

lemmas api_defs = CreateVM_def readVM_def decode_vm_def vm_document_def Post_def Get_def Put_def Delete_def Do_def CreateVMDiskWithKey_def
  CreateVMNic_def DeleteVM_def

theorem vm_create_rollback_witness:
  "\<exists>state1 tr1.
     StepVMCreate_Run (w_env (demo_world failing_disk_env)) (Builder_state two_disk_config) []
       = Returned ActionHalt state1 tr1
     \<and> state1 ''vm_creation_failed'' = Some (VBool True)
     \<and> Builder_state two_disk_config ''vm_creation_failed'' = None
     \<and> state1 ''vm_id'' = Some (VString ''42'')
     \<and> state1 ''error'' = Some (VError (Errorf ''error creating disk '%s': %w''
                               [AStr ''data'', AErr (ApiError 500 DiskEndpoint)]))
     \<and> length tr1 = 4
     \<and> BasicRunner_Run (demo_world failing_disk_env) (Builder_steps two_disk_config)
          (Builder_state two_disk_config) []
         = Some (state1, tr1 @ [Http (delete_request ''42'')])"
proof -
  have ex: "\<exists>state1 tr1.
     StepVMCreate_Run (w_env (demo_world failing_disk_env)) (Builder_state two_disk_config) []
       = Returned ActionHalt state1 tr1
     \<and> state1 ''vm_creation_failed'' = Some (VBool True)
     \<and> state1 ''vm_id'' = Some (VString ''42'')
     \<and> state1 ''error'' = Some (VError (Errorf ''error creating disk '%s': %w''
                               [AStr ''data'', AErr (ApiError 500 DiskEndpoint)]))
     \<and> length tr1 = 4"
    by (simp add: StepVMCreate_Run_def demo_world_def failing_disk_env_def Builder_state_def
        two_disk_config_def get_cluster_config_def get_vm_config_def api_defs)
  then obtain state1 tr1 where
    run: "StepVMCreate_Run (w_env (demo_world failing_disk_env)) (Builder_state two_disk_config) []
       = Returned ActionHalt state1 tr1"
    and flag: "state1 ''vm_creation_failed'' = Some (VBool True)"
    and rest: "state1 ''vm_id'' = Some (VString ''42'')"
      "state1 ''error'' = Some (VError (Errorf ''error creating disk '%s': %w''
                               [AStr ''data'', AErr (ApiError 500 DiskEndpoint)]))"
      "length tr1 = 4"
    by blast
  have fresh: "Builder_state two_disk_config ''vm_creation_failed'' = None"
    by (simp add: Builder_state_def)
  from vm_create_rollback [OF run flag fresh, where rest = "tl (Builder_steps two_disk_config)",
      THEN conjunct1] rest(1)
  have "BasicRunner_Run (demo_world failing_disk_env) (Builder_steps two_disk_config)
          (Builder_state two_disk_config) []
         = Some (state1, tr1 @ [Http (delete_request ''42'')])"
    by (auto simp: Builder_steps_def)
  with run flag fresh rest show ?thesis
    by blast
qed

subsection \<open>Power-on timeout and the rollback\<close>

lemmas step_defs = StepVMCreate_Run_def StepWaitForDiskImport_Run_def StepPowerOn_Run_def
  get_cluster_config_def get_vm_config_def get_config_def as_string_def as_bool_def
  IsVMRunning_def PowerOnVM_def changeVMPowerState_def

lemmas cleanup_defs = StepVMCreate_Cleanup_def StepWaitForDiskImport_Cleanup_def
  StepPowerOn_Cleanup_def StepShutdown_Cleanup_def

text \<open>
  Claim C1. A build whose VM is created but never reports running: the power-on step
  times out and puts \<open>vm_power_on_failed\<close> into the state. The cleanup of
  \<open>StepVMCreate\<close> reads \<open>vm_creation_failed\<close>, which nothing has set, so the
  cleanups of the three steps that ran send no request at all: the VM is not deleted.
\<close>

theorem power_on_timeout_no_rollback:
  "\<exists>executed state1 tr1.
     run_steps (demo_world (simple_env False)) (Builder_steps (plain_config True []))
          [] (Builder_state (plain_config True [])) []
       = RunEnds executed ActionHalt state1 tr1
     \<and> executed = [PowerOn \<lparr>PowerOnTimeout = 120, BootTimeout = 300\<rparr>, WaitForDiskImport, VMCreate]
     \<and> state1 ''vm_id'' = Some (VString ''42'')
     \<and> state1 ''vm_power_on_failed'' = Some (VBool True)
     \<and> state1 ''vm_creation_failed'' = None
     \<and> state1 ''error'' = Some (VError (Errorf ''timeout waiting for VM to power on after %v''
                                           [ADuration 120]))
     \<and> cleanup_steps (demo_world (simple_env False)) executed state1 tr1 = Some (state1, tr1)
     \<and> BasicRunner_Run (demo_world (simple_env False)) (Builder_steps (plain_config True []))
          (Builder_state (plain_config True [])) [] = Some (state1, tr1)
     \<and> Http (delete_request ''42'') \<notin> set tr1"
  by (simp add: BasicRunner_Run_def Step_Run_def Step_Cleanup_def step_defs cleanup_defs api_defs
      demo_world_def simple_env_def plain_config_def Builder_steps_def Builder_state_def
      delete_request_def)

subsection \<open>The shutdown step never fails the build\<close>

lemma performForcedShutdown_continue:
  "\<exists>state' tr'. performForcedShutdown e state vmIdStr tr = Returned ActionContinue state' tr'
      \<and> state' ''error'' = state ''error''"
  by (auto simp: performForcedShutdown_def split: prod.splits option.splits)

text \<open>
  Claim C3, as amended. In a state that holds the communicator, the cluster configuration
  and no VM key or a string as VM key, \<open>StepShutdown.Run\<close> returns for every
  behaviour of the communicator, the clock and the control plane, and never changes the
  key \<open>error\<close> of the state. It returns \<open>ActionHalt\<close> in one case only: a
  command is configured, it was started, it ended with status 0, and the build was
  cancelled during the 30 seconds that follow; in every other case it returns
  \<open>ActionContinue\<close>. The forced power-off always continues and records no error,
  also when the power-off request fails. Without a command the step returns at once: the
  state and the history are unchanged, so the VM is left running.
\<close>

theorem shutdown_never_fatal:
  assumes comm: "state ''communicator'' = Some VCommunicator"
    and cc: "state ''cluster_config'' = Some (VClusterConfig cc)"
    and vm: "state ''vm_id'' = None \<or> (\<exists>k. state ''vm_id'' = Some (VString k))"
  shows "\<exists>action state' tr'.
           StepShutdown_Run s e script state tr = Returned action state' tr'
           \<and> state' ''error'' = state ''error''
           \<and> action = (if Command s \<noteq> [] \<and> start_error script = None
                            \<and> wait_outcome script = Exited 0 \<and> cancelled_in_drain script
                         then ActionHalt else ActionContinue)
           \<and> (Command s = [] \<longrightarrow> state' = state \<and> tr' = tr)
           \<and> (\<forall>vmIdStr. \<exists>st' t'.
                 performForcedShutdown e state vmIdStr tr = Returned ActionContinue st' t'
                 \<and> st' ''error'' = state ''error'')"
proof -
  have forced: "\<forall>vmIdStr. \<exists>st' t'.
                 performForcedShutdown e state vmIdStr tr = Returned ActionContinue st' t'
                 \<and> st' ''error'' = state ''error''"
    using performForcedShutdown_continue by blast
  obtain vmIdStr where v: "(case state ''vm_id'' of None \<Rightarrow> Some [] | Some vmId \<Rightarrow> as_string vmId)
      = Some vmIdStr"
    using vm by (auto simp: as_string_def)
  from performForcedShutdown_continue [of e state vmIdStr tr] obtain fs ft where
    f: "performForcedShutdown e state vmIdStr tr = Returned ActionContinue fs ft"
      "fs ''error'' = state ''error''"
    by blast
  show ?thesis
  proof (cases "Command s = []")
    case True
    then show ?thesis using forced by (simp add: StepShutdown_Run_def)
  next
    case False
    note cmd = this
    show ?thesis
    proof (cases "start_error script")
      case (Some err)
      then show ?thesis using cmd comm cc v f forced
        by (simp add: StepShutdown_Run_def get_cluster_config_def)
    next
      case None
      note st = this
      show ?thesis
      proof (cases "wait_outcome script")
        case TimedOut
        then show ?thesis using cmd comm cc v f forced st
          by (simp add: StepShutdown_Run_def get_cluster_config_def)
      next
        case (Exited x)
        then show ?thesis using cmd comm cc v f forced st
          by (simp add: StepShutdown_Run_def get_cluster_config_def)
      qed
    qed
  qed
qed

text \<open>
  Claim C3 as stated fails: the command is configured, starts and ends with status 0, and
  the build is cancelled during the wait of Phase 3. The step returns \<open>ActionHalt\<close>.
\<close>

theorem shutdown_cancelled_halts:
  "StepShutdown_Run \<lparr>Command = ''poweroff'', Timeout = 0\<rparr> (simple_env False) drain_cancelled
     connected_state [] = Returned ActionHalt connected_state []"
  by (simp add: StepShutdown_Run_def drain_cancelled_def connected_state_def Builder_state_def
      get_cluster_config_def as_string_def)

theorem shutdown_never_fatal_witness:
  "connected_state ''communicator'' = Some VCommunicator
   \<and> connected_state ''cluster_config''
       = Some (VClusterConfig (cfg_ClusterConfig (plain_config True [])))
   \<and> (\<exists>k. connected_state ''vm_id'' = Some (VString k))
   \<and> (\<exists>state' tr'.
         StepShutdown_Run \<lparr>Command = ''poweroff'', Timeout = 0\<rparr> failing_disk_env exit_one
           connected_state [] = Returned ActionContinue state' tr'
         \<and> state' ''error'' = None)"
proof -
  have h1: "connected_state ''communicator'' = Some VCommunicator"
    by (simp add: connected_state_def)
  have h2: "connected_state ''cluster_config''
       = Some (VClusterConfig (cfg_ClusterConfig (plain_config True [])))"
    by (simp add: connected_state_def Builder_state_def)
  have h3: "\<exists>k. connected_state ''vm_id'' = Some (VString k)"
    by (simp add: connected_state_def)
  have h4: "connected_state ''error'' = None"
    by (simp add: connected_state_def Builder_state_def)
  from shutdown_never_fatal [OF h1 h2 disjI2 [OF h3],
      of "\<lparr>Command = ''poweroff'', Timeout = 0\<rparr>" failing_disk_env exit_one "[]"]
  obtain action state' tr' where
    "StepShutdown_Run \<lparr>Command = ''poweroff'', Timeout = 0\<rparr> failing_disk_env exit_one
           connected_state [] = Returned action state' tr'"
    "state' ''error'' = connected_state ''error''"
    "action = (if Command \<lparr>Command = ''poweroff'', Timeout = 0\<rparr> \<noteq> []
                   \<and> start_error exit_one = None
                   \<and> wait_outcome exit_one = Exited 0 \<and> cancelled_in_drain exit_one
               then ActionHalt else ActionContinue)"
    by blast
  then have "\<exists>state' tr'.
         StepShutdown_Run \<lparr>Command = ''poweroff'', Timeout = 0\<rparr> failing_disk_env exit_one
           connected_state [] = Returned ActionContinue state' tr'
         \<and> state' ''error'' = None"
    using h4 by (simp add: exit_one_def)
  with h1 h2 h3 show ?thesis
    by blast
qed

subsection \<open>The settle loop\<close>

text \<open>
  Claim C7. The guest agent reports the address lists A, A, B, B, B (A is 10.0.0.1 and B
  is 10.0.0.2) and every settle window lasts two ticks. The initial check finds A; the
  first settle tick finds A again, and the loop is left on that tick, through the
  \<open>break\<close> after the \<open>select\<close>: the step sends two requests, creates one settle
  timer and never restarts it, never sees B, and stores the first address of A as host.
\<close>

theorem settle_stops_at_first_unchanged_poll:
  "StepWaitForIP_Run \<lparr>WaitTimeout = 0, SettleTimeout = 10\<rparr>
     (scripted_agent_env
        [[''10.0.0.1''], [''10.0.0.1''], [''10.0.0.2''], [''10.0.0.2''], [''10.0.0.2'']])
     (Suc (Suc 0)) (\<lambda>k. Suc (Suc 0)) (Suc (Suc (Suc (Suc (Suc 0))))) powered_state []
   = Some (Returned ActionContinue
       (powered_state(''host'' \<mapsto> VString ''10.0.0.1'', ''discovered_ips'' \<mapsto> VStrings [''10.0.0.1'']))
       [Http (dashboard_request ''42''), SettleTimer, Http (dashboard_request ''42'')])"
  by (simp add: StepWaitForIP_Run_def scripted_agent_env_def requests_def dashboard_request_def
      powered_state_def Builder_state_def get_cluster_config_def as_string_def
      GetGuestAgentIPs_def Get_def Do_def guest_ipv4_def ipSlicesEqual_def map_index_def)

subsection \<open>Waiting for disk imports\<close>

lemma check_trace: "snd (CheckDiskImportStatus e k tr) = tr @ [Http (status_request k)]"
  by (auto simp: CheckDiskImportStatus_def Get_def Do_def status_request_def
      split: reply.splits doc.splits)

lemma check_cases:
  obtains (err) x where "CheckDiskImportStatus e k tr = (Inl x, tr @ [Http (status_request k)])"
  | (ok) s where "CheckDiskImportStatus e k tr = (Inr s, tr @ [Http (status_request k)])"
  using check_trace [of e k tr] by (cases "CheckDiskImportStatus e k tr"; case_tac a) auto

lemma seen_shift:
  "seen e k (tr @ [Http (status_request k), Sleep 5]) i = seen e k tr (Suc i)"
  by (simp add: seen_def)

lemma wait_disk_char:
  "retries < maxRetries \<Longrightarrow>
   \<exists>m. int m < maxRetries - retries
     \<and> snd (wait_disk e k maxRetries retries tr) = tr @ rounds k m @ [Http (status_request k)]
     \<and> (\<forall>i<m. \<exists>s. seen e k tr i = Inr s \<and> ToLower e s = ''importing'')
     \<and> (case seen e k tr m of
          Inl err \<Rightarrow> fst (wait_disk e k maxRetries retries tr)
                       = Some (Errorf ''failed to check disk import status: %w'' [AErr err])
        | Inr s \<Rightarrow>
            if ToLower e s \<noteq> ''importing'' then fst (wait_disk e k maxRetries retries tr) = None
            else int m + 1 = maxRetries - retries
                 \<and> fst (wait_disk e k maxRetries retries tr)
                   = Some (Errorf ''disk %s failed to complete import after %d retries, last status: %s''
                             [AStr k, AInt maxRetries, AStr s]))"
proof (induction e k maxRetries retries tr rule: wait_disk.induct)
  case (1 e k maxRetries retries tr)
  show ?case
  proof (cases rule: check_cases [of e k tr])
    case (err x)
    then have "seen e k tr 0 = Inl x" by (simp add: seen_def)
    with err 1(2) show ?thesis
      by (intro exI [of _ 0]) (simp add: wait_disk.simps [of e k maxRetries retries tr])
  next
    case (ok s)
    then have s0: "seen e k tr 0 = Inr s" by (simp add: seen_def)
    show ?thesis
    proof (cases "ToLower e s \<noteq> ''importing''")
      case True
      with ok s0 1(2) show ?thesis
        by (intro exI [of _ 0]) (simp add: wait_disk.simps [of e k maxRetries retries tr])
    next
      case False
      note imp = this
      show ?thesis
      proof (cases "retries + 1 \<ge> maxRetries")
        case True
        with ok s0 1(2) imp show ?thesis
          by (intro exI [of _ 0]) (simp add: wait_disk.simps [of e k maxRetries retries tr])
      next
        case False
        then have lt: "retries + 1 < maxRetries" and nge: "\<not> maxRetries \<le> retries + 1"
          by simp_all
        let ?tr2 = "(tr @ [Http (status_request k)]) @ [Sleep 5]"
        have tr2: "?tr2 = tr @ [Http (status_request k), Sleep 5]"
          by simp
        have nimp: "\<not> ToLower e s \<noteq> ''importing''"
          using imp by simp
        have step: "wait_disk e k maxRetries retries tr = wait_disk e k maxRetries (retries + 1) ?tr2"
          using ok imp nge 1(2) by (simp add: wait_disk.simps [of e k maxRetries retries tr])
        from 1(1) [OF 1(2) ok [symmetric] refl nimp nge lt]
        obtain m where m1: "int m < maxRetries - (retries + 1)"
          and m2: "snd (wait_disk e k maxRetries (retries + 1) ?tr2)
                    = ?tr2 @ rounds k m @ [Http (status_request k)]"
          and m3: "\<forall>i<m. \<exists>s. seen e k ?tr2 i = Inr s \<and> ToLower e s = ''importing''"
          and m4: "(case seen e k ?tr2 m of
              Inl err \<Rightarrow> fst (wait_disk e k maxRetries (retries + 1) ?tr2)
                       = Some (Errorf ''failed to check disk import status: %w'' [AErr err])
            | Inr s \<Rightarrow>
               if ToLower e s \<noteq> ''importing'' then fst (wait_disk e k maxRetries (retries + 1) ?tr2) = None
               else int m + 1 = maxRetries - (retries + 1)
                 \<and> fst (wait_disk e k maxRetries (retries + 1) ?tr2)
                   = Some (Errorf ''disk %s failed to complete import after %d retries, last status: %s''
                             [AStr k, AInt maxRetries, AStr s]))"
          by blast
        have sh: "seen e k ?tr2 i = seen e k tr (Suc i)" for i
          unfolding tr2 by (rule seen_shift)
        have all: "\<forall>i<Suc m. \<exists>s. seen e k tr i = Inr s \<and> ToLower e s = ''importing''"
        proof (intro allI impI)
          fix i assume "i < Suc m"
          then show "\<exists>s. seen e k tr i = Inr s \<and> ToLower e s = ''importing''"
            using m3 [unfolded sh] s0 imp by (cases i) auto
        qed
        have c1: "int (Suc m) < maxRetries - retries"
          using m1 by simp
        have c2: "snd (wait_disk e k maxRetries retries tr)
                    = tr @ rounds k (Suc m) @ [Http (status_request k)]"
          unfolding step m2 by simp
        have c4: "(case seen e k tr (Suc m) of
              Inl err \<Rightarrow> fst (wait_disk e k maxRetries retries tr)
                       = Some (Errorf ''failed to check disk import status: %w'' [AErr err])
            | Inr s \<Rightarrow>
               if ToLower e s \<noteq> ''importing'' then fst (wait_disk e k maxRetries retries tr) = None
               else int (Suc m) + 1 = maxRetries - retries
                 \<and> fst (wait_disk e k maxRetries retries tr)
                   = Some (Errorf ''disk %s failed to complete import after %d retries, last status: %s''
                             [AStr k, AInt maxRetries, AStr s]))"
          using m4 unfolding step sh by (auto split: sum.splits)
        from c1 c2 all c4 show ?thesis
          by blast
      qed
    qed
  qed
qed

lemma wait_disk_20:
  "\<exists>m. snd (wait_disk e k 20 0 tr) = tr @ rounds k m @ [Http (status_request k)]
       \<and> disk_wait e k tr m (fst (wait_disk e k 20 0 tr))"
proof -
  from wait_disk_char [of 0 20 e k tr] obtain m where
    m1: "int m < 20 - 0"
    and m2: "snd (wait_disk e k 20 0 tr) = tr @ rounds k m @ [Http (status_request k)]"
    and m3: "\<forall>i<m. \<exists>s. seen e k tr i = Inr s \<and> ToLower e s = ''importing''"
    and m4: "(case seen e k tr m of
          Inl err \<Rightarrow> fst (wait_disk e k 20 0 tr)
                       = Some (Errorf ''failed to check disk import status: %w'' [AErr err])
        | Inr s \<Rightarrow>
            if ToLower e s \<noteq> ''importing'' then fst (wait_disk e k 20 0 tr) = None
            else int m + 1 = 20 - 0
                 \<and> fst (wait_disk e k 20 0 tr)
                   = Some (Errorf ''disk %s failed to complete import after %d retries, last status: %s''
                             [AStr k, AInt 20, AStr s]))"
    by auto
  have "list_all (\<lambda>i. keeps_polling e (seen e k tr i)) [0..<m]"
    using m3 by (auto simp: list_all_iff keeps_polling_def)
  moreover have "m < 20" using m1 by simp
  ultimately have "disk_wait e k tr m (fst (wait_disk e k 20 0 tr))"
    using m4 unfolding disk_wait_def by (auto split: sum.splits)
  with m2 show ?thesis by blast
qed

lemma waits_Nil [simp]: "waits [] = []"
  by (simp add: waits_def)

lemma waits_Cons [simp]:
  "waits ((k, m) # kms) = rounds k m @ Http (status_request k) # waits kms"
  by (simp add: waits_def)

lemma wait_disks_char:
  "\<exists>ms. length ms \<le> length keys \<and> (keys \<noteq> [] \<longrightarrow> ms \<noteq> [])
     \<and> snd (wait_disks e keys 20 tr) = tr @ waits (zip keys ms)
     \<and> (\<forall>j<length ms.
           disk_wait e (keys ! j) (tr @ waits (take j (zip keys ms))) (ms ! j)
             (if Suc j = length ms then fst (wait_disks e keys 20 tr) else None))
     \<and> (fst (wait_disks e keys 20 tr) = None \<longrightarrow> length ms = length keys)"
proof (induction keys arbitrary: tr)
  case Nil
  show ?case by (intro exI [of _ "[]"]) simp
next
  case (Cons k rest)
  from wait_disk_20 [of e k tr] obtain m where
    tr1: "snd (wait_disk e k 20 0 tr) = tr @ rounds k m @ [Http (status_request k)]"
    and dw: "disk_wait e k tr m (fst (wait_disk e k 20 0 tr))"
    by blast
  show ?case
  proof (cases "fst (wait_disk e k 20 0 tr)")
    case (Some err)
    then have "wait_disk e k 20 0 tr = (Some err, tr @ rounds k m @ [Http (status_request k)])"
      using tr1 by (simp add: prod_eq_iff)
    then have eq: "wait_disks e (k # rest) 20 tr = (Some err, tr @ rounds k m @ [Http (status_request k)])"
      by simp
    have f1: "length [m] \<le> length (k # rest)" and f2: "k # rest \<noteq> [] \<longrightarrow> [m] \<noteq> []"
      by simp_all
    have f3: "snd (wait_disks e (k # rest) 20 tr) = tr @ waits (zip (k # rest) [m])"
      unfolding eq by simp
    have f4: "\<forall>j<length [m].
           disk_wait e ((k # rest) ! j) (tr @ waits (take j (zip (k # rest) [m]))) ([m] ! j)
             (if Suc j = length [m] then fst (wait_disks e (k # rest) 20 tr) else None)"
    proof (intro allI impI)
      fix j assume "j < length [m]"
      then have j: "j = 0" by simp
      show "disk_wait e ((k # rest) ! j) (tr @ waits (take j (zip (k # rest) [m]))) ([m] ! j)
             (if Suc j = length [m] then fst (wait_disks e (k # rest) 20 tr) else None)"
        unfolding j eq using dw Some by simp
    qed
    have f5: "fst (wait_disks e (k # rest) 20 tr) = None \<longrightarrow> length [m] = length (k # rest)"
      unfolding eq by simp
    from f1 f2 f3 f4 f5 show ?thesis
      by (intro exI [of _ "[m]"] conjI)
  next
    case None
    let ?tr1 = "tr @ rounds k m @ [Http (status_request k)]"
    have "wait_disk e k 20 0 tr = (None, ?tr1)"
      using tr1 None by (simp add: prod_eq_iff)
    then have eq: "wait_disks e (k # rest) 20 tr = wait_disks e rest 20 ?tr1"
      by simp
    from Cons.IH [of ?tr1] obtain ms where
      a: "length ms \<le> length rest" and a': "rest \<noteq> [] \<longrightarrow> ms \<noteq> []"
      and b: "snd (wait_disks e rest 20 ?tr1) = ?tr1 @ waits (zip rest ms)"
      and c: "\<forall>j<length ms.
           disk_wait e (rest ! j) (?tr1 @ waits (take j (zip rest ms))) (ms ! j)
             (if Suc j = length ms then fst (wait_disks e rest 20 ?tr1) else None)"
      and d: "fst (wait_disks e rest 20 ?tr1) = None \<longrightarrow> length ms = length rest"
      by (elim exE conjE)
    have nil: "ms = [] \<Longrightarrow> fst (wait_disks e rest 20 ?tr1) = None"
      using a' by (cases rest) auto
    have c': "\<forall>j<length (m # ms).
           disk_wait e ((k # rest) ! j) (tr @ waits (take j (zip (k # rest) (m # ms)))) ((m # ms) ! j)
             (if Suc j = length (m # ms) then fst (wait_disks e (k # rest) 20 tr) else None)"
    proof (intro allI impI)
      fix j assume j: "j < length (m # ms)"
      show "disk_wait e ((k # rest) ! j) (tr @ waits (take j (zip (k # rest) (m # ms)))) ((m # ms) ! j)
             (if Suc j = length (m # ms) then fst (wait_disks e (k # rest) 20 tr) else None)"
      proof (cases j)
        case 0
        then show ?thesis using dw None nil by (auto simp: eq simp del: wait_disks.simps)
      next
        case (Suc j')
        with j have "j' < length ms" by simp
        with c have "disk_wait e (rest ! j') (?tr1 @ waits (take j' (zip rest ms))) (ms ! j')
             (if Suc j' = length ms then fst (wait_disks e rest 20 ?tr1) else None)"
          by (elim allE [of _ j']) (rule mp)
        then have "disk_wait e ((k # rest) ! Suc j')
             (tr @ waits (take (Suc j') (zip (k # rest) (m # ms)))) ((m # ms) ! Suc j')
             (if Suc (Suc j') = length (m # ms) then fst (wait_disks e (k # rest) 20 tr) else None)"
          by (simp add: eq del: wait_disks.simps split: if_splits)
        then show ?thesis
          unfolding Suc .
      qed
    qed
    have e1: "length (m # ms) \<le> length (k # rest)" using a by simp
    have e2: "k # rest \<noteq> [] \<longrightarrow> m # ms \<noteq> []" by simp
    have e3: "snd (wait_disks e (k # rest) 20 tr) = tr @ waits (zip (k # rest) (m # ms))"
      unfolding eq b by simp
    have e4: "fst (wait_disks e (k # rest) 20 tr) = None \<longrightarrow> length (m # ms) = length (k # rest)"
      unfolding eq using d by simp
    from e1 e2 e3 c' e4 show ?thesis
      by (intro exI [of _ "m # ms"] conjI)
  qed
qed

lemma ToLower_ascii:
  "list_all (\<lambda>c. (of_char c :: nat) < 0x80) s \<Longrightarrow> ToLower e s = map ToLower_char s"
  by (simp add: ToLower_def)

lemma runes_dotted: "runes dotted_importing = [0x130, 0x4D, 0x50, 0x4F, 0x52, 0x54, 0x49, 0x4E, 0x47]"
  by (simp add: dotted_importing_def DecodeRuneInString_def utf8_first_def)

lemma ToLower_dotted_capital_I:
  "To_LowerCase e 0x130 = 0x69 \<Longrightarrow> ToLower e dotted_importing = ''importing''"
  by (simp add: ToLower_def strings_Map_def runes_dotted unicode_ToLower_def AppendRune_def)
    (simp add: dotted_importing_def char_of_def bit_0 bit_Suc_0_iff)

text \<open>
  A disk whose status stays "IMPORTING" with the dotted capital I is polled 20 times and
  then given up with the timeout error.
\<close>

lemma dotted_capital_I_polls_on:
  "fst (WaitForDiskImportCompletion (scripted_status_env [] dotted_importing) [''k1''] 20 [])
       = Some (Errorf ''disk %s failed to complete import after %d retries, last status: %s''
                 [AStr ''k1'', AInt 20, AStr dotted_importing])"
proof -
  have "ToLower (scripted_status_env [] dotted_importing) dotted_importing = ''importing''"
    by (rule ToLower_dotted_capital_I) (simp add: scripted_status_env_def case_table_def)
  then show ?thesis
    by (simp add: WaitForDiskImportCompletion_def wait_disk.simps CheckDiskImportStatus_def
       Get_def Do_def scripted_status_env_def requests_def status_request_def)
qed

text \<open>
  Claim C5. \<open>WaitForDiskImportCompletion\<close> with the retry bound 20 that
  \<open>StepWaitForDiskImport.Run\<close> passes: without disks it does nothing. Otherwise it
  sleeps 5 seconds once and then waits for the disks in the order of the list, one after
  the other: the history is that sleep followed, for each disk that was reached, by
  \<open>m\<close> rounds (a status request and 5 seconds of sleep) and one more status request,
  with \<open>m < 20\<close>, so at most 20 requests per disk. \<open>disk_wait\<close> holds for each of
  these disks: every poll but the last returned a status that \<open>strings.ToLower\<close> turns
  into "importing", which is the comparison without regard to case that the code makes (for
  a status of ASCII bytes: "importing" in some case of its letters; the library also turns
  the capital I with a dot above into "i", so that status keeps the loop polling as well);
  a last status that is anything else ended the wait of that disk without an error; a
  failed request, or "importing" on the twentieth poll, ended the whole wait with an
  error, the latter holding the disk key, the bound and the status of that poll. When no
  error is returned every disk has been waited for. An error makes the step halt with that
  error, wrapped, under \<open>error\<close> in the state.
\<close>

theorem import_wait_protocol:
  "\<exists>ms. length ms \<le> length keys \<and> (keys \<noteq> [] \<longrightarrow> ms \<noteq> [])
     \<and> snd (WaitForDiskImportCompletion e keys 20 tr)
         = (if keys = [] then tr else tr @ Sleep 5 # waits (zip keys ms))
     \<and> (\<forall>j<length ms.
           disk_wait e (keys ! j) (tr @ Sleep 5 # waits (take j (zip keys ms))) (ms ! j)
             (if Suc j = length ms then fst (WaitForDiskImportCompletion e keys 20 tr) else None))
     \<and> (fst (WaitForDiskImportCompletion e keys 20 tr) = None \<longrightarrow> length ms = length keys)
     \<and> (state ''import_disk_keys'' = Some (VStrings keys) \<and> keys \<noteq> [] \<longrightarrow>
          (\<forall>err. fst (WaitForDiskImportCompletion e keys 20 tr) = Some err \<longrightarrow>
             StepWaitForDiskImport_Run e state tr
               = Returned ActionHalt
                   (state(''error'' \<mapsto> VError (Errorf ''disk import failed: %w'' [AErr err])))
                   (snd (WaitForDiskImportCompletion e keys 20 tr))))"
proof -
  have run: "state ''import_disk_keys'' = Some (VStrings keys) \<and> keys \<noteq> [] \<longrightarrow>
          (\<forall>err. fst (WaitForDiskImportCompletion e keys 20 tr) = Some err \<longrightarrow>
             StepWaitForDiskImport_Run e state tr
               = Returned ActionHalt
                   (state(''error'' \<mapsto> VError (Errorf ''disk import failed: %w'' [AErr err])))
                   (snd (WaitForDiskImportCompletion e keys 20 tr)))"
    by (auto simp: StepWaitForDiskImport_Run_def split: prod.splits)
  show ?thesis
  proof (cases "keys = []")
    case True
    have "length [] \<le> length keys" by simp
    moreover have "keys \<noteq> [] \<longrightarrow> ([]::nat list) \<noteq> []" using True by simp
    moreover have "snd (WaitForDiskImportCompletion e keys 20 tr)
         = (if keys = [] then tr else tr @ Sleep 5 # waits (zip keys []))"
      using True by (simp add: WaitForDiskImportCompletion_def)
    moreover have "\<forall>j<length ([]::nat list).
           disk_wait e (keys ! j) (tr @ Sleep 5 # waits (take j (zip keys []))) ([] ! j)
             (if Suc j = length ([]::nat list) then fst (WaitForDiskImportCompletion e keys 20 tr) else None)"
      by simp
    moreover have "fst (WaitForDiskImportCompletion e keys 20 tr) = None
        \<longrightarrow> length ([]::nat list) = length keys"
      using True by simp
    ultimately show ?thesis using run
      by (intro exI [of _ "[]"] conjI)
  next
    case False
    then have w: "WaitForDiskImportCompletion e keys 20 tr = wait_disks e keys 20 (tr @ [Sleep 5])"
      by (simp add: WaitForDiskImportCompletion_def)
    from wait_disks_char [of keys e "tr @ [Sleep 5]"] obtain ms where
      a: "length ms \<le> length keys" and a': "keys \<noteq> [] \<longrightarrow> ms \<noteq> []"
      and b: "snd (wait_disks e keys 20 (tr @ [Sleep 5])) = (tr @ [Sleep 5]) @ waits (zip keys ms)"
      and c: "\<forall>j<length ms.
           disk_wait e (keys ! j) ((tr @ [Sleep 5]) @ waits (take j (zip keys ms))) (ms ! j)
             (if Suc j = length ms then fst (wait_disks e keys 20 (tr @ [Sleep 5])) else None)"
      and d: "fst (wait_disks e keys 20 (tr @ [Sleep 5])) = None \<longrightarrow> length ms = length keys"
      by (elim exE conjE)
    have b': "snd (WaitForDiskImportCompletion e keys 20 tr)
         = (if keys = [] then tr else tr @ Sleep 5 # waits (zip keys ms))"
      using False b unfolding w by simp
    have c': "\<forall>j<length ms.
           disk_wait e (keys ! j) (tr @ Sleep 5 # waits (take j (zip keys ms))) (ms ! j)
             (if Suc j = length ms then fst (WaitForDiskImportCompletion e keys 20 tr) else None)"
      using c unfolding w by simp
    have d': "fst (WaitForDiskImportCompletion e keys 20 tr) = None \<longrightarrow> length ms = length keys"
      using d unfolding w .
    from a a' b' c' d' run show ?thesis
      by (intro exI [of _ ms] conjI)
  qed
qed

lemmas import_eval = WaitForDiskImportCompletion_def wait_disk.simps CheckDiskImportStatus_def
  Get_def Do_def scripted_status_env_def requests_def ToLower_def ToLower_char_def status_request_def

theorem import_wait_protocol_witness:
  "WaitForDiskImportCompletion (scripted_status_env [''IMPORTING'', ''online''] ''ready'')
       [''k1'', ''k2''] 20 []
     = (None, [Sleep 5, Http (status_request ''k1''), Sleep 5, Http (status_request ''k1''),
               Http (status_request ''k2'')])
   \<and> (\<exists>ms. length ms = 2
          \<and> [Sleep 5, Http (status_request ''k1''), Sleep 5, Http (status_request ''k1''),
               Http (status_request ''k2'')] = Sleep 5 # waits (zip [''k1'', ''k2''] ms))
   \<and> import_state [''k1''] [] ''import_disk_keys'' = Some (VStrings [''k1''])
   \<and> fst (WaitForDiskImportCompletion (scripted_status_env [] ''Importing'') [''k1''] 20 [])
       = Some (Errorf ''disk %s failed to complete import after %d retries, last status: %s''
                 [AStr ''k1'', AInt 20, AStr ''Importing''])
   \<and> StepWaitForDiskImport_Run (scripted_status_env [] ''Importing'') (import_state [''k1''] []) []
       = Returned ActionHalt
           ((import_state [''k1''] [])(''error'' \<mapsto> VError (Errorf ''disk import failed: %w''
              [AErr (Errorf ''disk %s failed to complete import after %d retries, last status: %s''
                 [AStr ''k1'', AInt 20, AStr ''Importing''])])))
           (snd (WaitForDiskImportCompletion (scripted_status_env [] ''Importing'') [''k1''] 20 []))"
proof -
  let ?e1 = "scripted_status_env [''IMPORTING'', ''online''] ''ready''"
  let ?e2 = "scripted_status_env [] ''Importing''"
  let ?t1 = "[Sleep 5, Http (status_request ''k1''), Sleep 5, Http (status_request ''k1''),
               Http (status_request ''k2'')]"
  let ?err = "Errorf ''disk %s failed to complete import after %d retries, last status: %s''
                 [AStr ''k1'', AInt 20, AStr ''Importing'']"
  have h1: "WaitForDiskImportCompletion ?e1 [''k1'', ''k2''] 20 [] = (None, ?t1)"
    by (simp add: import_eval)
  have h2: "fst (WaitForDiskImportCompletion ?e2 [''k1''] 20 []) = Some ?err"
    by (simp add: import_eval)
  have h3: "import_state [''k1''] [] ''import_disk_keys'' = Some (VStrings [''k1''])"
    by (simp add: import_state_def)
  from import_wait_protocol [of "[''k1'', ''k2'']" ?e1 "[]" "import_state [''k1''] []"]
  obtain ms where
    a: "length ms \<le> length [''k1'', ''k2'']"
    and b: "snd (WaitForDiskImportCompletion ?e1 [''k1'', ''k2''] 20 [])
         = (if [''k1'', ''k2''] = [] then [] else [] @ Sleep 5 # waits (zip [''k1'', ''k2''] ms))"
    and d: "fst (WaitForDiskImportCompletion ?e1 [''k1'', ''k2''] 20 []) = None
              \<longrightarrow> length ms = length [''k1'', ''k2'']"
    by (elim exE conjE) (rule that; assumption)
  have p1: "\<exists>ms. length ms = 2 \<and> ?t1 = Sleep 5 # waits (zip [''k1'', ''k2''] ms)"
    using b d unfolding h1 by (intro exI [of _ ms]) simp
  from import_wait_protocol [of "[''k1'']" ?e2 "[]" "import_state [''k1''] []"]
  have r: "import_state [''k1''] [] ''import_disk_keys'' = Some (VStrings [''k1'']) \<and> [''k1''] \<noteq> [] \<longrightarrow>
          (\<forall>err. fst (WaitForDiskImportCompletion ?e2 [''k1''] 20 []) = Some err \<longrightarrow>
             StepWaitForDiskImport_Run ?e2 (import_state [''k1''] []) []
               = Returned ActionHalt
                   ((import_state [''k1''] [])(''error'' \<mapsto> VError (Errorf ''disk import failed: %w'' [AErr err])))
                   (snd (WaitForDiskImportCompletion ?e2 [''k1''] 20 [])))"
    by (elim exE conjE)
  have p2: "StepWaitForDiskImport_Run ?e2 (import_state [''k1''] []) []
       = Returned ActionHalt
           ((import_state [''k1''] [])(''error'' \<mapsto> VError (Errorf ''disk import failed: %w'' [AErr ?err])))
           (snd (WaitForDiskImportCompletion ?e2 [''k1''] 20 []))"
    using r h3 h2 by simp
  from h1 p1 h3 h2 p2 show ?thesis
    by (intro conjI)
qed

subsection \<open>Reconciling the sizes of imported disks\<close>

text \<open>
  The two lists that \<open>StepVMCreate.Run\<close> stores for the imported disks have the same
  length, which is what the loop of \<open>CheckAndResizeImportedDisks\<close> relies on.
\<close>

lemma create_disks_lengths:
  "create_disks e machineID disks keys configs tr = (Inr (keys', configs'), tr')
     \<Longrightarrow> length keys = length configs \<Longrightarrow> length keys' = length configs'"
proof (induction disks arbitrary: keys configs tr)
  case Nil
  then show ?case by simp
next
  case (Cons disk rest)
  then show ?case
    by (auto simp: Let_def split: prod.splits sum.splits if_splits)
qed

lemma stored_import_lists:
  assumes "StepVMCreate_Run e state tr = Returned ActionContinue state' tr'"
    and "state' ''import_disk_keys'' = Some (VStrings keys)"
    and "state ''import_disk_keys'' = None"
  shows "\<exists>configs. state' ''import_disk_configs'' = Some (VDisks configs)
           \<and> length configs = length keys"
  using assms unfolding StepVMCreate_Run_def get_cluster_config_def get_vm_config_def Let_def
  by (auto split: option.splits prod.splits sum.splits if_splits val.splits
      dest!: create_disks_lengths)

lemma read_trace: "snd (ReadDisk e k t) = t @ [Http (read_request k)]"
  by (auto simp: ReadDisk_def Get_def Do_def read_request_def split: reply.splits doc.splits)

lemma update_trace: "snd (UpdateDiskSize e k gb t) = t @ [Http (resize_request k gb)]"
  by (auto simp: UpdateDiskSize_def Put_def Do_def resize_request_def split: reply.splits)

lemma checks_Nil [simp]: "checks [] = []"
  by (simp add: checks_def)

lemma checks_Cons [simp]:
  "checks ((k, a) # kas)
     = Http (read_request k) # (case a of None \<Rightarrow> [] | Some gb \<Rightarrow> [Http (resize_request k gb)])
         @ checks kas"
  by (simp add: checks_def)

text \<open>One disk: what the loop body does, and whether the loop goes on.\<close>

lemma resize_step:
  assumes "i < length configs"
  shows "\<exists>a v. reconciled e (configs ! i) k tr a v
     \<and> resize_loop e configs i (k # rest) tr
         = (case v of
              Some err \<Rightarrow> (Some err, tr @ checks [(k, a)])
            | None \<Rightarrow> resize_loop e configs (Suc i) rest (tr @ checks [(k, a)]))"
proof (cases "fst (ReadDisk e k tr)")
  case (Inl err)
  then have r: "ReadDisk e k tr = (Inl err, tr @ [Http (read_request k)])"
    using read_trace [of e k tr] by (simp add: prod_eq_iff)
  show ?thesis
    apply (rule exI [of _ None])
    apply (rule exI [of _ "Some (Errorf ''failed to read disk %s after import: %w''
                             [AStr (disk_Name (configs ! i)), AErr err])"])
    using assms Inl r by (simp add: reconciled_def Let_def)
next
  case (Inr d)
  then have r: "ReadDisk e k tr = (Inr d, tr @ [Http (read_request k)])"
    using read_trace [of e k tr] by (simp add: prod_eq_iff)
  let ?gb = "disk_DiskSize (configs ! i)"
  let ?t1 = "tr @ [Http (read_request k)]"
  show ?thesis
  proof (cases "int64_quo (disk_DiskSize d) (1024 * 1024 * 1024) = ?gb")
    case True
    show ?thesis
      apply (rule exI [of _ None])
      apply (rule exI [of _ None])
      using assms Inr r True by (simp add: reconciled_def Let_def)
  next
    case False
    show ?thesis
    proof (cases "fst (UpdateDiskSize e k ?gb ?t1)")
      case None
      then have u: "UpdateDiskSize e k ?gb ?t1 = (None, ?t1 @ [Http (resize_request k ?gb)])"
        using update_trace [of e k ?gb ?t1] by (simp add: prod_eq_iff)
      show ?thesis
        apply (rule exI [of _ "Some ?gb"])
        apply (rule exI [of _ None])
        using assms Inr r False None u by (simp add: reconciled_def Let_def)
    next
      case (Some err)
      then have u: "UpdateDiskSize e k ?gb ?t1 = (Some err, ?t1 @ [Http (resize_request k ?gb)])"
        using update_trace [of e k ?gb ?t1] by (simp add: prod_eq_iff)
      show ?thesis
        apply (rule exI [of _ "Some ?gb"])
        apply (rule exI [of _ "Some (Errorf ''failed to resize disk %s: %w''
                                        [AStr (disk_Name (configs ! i)), AErr err])"])
        using assms Inr r False Some u by (simp add: reconciled_def Let_def)
    qed
  qed
qed

lemma resize_loop_char:
  "i + length keys \<le> length configs \<Longrightarrow>
   \<exists>acts. length acts \<le> length keys \<and> (keys \<noteq> [] \<longrightarrow> acts \<noteq> [])
     \<and> snd (resize_loop e configs i keys tr) = tr @ checks (zip keys acts)
     \<and> (\<forall>j<length acts.
           reconciled e (configs ! (i + j)) (keys ! j) (tr @ checks (take j (zip keys acts)))
             (acts ! j)
             (if Suc j = length acts then fst (resize_loop e configs i keys tr) else None))
     \<and> (fst (resize_loop e configs i keys tr) = None \<longrightarrow> length acts = length keys)"
proof (induction keys arbitrary: i tr)
  case Nil
  show ?case by (intro exI [of _ "[]"]) simp
next
  case (Cons k rest)
  then have i: "i < length configs" and i': "Suc i + length rest \<le> length configs"
    by simp_all
  from resize_step [OF i, of e k tr rest] obtain a v where
    rec: "reconciled e (configs ! i) k tr a v"
    and eq0: "resize_loop e configs i (k # rest) tr
         = (case v of
              Some err \<Rightarrow> (Some err, tr @ checks [(k, a)])
            | None \<Rightarrow> resize_loop e configs (Suc i) rest (tr @ checks [(k, a)]))"
    by (elim exE conjE)
  show ?case
  proof (cases v)
    case (Some err)
    then have eq: "resize_loop e configs i (k # rest) tr = (Some err, tr @ checks [(k, a)])"
      using eq0 by simp
    have f1: "length [a] \<le> length (k # rest)" and f2: "k # rest \<noteq> [] \<longrightarrow> [a] \<noteq> []"
      by simp_all
    have f3: "snd (resize_loop e configs i (k # rest) tr) = tr @ checks (zip (k # rest) [a])"
      unfolding eq by simp
    have f4: "\<forall>j<length [a].
           reconciled e (configs ! (i + j)) ((k # rest) ! j) (tr @ checks (take j (zip (k # rest) [a])))
             ([a] ! j)
             (if Suc j = length [a] then fst (resize_loop e configs i (k # rest) tr) else None)"
    proof (intro allI impI)
      fix j assume "j < length [a]"
      then have j: "j = 0" by simp
      show "reconciled e (configs ! (i + j)) ((k # rest) ! j) (tr @ checks (take j (zip (k # rest) [a])))
             ([a] ! j)
             (if Suc j = length [a] then fst (resize_loop e configs i (k # rest) tr) else None)"
        unfolding j eq using rec Some by simp
    qed
    have f5: "fst (resize_loop e configs i (k # rest) tr) = None \<longrightarrow> length [a] = length (k # rest)"
      unfolding eq by simp
    from f1 f2 f3 f4 f5 show ?thesis
      by (intro exI [of _ "[a]"] conjI)
  next
    case None
    let ?tr1 = "tr @ checks [(k, a)]"
    have eq: "resize_loop e configs i (k # rest) tr = resize_loop e configs (Suc i) rest ?tr1"
      using eq0 None by simp
    from Cons.IH [OF i', of ?tr1] obtain acts where
      a: "length acts \<le> length rest" and a': "rest \<noteq> [] \<longrightarrow> acts \<noteq> []"
      and b: "snd (resize_loop e configs (Suc i) rest ?tr1) = ?tr1 @ checks (zip rest acts)"
      and c: "\<forall>j<length acts.
           reconciled e (configs ! (Suc i + j)) (rest ! j) (?tr1 @ checks (take j (zip rest acts)))
             (acts ! j)
             (if Suc j = length acts then fst (resize_loop e configs (Suc i) rest ?tr1) else None)"
      and d: "fst (resize_loop e configs (Suc i) rest ?tr1) = None \<longrightarrow> length acts = length rest"
      by (elim exE conjE)
    have nil: "acts = [] \<Longrightarrow> fst (resize_loop e configs (Suc i) rest ?tr1) = None"
      using a' by (cases rest) auto
    have c': "\<forall>j<length (a # acts).
           reconciled e (configs ! (i + j)) ((k # rest) ! j)
             (tr @ checks (take j (zip (k # rest) (a # acts)))) ((a # acts) ! j)
             (if Suc j = length (a # acts) then fst (resize_loop e configs i (k # rest) tr) else None)"
    proof (intro allI impI)
      fix j assume j: "j < length (a # acts)"
      show "reconciled e (configs ! (i + j)) ((k # rest) ! j)
             (tr @ checks (take j (zip (k # rest) (a # acts)))) ((a # acts) ! j)
             (if Suc j = length (a # acts) then fst (resize_loop e configs i (k # rest) tr) else None)"
      proof (cases j)
        case 0
        then show ?thesis using rec None nil by (auto simp: eq simp del: resize_loop.simps)
      next
        case (Suc j')
        with j have "j' < length acts" by simp
        with c have "reconciled e (configs ! (Suc i + j')) (rest ! j')
             (?tr1 @ checks (take j' (zip rest acts))) (acts ! j')
             (if Suc j' = length acts then fst (resize_loop e configs (Suc i) rest ?tr1) else None)"
          by (elim allE [of _ j']) (rule mp)
        then have "reconciled e (configs ! (i + Suc j')) ((k # rest) ! Suc j')
             (tr @ checks (take (Suc j') (zip (k # rest) (a # acts)))) ((a # acts) ! Suc j')
             (if Suc (Suc j') = length (a # acts) then fst (resize_loop e configs i (k # rest) tr) else None)"
          by (simp add: eq del: resize_loop.simps split: if_splits)
        then show ?thesis
          unfolding Suc .
      qed
    qed
    have e1: "length (a # acts) \<le> length (k # rest)" using a by simp
    have e2: "k # rest \<noteq> [] \<longrightarrow> a # acts \<noteq> []" by simp
    have e3: "snd (resize_loop e configs i (k # rest) tr) = tr @ checks (zip (k # rest) (a # acts))"
      unfolding eq b by simp
    have e4: "fst (resize_loop e configs i (k # rest) tr) = None
                \<longrightarrow> length (a # acts) = length (k # rest)"
      unfolding eq using d by simp
    from e1 e2 e3 c' e4 show ?thesis
      by (intro exI [of _ "a # acts"] conjI)
  qed
qed

text \<open>
  Claim C8. \<open>CheckAndResizeImportedDisks\<close> on as many configurations as disk keys
  (as \<open>StepVMCreate\<close> stores them): the disks are checked in the order of the list;
  the history is, for each disk that was reached, the request that reads it and at most
  one resize request. \<open>reconciled\<close> holds for each of these disks: the size that was
  read, divided by \<open>1024 * 1024 * 1024\<close> in \<open>int64\<close>, is compared with the requested
  size; when they are equal no resize is sent, otherwise exactly one, for the requested
  size; a failed read or resize ends the check with an error. When no error is returned
  every disk has been checked. In \<open>StepWaitForDiskImport.Run\<close> the check follows the
  wait for the imports once that has ended without error, and an error of the check makes
  the step halt with the error, wrapped, under \<open>error\<close> in the state.
\<close>

theorem resize_after_import:
  assumes len: "length diskConfigs = length diskKeys"
  shows "\<exists>acts. length acts \<le> length diskKeys \<and> (diskKeys \<noteq> [] \<longrightarrow> acts \<noteq> [])
     \<and> snd (CheckAndResizeImportedDisks e diskConfigs diskKeys tr) = tr @ checks (zip diskKeys acts)
     \<and> (\<forall>j<length acts.
           reconciled e (diskConfigs ! j) (diskKeys ! j) (tr @ checks (take j (zip diskKeys acts)))
             (acts ! j)
             (if Suc j = length acts
              then fst (CheckAndResizeImportedDisks e diskConfigs diskKeys tr) else None))
     \<and> (fst (CheckAndResizeImportedDisks e diskConfigs diskKeys tr) = None
            \<longrightarrow> length acts = length diskKeys)
     \<and> (state ''import_disk_keys'' = Some (VStrings diskKeys)
          \<and> state ''import_disk_configs'' = Some (VDisks diskConfigs) \<and> diskKeys \<noteq> []
          \<and> WaitForDiskImportCompletion e diskKeys 20 tr0 = (None, tr) \<longrightarrow>
          StepWaitForDiskImport_Run e state tr0
            = (case fst (CheckAndResizeImportedDisks e diskConfigs diskKeys tr) of
                 Some err \<Rightarrow>
                   Returned ActionHalt
                     (state(''error'' \<mapsto> VError (Errorf ''disk resize after import failed: %w''
                                                    [AErr err])))
                     (snd (CheckAndResizeImportedDisks e diskConfigs diskKeys tr))
               | None \<Rightarrow>
                   Returned ActionContinue state
                     (snd (CheckAndResizeImportedDisks e diskConfigs diskKeys tr))))"
proof -
  let ?R = "CheckAndResizeImportedDisks e diskConfigs diskKeys tr"
  have run: "state ''import_disk_keys'' = Some (VStrings diskKeys)
          \<and> state ''import_disk_configs'' = Some (VDisks diskConfigs) \<and> diskKeys \<noteq> []
          \<and> WaitForDiskImportCompletion e diskKeys 20 tr0 = (None, tr) \<longrightarrow>
          StepWaitForDiskImport_Run e state tr0
            = (case fst ?R of
                 Some err \<Rightarrow>
                   Returned ActionHalt
                     (state(''error'' \<mapsto> VError (Errorf ''disk resize after import failed: %w''
                                                    [AErr err])))
                     (snd ?R)
               | None \<Rightarrow> Returned ActionContinue state (snd ?R))"
    using len by (auto simp: StepWaitForDiskImport_Run_def split: prod.splits option.splits)
  have R: "?R = resize_loop e diskConfigs 0 diskKeys tr"
    using len by (cases diskKeys) (auto simp: CheckAndResizeImportedDisks_def)
  have "0 + length diskKeys \<le> length diskConfigs"
    using len by simp
  from resize_loop_char [OF this, of e tr] obtain acts where
    a: "length acts \<le> length diskKeys" and a': "diskKeys \<noteq> [] \<longrightarrow> acts \<noteq> []"
    and b: "snd (resize_loop e diskConfigs 0 diskKeys tr) = tr @ checks (zip diskKeys acts)"
    and c: "\<forall>j<length acts.
           reconciled e (diskConfigs ! (0 + j)) (diskKeys ! j) (tr @ checks (take j (zip diskKeys acts)))
             (acts ! j)
             (if Suc j = length acts then fst (resize_loop e diskConfigs 0 diskKeys tr) else None)"
    and d: "fst (resize_loop e diskConfigs 0 diskKeys tr) = None \<longrightarrow> length acts = length diskKeys"
    by (elim exE conjE)
  have c': "\<forall>j<length acts.
           reconciled e (diskConfigs ! j) (diskKeys ! j) (tr @ checks (take j (zip diskKeys acts)))
             (acts ! j) (if Suc j = length acts then fst ?R else None)"
    using c unfolding R by simp
  from a a' b [folded R] c' d [folded R] run show ?thesis
    by (intro exI [of _ acts] conjI)
qed

lemmas resize_eval = CheckAndResizeImportedDisks_def ReadDisk_def UpdateDiskSize_def Get_def Put_def
  Do_def resize_env_def disk20_def read_request_def resize_request_def int64_quo_def
  signed_divide_int_def

theorem resize_after_import_witness:
  "length [disk20 ''os'', disk20 ''data''] = length [''k1'', ''k2'']
   \<and> CheckAndResizeImportedDisks resize_env [disk20 ''os'', disk20 ''data''] [''k1'', ''k2''] []
       = (None, [Http (read_request ''k1''), Http (resize_request ''k1'' 20),
                 Http (read_request ''k2'')])
   \<and> (\<exists>acts. length acts = 2
          \<and> [Http (read_request ''k1''), Http (resize_request ''k1'' 20), Http (read_request ''k2'')]
              = checks (zip [''k1'', ''k2''] acts))
   \<and> StepWaitForDiskImport_Run resize_env
         (import_state [''k1'', ''k2''] [disk20 ''os'', disk20 ''data'']) []
       = Returned ActionContinue (import_state [''k1'', ''k2''] [disk20 ''os'', disk20 ''data''])
           [Sleep 5, Http (status_request ''k1''), Http (status_request ''k2''),
            Http (read_request ''k1''), Http (resize_request ''k1'' 20), Http (read_request ''k2'')]"
proof -
  let ?cs = "[disk20 ''os'', disk20 ''data'']"
  let ?ks = "[''k1'', ''k2'']"
  let ?t0 = "[Sleep 5, Http (status_request ''k1''), Http (status_request ''k2'')]"
  let ?t1 = "[Http (read_request ''k1''), Http (resize_request ''k1'' 20), Http (read_request ''k2'')]"
  have len: "length ?cs = length ?ks"
    by simp
  have h1: "CheckAndResizeImportedDisks resize_env ?cs ?ks [] = (None, ?t1)"
    by (simp add: resize_eval)
  have h1': "CheckAndResizeImportedDisks resize_env ?cs ?ks ?t0 = (None, ?t0 @ ?t1)"
    by (simp add: resize_eval)
  have h2: "WaitForDiskImportCompletion resize_env ?ks 20 [] = (None, ?t0)"
    by (simp add: WaitForDiskImportCompletion_def wait_disk.simps CheckDiskImportStatus_def
        Get_def Do_def resize_env_def ToLower_def ToLower_char_def status_request_def)
  have s1: "import_state ?ks ?cs ''import_disk_keys'' = Some (VStrings ?ks)"
    and s2: "import_state ?ks ?cs ''import_disk_configs'' = Some (VDisks ?cs)"
    by (simp_all add: import_state_def)
  from resize_after_import [OF len, of resize_env "[]" "import_state [] []" "[]"] obtain acts where
    b: "snd (CheckAndResizeImportedDisks resize_env ?cs ?ks []) = [] @ checks (zip ?ks acts)"
    and d: "fst (CheckAndResizeImportedDisks resize_env ?cs ?ks []) = None
              \<longrightarrow> length acts = length ?ks"
    by (elim exE conjE) (rule that; assumption)
  have p1: "\<exists>acts. length acts = 2 \<and> ?t1 = checks (zip ?ks acts)"
    using b d unfolding h1 by (intro exI [of _ acts]) simp
  from resize_after_import [OF len, of resize_env ?t0 "import_state ?ks ?cs" "[]"]
  have r: "import_state ?ks ?cs ''import_disk_keys'' = Some (VStrings ?ks)
          \<and> import_state ?ks ?cs ''import_disk_configs'' = Some (VDisks ?cs) \<and> ?ks \<noteq> []
          \<and> WaitForDiskImportCompletion resize_env ?ks 20 [] = (None, ?t0) \<longrightarrow>
          StepWaitForDiskImport_Run resize_env (import_state ?ks ?cs) []
            = (case fst (CheckAndResizeImportedDisks resize_env ?cs ?ks ?t0) of
                 Some err \<Rightarrow>
                   Returned ActionHalt
                     ((import_state ?ks ?cs)(''error'' \<mapsto> VError (Errorf ''disk resize after import failed: %w''
                                                    [AErr err])))
                     (snd (CheckAndResizeImportedDisks resize_env ?cs ?ks ?t0))
               | None \<Rightarrow>
                   Returned ActionContinue (import_state ?ks ?cs)
                     (snd (CheckAndResizeImportedDisks resize_env ?cs ?ks ?t0)))"
    by (elim exE conjE)
  have p2: "StepWaitForDiskImport_Run resize_env (import_state ?ks ?cs) []
       = Returned ActionContinue (import_state ?ks ?cs) (?t0 @ ?t1)"
    using r s1 s2 h2 unfolding h1' by simp
  from len h1 p1 p2 show ?thesis
    by (intro conjI) simp_all
qed

subsection \<open>Failed requests in polling loops and in single calls\<close>

lemma running_trace: "snd (IsVMRunning e k tr) = tr @ [Http (running_request k)]"
  by (auto simp: IsVMRunning_def Get_def Do_def running_request_def split: reply.splits doc.splits)

lemma agent_trace: "snd (GetGuestAgentIPs e k tr) = tr @ [Http (dashboard_request k)]"
  by (auto simp: GetGuestAgentIPs_def Get_def Do_def dashboard_request_def
      split: reply.splits doc.splits option.splits)

lemma replicate_shift: "tr @ x # replicate i x = (tr @ [x]) @ replicate i x"
  by simp

lemma power_on_poll_retries:
  "j < n \<Longrightarrow>
   (\<forall>i<j. \<exists>err. fst (IsVMRunning e k (tr @ replicate i (Http (running_request k)))) = Inl err) \<Longrightarrow>
   fst (IsVMRunning e k (tr @ replicate j (Http (running_request k)))) = Inr (Some True) \<Longrightarrow>
   power_on_poll e k n tr = (True, tr @ replicate (Suc j) (Http (running_request k)))"
proof (induction j arbitrary: n tr)
  case 0
  then obtain n' where n: "n = Suc n'" by (cases n) auto
  from 0 have "IsVMRunning e k tr = (Inr (Some True), tr @ [Http (running_request k)])"
    using running_trace [of e k tr] by (simp add: prod_eq_iff)
  then show ?case by (simp add: n)
next
  case (Suc j)
  then obtain n' where n: "n = Suc n'" and j: "j < n'" by (cases n) auto
  let ?tr1 = "tr @ [Http (running_request k)]"
  from Suc.prems(2) obtain err where "fst (IsVMRunning e k (tr @ replicate 0 (Http (running_request k)))) = Inl err"
    by blast
  then have first: "IsVMRunning e k tr = (Inl err, ?tr1)"
    using running_trace [of e k tr] by (simp add: prod_eq_iff)
  have a: "\<forall>i<j. \<exists>err. fst (IsVMRunning e k (?tr1 @ replicate i (Http (running_request k)))) = Inl err"
  proof (intro allI impI)
    fix i assume "i < j"
    then have "Suc i < Suc j" by simp
    with Suc.prems(2) have "\<exists>err. fst (IsVMRunning e k (tr @ replicate (Suc i) (Http (running_request k)))) = Inl err"
      by blast
    then show "\<exists>err. fst (IsVMRunning e k (?tr1 @ replicate i (Http (running_request k)))) = Inl err"
      by simp
  qed
  have b: "fst (IsVMRunning e k (?tr1 @ replicate j (Http (running_request k)))) = Inr (Some True)"
    using Suc.prems(3) by simp
  from Suc.IH [OF j a b] first show ?case
    by (simp add: n)
qed

lemma discovery_loop_retries:
  "j < n \<Longrightarrow>
   (\<forall>i<j. \<exists>err. fst (GetGuestAgentIPs e k (tr @ replicate i (Http (dashboard_request k)))) = Inl err) \<Longrightarrow>
   fst (GetGuestAgentIPs e k (tr @ replicate j (Http (dashboard_request k)))) = Inr ips \<Longrightarrow>
   ips \<noteq> [] \<Longrightarrow>
   discovery_loop e k n tr = (Some ips, tr @ replicate (Suc j) (Http (dashboard_request k)))"
proof (induction j arbitrary: n tr)
  case 0
  then obtain n' where n: "n = Suc n'" by (cases n) auto
  from 0 have "GetGuestAgentIPs e k tr = (Inr ips, tr @ [Http (dashboard_request k)])"
    using agent_trace [of e k tr] by (simp add: prod_eq_iff)
  then show ?case using 0(4) by (simp add: n)
next
  case (Suc j)
  then obtain n' where n: "n = Suc n'" and j: "j < n'" by (cases n) auto
  let ?tr1 = "tr @ [Http (dashboard_request k)]"
  from Suc.prems(2) obtain err where
    "fst (GetGuestAgentIPs e k (tr @ replicate 0 (Http (dashboard_request k)))) = Inl err"
    by blast
  then have first: "GetGuestAgentIPs e k tr = (Inl err, ?tr1)"
    using agent_trace [of e k tr] by (simp add: prod_eq_iff)
  have a: "\<forall>i<j. \<exists>err. fst (GetGuestAgentIPs e k (?tr1 @ replicate i (Http (dashboard_request k)))) = Inl err"
  proof (intro allI impI)
    fix i assume "i < j"
    then have "Suc i < Suc j" by simp
    with Suc.prems(2) have "\<exists>err. fst (GetGuestAgentIPs e k (tr @ replicate (Suc i) (Http (dashboard_request k)))) = Inl err"
      by blast
    then show "\<exists>err. fst (GetGuestAgentIPs e k (?tr1 @ replicate i (Http (dashboard_request k)))) = Inl err"
      by simp
  qed
  have b: "fst (GetGuestAgentIPs e k (?tr1 @ replicate j (Http (dashboard_request k)))) = Inr ips"
    using Suc.prems(3) by simp
  from Suc.IH [OF j a b Suc.prems(4)] first show ?case
    by (simp add: n)
qed

lemma wait_disk_error_fatal:
  "retries < maxRetries \<Longrightarrow> fst (CheckDiskImportStatus e k tr) = Inl err \<Longrightarrow>
   wait_disk e k maxRetries retries tr
     = (Some (Errorf ''failed to check disk import status: %w'' [AErr err]),
        tr @ [Http (status_request k)])"
proof -
  assume a: "retries < maxRetries" "fst (CheckDiskImportStatus e k tr) = Inl err"
  have "snd (CheckDiskImportStatus e k tr) = tr @ [Http (status_request k)]"
    by (auto simp: CheckDiskImportStatus_def Get_def Do_def status_request_def
        split: reply.splits doc.splits)
  with a(2) have "CheckDiskImportStatus e k tr = (Inl err, tr @ [Http (status_request k)])"
    by (simp add: prod_eq_iff)
  with a(1) show ?thesis
    by (simp add: wait_disk.simps [of e k maxRetries retries tr])
qed

lemma create_vm_error_halts:
  "state ''cluster_config'' = Some (VClusterConfig cc) \<Longrightarrow>
   state ''vm_config'' = Some (VVmConfig vm) \<Longrightarrow>
   apiData = \<lparr>api_Id = [], api_Machine = vm_Machine vm, api_Name = vm_Name vm,
               api_GuestAgent = vm_GuestAgent vm, api_CloudInitFiles = vm_CloudInitFiles vm\<rparr> \<Longrightarrow>
   Post e VMEndpoint (VMPayload apiData) tr = (Inl err, tr') \<Longrightarrow>
   StepVMCreate_Run e state tr
     = Returned ActionHalt
         (state(''error'' \<mapsto> VError (Errorf ''error making POST request to %s: %w''
                                        [AStr ''api/v4/vm_actions'', AErr err]))) tr'"
  by (simp add: StepVMCreate_Run_def get_cluster_config_def get_vm_config_def CreateVM_def)

lemma create_disk_error_stops:
  "CreateVMDiskWithKey e \<lparr>disk_Machine = machineID, disk_Name = dc_Name disk,
        disk_Media = dc_Media disk, disk_DiskSize = dc_DiskSize disk\<rparr> tr = (Inl err, tr') \<Longrightarrow>
   create_disks e machineID (disk # rest) importDiskKeys importDiskConfigs tr
     = (Inl (Errorf ''error creating disk '%s': %w'' [AStr (dc_Name disk), AErr err]), tr')"
  by simp

lemma delete_vm_error_returns:
  "Delete e (VMItem vmId) tr = (Inl err, tr') \<Longrightarrow>
   DeleteVM e vmId tr = (Some (Errorf ''error deleting VM %s: %w'' [AStr vmId, AErr err]), tr')"
  by (simp add: DeleteVM_def)

text \<open>
  Claim C6, as amended. A request that fails during a poll is tried again on the next
  tick in two loops: in the running-state loop of the power-on step and in the discovery
  loop of the guest-agent step, \<open>j\<close> failed polls followed by a good one end the
  loop successfully after \<open>j + 1\<close> requests, when the deadline leaves that many ticks.
  In the disk-import loop a failed status request, at whatever retry, ends the wait at
  once with an error and without another request. The calls that are made once fail at
  once: a failed creation of the VM halts the step with the error, a failed creation of
  a disk ends the disk loop with the error, and \<open>DeleteVM\<close> returns the error of its
  single request.
\<close>

theorem gateway_errors_in_polls:
  "(j < n
      \<and> (\<forall>i<j. \<exists>x. fst (IsVMRunning e k (tr @ replicate i (Http (running_request k)))) = Inl x)
      \<and> fst (IsVMRunning e k (tr @ replicate j (Http (running_request k)))) = Inr (Some True)
    \<longrightarrow> power_on_poll e k n tr = (True, tr @ replicate (Suc j) (Http (running_request k))))
   \<and> (j < n
      \<and> (\<forall>i<j. \<exists>x. fst (GetGuestAgentIPs e k (tr @ replicate i (Http (dashboard_request k)))) = Inl x)
      \<and> fst (GetGuestAgentIPs e k (tr @ replicate j (Http (dashboard_request k)))) = Inr ips
      \<and> ips \<noteq> []
    \<longrightarrow> discovery_loop e k n tr = (Some ips, tr @ replicate (Suc j) (Http (dashboard_request k))))
   \<and> (retries < maxRetries \<and> fst (CheckDiskImportStatus e diskKey tr) = Inl err
    \<longrightarrow> wait_disk e diskKey maxRetries retries tr
          = (Some (Errorf ''failed to check disk import status: %w'' [AErr err]),
             tr @ [Http (status_request diskKey)]))
   \<and> (state ''cluster_config'' = Some (VClusterConfig cc)
      \<and> state ''vm_config'' = Some (VVmConfig vm)
      \<and> Post e VMEndpoint
            (VMPayload \<lparr>api_Id = [], api_Machine = vm_Machine vm, api_Name = vm_Name vm,
               api_GuestAgent = vm_GuestAgent vm, api_CloudInitFiles = vm_CloudInitFiles vm\<rparr>) tr
          = (Inl err1, tr1)
    \<longrightarrow> StepVMCreate_Run e state tr
          = Returned ActionHalt
              (state(''error'' \<mapsto> VError (Errorf ''error making POST request to %s: %w''
                                             [AStr ''api/v4/vm_actions'', AErr err1]))) tr1)
   \<and> (CreateVMDiskWithKey e \<lparr>disk_Machine = machineID, disk_Name = dc_Name disk,
          disk_Media = dc_Media disk, disk_DiskSize = dc_DiskSize disk\<rparr> tr = (Inl err2, tr2)
    \<longrightarrow> create_disks e machineID (disk # rest) importDiskKeys importDiskConfigs tr
          = (Inl (Errorf ''error creating disk '%s': %w'' [AStr (dc_Name disk), AErr err2]), tr2))
   \<and> (Delete e (VMItem k) tr = (Inl err3, tr3)
    \<longrightarrow> DeleteVM e k tr = (Some (Errorf ''error deleting VM %s: %w'' [AStr k, AErr err3]), tr3))"
proof (intro conjI impI)
  assume "j < n
      \<and> (\<forall>i<j. \<exists>x. fst (IsVMRunning e k (tr @ replicate i (Http (running_request k)))) = Inl x)
      \<and> fst (IsVMRunning e k (tr @ replicate j (Http (running_request k)))) = Inr (Some True)"
  then show "power_on_poll e k n tr = (True, tr @ replicate (Suc j) (Http (running_request k)))"
    using power_on_poll_retries [of j n e k tr] by (elim conjE)
next
  assume "j < n
      \<and> (\<forall>i<j. \<exists>x. fst (GetGuestAgentIPs e k (tr @ replicate i (Http (dashboard_request k)))) = Inl x)
      \<and> fst (GetGuestAgentIPs e k (tr @ replicate j (Http (dashboard_request k)))) = Inr ips
      \<and> ips \<noteq> []"
  then show "discovery_loop e k n tr = (Some ips, tr @ replicate (Suc j) (Http (dashboard_request k)))"
    using discovery_loop_retries [of j n e k tr ips] by (elim conjE)
next
  assume "retries < maxRetries \<and> fst (CheckDiskImportStatus e diskKey tr) = Inl err"
  then show "wait_disk e diskKey maxRetries retries tr
          = (Some (Errorf ''failed to check disk import status: %w'' [AErr err]),
             tr @ [Http (status_request diskKey)])"
    using wait_disk_error_fatal [of retries maxRetries e diskKey tr err] by (elim conjE)
next
  assume "state ''cluster_config'' = Some (VClusterConfig cc)
      \<and> state ''vm_config'' = Some (VVmConfig vm)
      \<and> Post e VMEndpoint
            (VMPayload \<lparr>api_Id = [], api_Machine = vm_Machine vm, api_Name = vm_Name vm,
               api_GuestAgent = vm_GuestAgent vm, api_CloudInitFiles = vm_CloudInitFiles vm\<rparr>) tr
          = (Inl err1, tr1)"
  then show "StepVMCreate_Run e state tr
          = Returned ActionHalt
              (state(''error'' \<mapsto> VError (Errorf ''error making POST request to %s: %w''
                                             [AStr ''api/v4/vm_actions'', AErr err1]))) tr1"
    using create_vm_error_halts [OF _ _ refl, of state cc vm e tr err1 tr1] by (elim conjE)
next
  assume "CreateVMDiskWithKey e \<lparr>disk_Machine = machineID, disk_Name = dc_Name disk,
          disk_Media = dc_Media disk, disk_DiskSize = dc_DiskSize disk\<rparr> tr = (Inl err2, tr2)"
  then show "create_disks e machineID (disk # rest) importDiskKeys importDiskConfigs tr
          = (Inl (Errorf ''error creating disk '%s': %w'' [AStr (dc_Name disk), AErr err2]), tr2)"
    by (rule create_disk_error_stops)
next
  assume "Delete e (VMItem k) tr = (Inl err3, tr3)"
  then show "DeleteVM e k tr = (Some (Errorf ''error deleting VM %s: %w'' [AStr k, AErr err3]), tr3)"
    by (rule delete_vm_error_returns)
qed

lemmas flaky_eval = flaky_env_def requests_def Get_def Post_def Delete_def Do_def
  IsVMRunning_def GetGuestAgentIPs_def CheckDiskImportStatus_def CreateVMDiskWithKey_def
  guest_ipv4_def running_request_def dashboard_request_def status_request_def delete_request_def

theorem gateway_errors_in_polls_witness:
  "power_on_poll (flaky_env (Suc (Suc 0))) ''42'' (Suc (Suc (Suc 0))) []
     = (True, replicate (Suc (Suc (Suc 0))) (Http (running_request ''42'')))
   \<and> discovery_loop (flaky_env (Suc (Suc 0))) ''42'' (Suc (Suc (Suc 0))) []
     = (Some [''10.0.0.9''], replicate (Suc (Suc (Suc 0))) (Http (dashboard_request ''42'')))
   \<and> wait_disk (flaky_env (Suc (Suc 0))) ''k1'' 20 0 []
     = (Some (Errorf ''failed to check disk import status: %w''
          [AErr (Errorf ''failed to get disk status: %w'' [AErr (ApiError 503 (DiskItem ''k1''))])]),
        [Http (status_request ''k1'')])
   \<and> (\<exists>tr1. length tr1 = 1
        \<and> StepVMCreate_Run (flaky_env (Suc (Suc 0))) (Builder_state (plain_config True [])) []
          = Returned ActionHalt
              ((Builder_state (plain_config True []))(''error'' \<mapsto> VError
                 (Errorf ''error making POST request to %s: %w''
                    [AStr ''api/v4/vm_actions'', AErr (ApiError 503 VMEndpoint)]))) tr1)
   \<and> (\<exists>tr2. length tr2 = 1
        \<and> create_disks (flaky_env (Suc (Suc 0))) 7 [\<lparr>dc_Name = ''os'', dc_Media = ''disk'', dc_DiskSize = 20\<rparr>]
            [] [] []
          = (Inl (Errorf ''error creating disk '%s': %w''
                    [AStr ''os'', AErr (ApiError 503 DiskEndpoint)]), tr2))
   \<and> DeleteVM (flaky_env (Suc (Suc 0))) ''42'' []
     = (Some (Errorf ''error deleting VM %s: %w'' [AStr ''42'', AErr (ApiError 503 (VMItem ''42''))]),
        [Http (delete_request ''42'')])"
proof -
  let ?e = "flaky_env (Suc (Suc 0))"
  let ?vm = "cfg_VmConfig (plain_config True [])"
  let ?api = "\<lparr>api_Id = [], api_Machine = vm_Machine ?vm, api_Name = vm_Name ?vm,
               api_GuestAgent = vm_GuestAgent ?vm, api_CloudInitFiles = vm_CloudInitFiles ?vm\<rparr>"
  let ?disk = "\<lparr>dc_Name = ''os'', dc_Media = ''disk'', dc_DiskSize = 20\<rparr>"
  let ?tr1 = "[Http \<lparr>req_method = POST, req_endpoint = VMEndpoint, req_payload = VMPayload ?api,
                       req_fields = []\<rparr>]"
  let ?tr2 = "[Http \<lparr>req_method = POST, req_endpoint = DiskEndpoint,
                  req_payload = DiskPayload \<lparr>disk_Machine = 7, disk_Name = dc_Name ?disk,
                     disk_Media = dc_Media ?disk, disk_DiskSize = dc_DiskSize ?disk\<rparr>,
                  req_fields = []\<rparr>]"
  note inst = gateway_errors_in_polls [where e = ?e and k = "''42''" and tr = "[]"
      and j = "Suc (Suc 0)" and n = "Suc (Suc (Suc 0))" and ips = "[''10.0.0.9'']"
      and retries = 0 and maxRetries = 20 and diskKey = "''k1''"
      and err = "Errorf ''failed to get disk status: %w'' [AErr (ApiError 503 (DiskItem ''k1''))]"
      and state = "Builder_state (plain_config True [])"
      and cc = "cfg_ClusterConfig (plain_config True [])" and vm = ?vm
      and ?err1.0 = "ApiError 503 VMEndpoint" and ?tr1.0 = ?tr1
      and machineID = 7 and disk = ?disk and rest = "[]" and importDiskKeys = "[]"
      and importDiskConfigs = "[]"
      and ?err2.0 = "ApiError 503 DiskEndpoint" and ?tr2.0 = ?tr2
      and ?err3.0 = "ApiError 503 (VMItem ''42'')" and ?tr3.0 = "[Http (delete_request ''42'')]"]
  have h1: "Suc (Suc 0) < Suc (Suc (Suc 0))
      \<and> (\<forall>i<Suc (Suc 0). \<exists>x. fst (IsVMRunning ?e ''42'' ([] @ replicate i (Http (running_request ''42'')))) = Inl x)
      \<and> fst (IsVMRunning ?e ''42'' ([] @ replicate (Suc (Suc 0)) (Http (running_request ''42'')))) = Inr (Some True)"
    by (simp add: flaky_eval All_less_Suc)
  have h2: "Suc (Suc 0) < Suc (Suc (Suc 0))
      \<and> (\<forall>i<Suc (Suc 0). \<exists>x. fst (GetGuestAgentIPs ?e ''42'' ([] @ replicate i (Http (dashboard_request ''42'')))) = Inl x)
      \<and> fst (GetGuestAgentIPs ?e ''42'' ([] @ replicate (Suc (Suc 0)) (Http (dashboard_request ''42'')))) = Inr [''10.0.0.9'']
      \<and> [''10.0.0.9''] \<noteq> []"
    by (simp add: flaky_eval All_less_Suc)
  have h3: "(0::int) < 20 \<and> fst (CheckDiskImportStatus ?e ''k1'' [])
       = Inl (Errorf ''failed to get disk status: %w'' [AErr (ApiError 503 (DiskItem ''k1''))])"
    by (simp add: flaky_eval)
  have h4: "Builder_state (plain_config True []) ''cluster_config''
         = Some (VClusterConfig (cfg_ClusterConfig (plain_config True [])))
      \<and> Builder_state (plain_config True []) ''vm_config'' = Some (VVmConfig ?vm)
      \<and> Post ?e VMEndpoint (VMPayload ?api) [] = (Inl (ApiError 503 VMEndpoint), ?tr1)"
    by (simp add: flaky_eval Builder_state_def)
  have h5: "CreateVMDiskWithKey ?e \<lparr>disk_Machine = 7, disk_Name = dc_Name ?disk,
          disk_Media = dc_Media ?disk, disk_DiskSize = dc_DiskSize ?disk\<rparr> []
        = (Inl (ApiError 503 DiskEndpoint), ?tr2)"
    by (simp add: flaky_eval)
  have h6: "Delete ?e (VMItem ''42'') [] = (Inl (ApiError 503 (VMItem ''42'')), [Http (delete_request ''42'')])"
    by (simp add: flaky_eval)
  have c1: "power_on_poll ?e ''42'' (Suc (Suc (Suc 0))) []
     = (True, replicate (Suc (Suc (Suc 0))) (Http (running_request ''42'')))"
    using inst [THEN conjunct1, THEN mp, OF h1] by simp
  have c2: "discovery_loop ?e ''42'' (Suc (Suc (Suc 0))) []
     = (Some [''10.0.0.9''], replicate (Suc (Suc (Suc 0))) (Http (dashboard_request ''42'')))"
    using inst [THEN conjunct2, THEN conjunct1, THEN mp, OF h2] by simp
  have c3: "wait_disk ?e ''k1'' 20 0 []
     = (Some (Errorf ''failed to check disk import status: %w''
          [AErr (Errorf ''failed to get disk status: %w'' [AErr (ApiError 503 (DiskItem ''k1''))])]),
        [Http (status_request ''k1'')])"
    using inst [THEN conjunct2, THEN conjunct2, THEN conjunct1, THEN mp, OF h3] by simp
  have c4: "StepVMCreate_Run ?e (Builder_state (plain_config True [])) []
          = Returned ActionHalt
              ((Builder_state (plain_config True []))(''error'' \<mapsto> VError
                 (Errorf ''error making POST request to %s: %w''
                    [AStr ''api/v4/vm_actions'', AErr (ApiError 503 VMEndpoint)]))) ?tr1"
    using inst [THEN conjunct2, THEN conjunct2, THEN conjunct2, THEN conjunct1, THEN mp, OF h4] .
  have c5: "create_disks ?e 7 [?disk] [] [] []
          = (Inl (Errorf ''error creating disk '%s': %w''
                    [AStr ''os'', AErr (ApiError 503 DiskEndpoint)]), ?tr2)"
    using inst [THEN conjunct2, THEN conjunct2, THEN conjunct2, THEN conjunct2, THEN conjunct1,
        THEN mp, OF h5] by simp
  have c6: "DeleteVM ?e ''42'' []
     = (Some (Errorf ''error deleting VM %s: %w'' [AStr ''42'', AErr (ApiError 503 (VMItem ''42''))]),
        [Http (delete_request ''42'')])"
    using inst [THEN conjunct2, THEN conjunct2, THEN conjunct2, THEN conjunct2, THEN conjunct2,
        THEN mp, OF h6] .
  have c4': "\<exists>tr1. length tr1 = 1
        \<and> StepVMCreate_Run ?e (Builder_state (plain_config True [])) []
          = Returned ActionHalt
              ((Builder_state (plain_config True []))(''error'' \<mapsto> VError
                 (Errorf ''error making POST request to %s: %w''
                    [AStr ''api/v4/vm_actions'', AErr (ApiError 503 VMEndpoint)]))) tr1"
    using c4 by (intro exI [of _ ?tr1]) simp
  have c5': "\<exists>tr2. length tr2 = 1
        \<and> create_disks ?e 7 [?disk] [] [] []
          = (Inl (Errorf ''error creating disk '%s': %w''
                    [AStr ''os'', AErr (ApiError 503 DiskEndpoint)]), tr2)"
    using c5 by (intro exI [of _ ?tr2]) simp
  from c1 c2 c3 c4' c5' c6 show ?thesis
    by (intro conjI)
qed

text \<open>
  Claim C6 as stated fails for the disk-import poll: the control plane refuses the first
  status request and would have answered the next one with "online". The wait ends with
  an error after one request, and the step halts.
\<close>

theorem import_poll_error_is_fatal:
  "WaitForDiskImportCompletion (flaky_env (Suc 0)) [''k1''] 20 []
     = (Some (Errorf ''failed to check disk import status: %w''
          [AErr (Errorf ''failed to get disk status: %w'' [AErr (ApiError 503 (DiskItem ''k1''))])]),
        [Sleep 5, Http (status_request ''k1'')])
   \<and> fst (CheckDiskImportStatus (flaky_env (Suc 0)) ''k1''
            [Sleep 5, Http (status_request ''k1''), Sleep 5]) = Inr ''online''
   \<and> StepWaitForDiskImport_Run (flaky_env (Suc 0)) (import_state [''k1''] []) []
     = Returned ActionHalt
         ((import_state [''k1''] [])(''error'' \<mapsto> VError (Errorf ''disk import failed: %w''
            [AErr (Errorf ''failed to check disk import status: %w''
               [AErr (Errorf ''failed to get disk status: %w''
                  [AErr (ApiError 503 (DiskItem ''k1''))])])])))
         [Sleep 5, Http (status_request ''k1'')]"
  by (simp add: WaitForDiskImportCompletion_def wait_disk.simps StepWaitForDiskImport_Run_def
      import_state_def flaky_eval)

subsection \<open>The static address of the network configuration\<close>

lemma takeWhile_group:
  "list_all P a \<Longrightarrow> \<not> P x \<Longrightarrow> takeWhile P (a @ x # r) = a \<and> dropWhile P (a @ x # r) = x # r"
  by (induction a) auto

lemma digits_then_iff:
  assumes "\<not> is_digit c"
  shows "digits_then c s = Some (ds, r) \<longleftrightarrow> digit_group 3 ds \<and> s = ds @ c # r"
proof
  assume a: "digits_then c s = Some (ds, r)"
  then have ds: "ds = takeWhile is_digit s" and len: "1 \<le> length ds" "length ds \<le> 3"
    and dr: "dropWhile is_digit s = c # r"
    by (auto simp: digits_then_def Let_def split: if_splits list.splits)
  have "s = takeWhile is_digit s @ dropWhile is_digit s" by simp
  then have "s = ds @ c # r" using ds dr by simp
  moreover have "list_all is_digit ds"
    unfolding ds list_all_iff by (auto dest: set_takeWhileD)
  ultimately show "digit_group 3 ds \<and> s = ds @ c # r"
    using len by (simp add: digit_group_def)
next
  assume a: "digit_group 3 ds \<and> s = ds @ c # r"
  then have "takeWhile is_digit s = ds \<and> dropWhile is_digit s = c # r"
    using takeWhile_group [of is_digit ds c r] assms by (simp add: digit_group_def)
  then show "digits_then c s = Some (ds, r)"
    using a by (simp add: digits_then_def digit_group_def)
qed

lemma not_digit_dot: "\<not> is_digit CHR ''.''" and not_digit_slash: "\<not> is_digit CHR ''/''"
  by (simp_all add: is_digit_def)

lemma digits_then_None:
  assumes "\<not> is_digit c"
  shows "digits_then c s = None \<longleftrightarrow> \<not> (\<exists>ds r. digit_group 3 ds \<and> s = ds @ c # r)"
proof -
  have "digits_then c s \<noteq> None \<longleftrightarrow> (\<exists>ds r. digits_then c s = Some (ds, r))"
    by auto
  also have "\<dots> \<longleftrightarrow> (\<exists>ds r. digit_group 3 ds \<and> s = ds @ c # r)"
    using digits_then_iff [OF assms] by simp
  finally show ?thesis by blast
qed

lemma match_quad_iff: "match_quad s = Some g \<longleftrightarrow> quad_prefix s g"
proof
  assume "match_quad s = Some g"
  then obtain a s1 b s2 c s3 d s4 x tl where
    1: "digits_then CHR ''.'' s = Some (a, s1)" and 2: "digits_then CHR ''.'' s1 = Some (b, s2)"
    and 3: "digits_then CHR ''.'' s2 = Some (c, s3)" and 4: "digits_then CHR ''/'' s3 = Some (d, s4)"
    and 5: "s4 = x # tl" "is_digit x" and g: "g = a @ ''.'' @ b @ ''.'' @ c @ ''.'' @ d"
    by (auto simp: match_quad_def split: option.splits list.splits if_splits)
  from 1 2 3 4 have "digit_group 3 a" "s = a @ CHR ''.'' # s1" "digit_group 3 b" "s1 = b @ CHR ''.'' # s2"
    "digit_group 3 c" "s2 = c @ CHR ''.'' # s3" "digit_group 3 d" "s3 = d @ CHR ''/'' # s4"
    by (simp_all add: digits_then_iff not_digit_dot not_digit_slash)
  moreover have "digit_group 2 [x]" using 5 by (simp add: digit_group_def)
  ultimately show "quad_prefix s g"
    unfolding quad_prefix_def using 5 g
    by (intro exI [of _ a] exI [of _ b] exI [of _ c] exI [of _ d] exI [of _ "[x]"] exI [of _ tl]) simp
next
  assume "quad_prefix s g"
  then obtain a b c d p tl where
    s: "s = a @ ''.'' @ b @ ''.'' @ c @ ''.'' @ d @ ''/'' @ p @ tl"
    and dg: "digit_group 3 a" "digit_group 3 b" "digit_group 3 c" "digit_group 3 d" "digit_group 2 p"
    and g: "g = a @ ''.'' @ b @ ''.'' @ c @ ''.'' @ d"
    unfolding quad_prefix_def by blast
  from dg(5) obtain x p' where p: "p = x # p'" "is_digit x"
    by (cases p) (auto simp: digit_group_def)
  let ?s4 = "p @ tl"
  let ?s3 = "d @ CHR ''/'' # ?s4"
  let ?s2 = "c @ CHR ''.'' # ?s3"
  let ?s1 = "b @ CHR ''.'' # ?s2"
  have 1: "digits_then CHR ''.'' s = Some (a, ?s1)"
    using dg(1) s by (simp add: digits_then_iff not_digit_dot)
  have 2: "digits_then CHR ''.'' ?s1 = Some (b, ?s2)"
    using dg(2) by (simp add: digits_then_iff not_digit_dot)
  have 3: "digits_then CHR ''.'' ?s2 = Some (c, ?s3)"
    using dg(3) by (simp add: digits_then_iff not_digit_dot)
  have 4: "digits_then CHR ''/'' ?s3 = Some (d, ?s4)"
    using dg(4) by (simp add: digits_then_iff not_digit_slash)
  have "match_quad s = (case p @ tl of [] \<Rightarrow> None
          | x # rest \<Rightarrow> if is_digit x then Some (a @ ''.'' @ b @ ''.'' @ c @ ''.'' @ d) else None)"
    by (simp only: match_quad_def 1 2 3 4 option.case prod.case)
  then show "match_quad s = Some g"
    using p g by simp
qed

lemma match_quad_Nil: "match_quad [] = None"
  by (simp add: match_quad_def digits_then_def)

lemma find_quad_iff:
  "find_quad b s = Some g \<longleftrightarrow>
     (\<exists>pre rest. s = pre @ rest \<and> at_boundary b pre \<and> match_quad rest = Some g
        \<and> (\<forall>pre' rest'. s = pre' @ rest' \<and> length pre' < length pre \<and> at_boundary b pre'
               \<longrightarrow> match_quad rest' = None))"
  (is "?L b s \<longleftrightarrow> ?R b s")
proof (induction s arbitrary: b)
  case Nil
  show ?case by (simp add: match_quad_Nil)
next
  case (Cons c cs)
  show ?case
  proof (cases "b \<and> match_quad (c # cs) \<noteq> None")
    case True
    then obtain g0 where g0: "match_quad (c # cs) = Some g0" and b: b by auto
    then have L: "find_quad b (c # cs) = Some g0" by simp
    show ?thesis
    proof
      assume "find_quad b (c # cs) = Some g"
      then have "g = g0" using L by simp
      then show "?R b (c # cs)"
        using g0 b by (intro exI [of _ "[]"] exI [of _ "c # cs"]) (simp add: at_boundary_def)
    next
      assume "?R b (c # cs)"
      then obtain pre rest where pr: "c # cs = pre @ rest" "at_boundary b pre"
        "match_quad rest = Some g"
        and left: "\<forall>pre' rest'. c # cs = pre' @ rest' \<and> length pre' < length pre \<and> at_boundary b pre'
               \<longrightarrow> match_quad rest' = None"
        by blast
      have "pre = []"
      proof (rule ccontr)
        assume "pre \<noteq> []"
        then have "length [] < length pre" by simp
        with left [rule_format, of "[]" "c # cs"] b have "match_quad (c # cs) = None"
          by (simp add: at_boundary_def)
        with g0 show False by simp
      qed
      with pr g0 have "g = g0" by simp
      with L show "find_quad b (c # cs) = Some g" by simp
    qed
  next
    case False
    then have nb: "b \<Longrightarrow> match_quad (c # cs) = None" by auto
    have L: "find_quad b (c # cs) = find_quad (is_space c) cs"
      using False by (cases b) auto
    have bnd: "at_boundary b (c # pre) = at_boundary (is_space c) pre" for pre
      by (simp add: at_boundary_def)
    show ?thesis
    proof
      assume "find_quad b (c # cs) = Some g"
      then have "?R (is_space c) cs" using L Cons.IH [of "is_space c"] by simp
      then obtain pre rest where pr: "cs = pre @ rest" "at_boundary (is_space c) pre"
        "match_quad rest = Some g"
        and left: "\<forall>pre' rest'. cs = pre' @ rest' \<and> length pre' < length pre
               \<and> at_boundary (is_space c) pre' \<longrightarrow> match_quad rest' = None"
        by blast
      have left': "\<forall>pre' rest'. c # cs = pre' @ rest' \<and> length pre' < length (c # pre)
               \<and> at_boundary b pre' \<longrightarrow> match_quad rest' = None"
      proof (intro allI impI)
        fix pre' rest'
        assume a: "c # cs = pre' @ rest' \<and> length pre' < length (c # pre) \<and> at_boundary b pre'"
        show "match_quad rest' = None"
        proof (cases pre')
          case Nil
          with a nb show ?thesis by (simp add: at_boundary_def)
        next
          case (Cons c' pre'')
          with a have "cs = pre'' @ rest'" "length pre'' < length pre" "at_boundary (is_space c) pre''"
            and "c' = c"
            by (auto simp: at_boundary_def)
          with left show ?thesis by blast
        qed
      qed
      show "?R b (c # cs)"
        using pr left' by (intro exI [of _ "c # pre"] exI [of _ rest]) (simp add: bnd)
    next
      assume "?R b (c # cs)"
      then obtain pre rest where pr: "c # cs = pre @ rest" "at_boundary b pre"
        "match_quad rest = Some g"
        and left: "\<forall>pre' rest'. c # cs = pre' @ rest' \<and> length pre' < length pre \<and> at_boundary b pre'
               \<longrightarrow> match_quad rest' = None"
        by blast
      have "pre \<noteq> []"
      proof
        assume "pre = []"
        with pr nb show False by (simp add: at_boundary_def)
      qed
      then obtain pre0 where pre: "pre = c # pre0" using pr(1) by (cases pre) auto
      have cs: "cs = pre0 @ rest" using pr(1) pre by simp
      have b0: "at_boundary (is_space c) pre0" using pr(2) pre by (simp add: bnd)
      have left0: "\<forall>pre' rest'. cs = pre' @ rest' \<and> length pre' < length pre0
               \<and> at_boundary (is_space c) pre' \<longrightarrow> match_quad rest' = None"
      proof (intro allI impI)
        fix pre' rest'
        assume a: "cs = pre' @ rest' \<and> length pre' < length pre0 \<and> at_boundary (is_space c) pre'"
        then have "c # cs = (c # pre') @ rest' \<and> length (c # pre') < length pre \<and> at_boundary b (c # pre')"
          using pre by (simp add: bnd)
        with left show "match_quad rest' = None" by blast
      qed
      have "?R (is_space c) cs"
        using cs b0 pr(3) left0 by (intro exI [of _ pre0] exI [of _ rest]) simp
      then show "find_quad b (c # cs) = Some g"
        using L Cons.IH [of "is_space c"] by simp
    qed
  qed
qed


lemma find_quad_None:
  "find_quad b s = None \<longleftrightarrow>
     (\<forall>pre rest. s = pre @ rest \<and> at_boundary b pre \<longrightarrow> match_quad rest = None)"
proof (induction s arbitrary: b)
  case Nil
  show ?case by (simp add: match_quad_Nil)
next
  case (Cons c cs)
  have bnd: "at_boundary b (c # pre) = at_boundary (is_space c) pre" for pre
    by (simp add: at_boundary_def)
  have "find_quad b (c # cs) = None
      \<longleftrightarrow> (b \<longrightarrow> match_quad (c # cs) = None) \<and> find_quad (is_space c) cs = None"
    by (auto split: option.splits)
  also have "\<dots> \<longleftrightarrow> (b \<longrightarrow> match_quad (c # cs) = None)
      \<and> (\<forall>pre rest. cs = pre @ rest \<and> at_boundary (is_space c) pre \<longrightarrow> match_quad rest = None)"
    using Cons.IH [of "is_space c"] by simp
  also have "\<dots> \<longleftrightarrow> (\<forall>pre rest. c # cs = pre @ rest \<and> at_boundary b pre \<longrightarrow> match_quad rest = None)"
    (is "?A \<longleftrightarrow> ?B")
  proof
    assume a: ?A
    show ?B
    proof (intro allI impI)
      fix pre rest assume h: "c # cs = pre @ rest \<and> at_boundary b pre"
      show "match_quad rest = None"
      proof (cases pre)
        case Nil
        with h a show ?thesis by (simp add: at_boundary_def)
      next
        case (Cons c' pre0)
        with h have "cs = pre0 @ rest" "at_boundary (is_space c) pre0"
          by (auto simp: at_boundary_def)
        with a show ?thesis by blast
      qed
    qed
  next
    assume b: ?B
    have 1: "b \<longrightarrow> match_quad (c # cs) = None"
      using b [rule_format, of "[]" "c # cs"] by (simp add: at_boundary_def)
    have 2: "\<forall>pre rest. cs = pre @ rest \<and> at_boundary (is_space c) pre \<longrightarrow> match_quad rest = None"
    proof (intro allI impI)
      fix pre rest assume "cs = pre @ rest \<and> at_boundary (is_space c) pre"
      then have "c # cs = (c # pre) @ rest \<and> at_boundary b (c # pre)"
        by (simp add: bnd)
      with b show "match_quad rest = None" by blast
    qed
    from 1 2 show ?A by simp
  qed
  finally show ?case .
qed

lemma at_boundary_True: "at_boundary True pre \<longleftrightarrow> pre = [] \<or> is_space (last pre)"
  by (simp add: at_boundary_def)

lemma FindStringSubmatch1_None: "FindStringSubmatch1 s = None \<longleftrightarrow> \<not> has_match s"
proof -
  have "has_match s \<longleftrightarrow> (\<exists>pre rest g. s = pre @ rest \<and> at_boundary True pre \<and> match_quad rest = Some g)"
    unfolding has_match_def pattern_match_def at_boundary_True match_quad_iff by blast
  also have "\<dots> \<longleftrightarrow> \<not> (\<forall>pre rest. s = pre @ rest \<and> at_boundary True pre \<longrightarrow> match_quad rest = None)"
    by auto
  finally have "has_match s \<longleftrightarrow> find_quad True s \<noteq> None"
    unfolding find_quad_None [of True s] .
  then show ?thesis
    unfolding FindStringSubmatch1_def by simp
qed

lemma FindStringSubmatch1_Some: "FindStringSubmatch1 s = Some g \<longleftrightarrow> first_match s g"
proof
  assume "FindStringSubmatch1 s = Some g"
  then obtain pre rest where pr: "s = pre @ rest" "at_boundary True pre" "match_quad rest = Some g"
    and left: "\<forall>pre' rest'. s = pre' @ rest' \<and> length pre' < length pre \<and> at_boundary True pre'
               \<longrightarrow> match_quad rest' = None"
    unfolding FindStringSubmatch1_def find_quad_iff by blast
  have m: "pattern_match s pre g"
    unfolding pattern_match_def using pr by (auto simp: at_boundary_True match_quad_iff)
  have "length pre \<le> length pre'" if "pattern_match s pre' g'" for pre' g'
  proof (rule ccontr)
    assume "\<not> length pre \<le> length pre'"
    then have lt: "length pre' < length pre" by simp
    from that obtain rest' where "s = pre' @ rest'" "at_boundary True pre'" "match_quad rest' = Some g'"
      unfolding pattern_match_def by (auto simp: at_boundary_True match_quad_iff)
    with left lt show False by force
  qed
  with m show "first_match s g" unfolding first_match_def by blast
next
  assume "first_match s g"
  then obtain pre where m: "pattern_match s pre g"
    and least: "\<forall>pre' g'. pattern_match s pre' g' \<longrightarrow> length pre \<le> length pre'"
    unfolding first_match_def by blast
  from m obtain rest where pr: "s = pre @ rest" "at_boundary True pre" "match_quad rest = Some g"
    unfolding pattern_match_def by (auto simp: at_boundary_True match_quad_iff)
  have left: "\<forall>pre' rest'. s = pre' @ rest' \<and> length pre' < length pre \<and> at_boundary True pre'
               \<longrightarrow> match_quad rest' = None"
  proof (intro allI impI)
    fix pre' rest'
    assume h: "s = pre' @ rest' \<and> length pre' < length pre \<and> at_boundary True pre'"
    show "match_quad rest' = None"
    proof (cases "match_quad rest'")
      case None then show ?thesis .
    next
      case (Some g')
      with h have "pattern_match s pre' g'"
        unfolding pattern_match_def by (auto simp: at_boundary_True match_quad_iff)
      with least have "length pre \<le> length pre'" by blast
      with h show ?thesis by simp
    qed
  qed
  show "FindStringSubmatch1 s = Some g"
    unfolding FindStringSubmatch1_def find_quad_iff
    using pr left by (intro exI [of _ pre] exI [of _ rest] conjI)
qed

lemma extract_loop_None:
  "extract_loop files = None
     \<longleftrightarrow> (\<forall>f\<in>set files. cif_Name f = ''network-config'' \<longrightarrow> \<not> has_match (cif_Contents f))"
  by (induction files) (auto simp: FindStringSubmatch1_None [symmetric] split: option.splits)

lemma extract_loop_first:
  assumes "cif_Name f = ''network-config''" and "first_match (cif_Contents f) g"
    and "\<forall>f'\<in>set before. cif_Name f' = ''network-config'' \<longrightarrow> \<not> has_match (cif_Contents f')"
  shows "extract_loop (before @ f # after) = Some g"
  using assms(3)
proof (induction before)
  case Nil
  show ?case using assms(1,2) by (simp add: FindStringSubmatch1_Some [symmetric])
next
  case (Cons f' before)
  then show ?case by (auto simp: FindStringSubmatch1_None [symmetric])
qed

lemma power_on_poll_trace:
  "power_on_poll e k n tr = (b, tr') \<Longrightarrow> \<exists>m\<le>n. tr' = tr @ replicate m (Http (running_request k))"
proof (induction n arbitrary: tr)
  case 0
  then show ?case by simp
next
  case (Suc n)
  let ?tr1 = "tr @ [Http (running_request k)]"
  obtain r where r: "IsVMRunning e k tr = (r, ?tr1)"
    using running_trace [of e k tr] by (cases "IsVMRunning e k tr") simp
  show ?case
  proof (cases "r = Inr (Some True)")
    case True
    with Suc.prems r have "tr' = tr @ replicate 1 (Http (running_request k))" by simp
    then show ?thesis by (intro exI [of _ 1]) simp
  next
    case False
    with Suc.prems r have "power_on_poll e k n ?tr1 = (b, tr')"
      by (cases r) (auto split: if_splits)
    from Suc.IH [OF this] obtain m where "m \<le> n" "tr' = ?tr1 @ replicate m (Http (running_request k))"
      by blast
    then have "Suc m \<le> Suc n \<and> tr' = tr @ replicate (Suc m) (Http (running_request k))"
      by simp
    then show ?thesis by blast
  qed
qed

lemma PowerOnVM_trace:
  "PowerOnVM e k tr = (None, tr1) \<Longrightarrow> tr1 = tr @ [Http (poweron_request k), Sleep 10]"
  by (auto simp: PowerOnVM_def changeVMPowerState_def Post_def Do_def poweron_request_def
      split: reply.splits if_splits prod.splits option.splits sum.splits)

lemma block_text_match: "FindStringSubmatch1 block_text = Some ''10.0.0.5''"
  by (simp add: FindStringSubmatch1_def block_text_def match_quad_def digits_then_def is_digit_def is_space_def)

lemma flow_text_no_match: "FindStringSubmatch1 flow_text = None"
  by (simp add: FindStringSubmatch1_def flow_text_def match_quad_def digits_then_def is_digit_def is_space_def)

lemma power_on_eval: "PowerOnVM (simple_env True) ''42'' [] = (None, [Http (poweron_request ''42''), Sleep 10])
  \<and> power_on_poll (simple_env True) ''42'' (Suc (Suc 0)) [Http (poweron_request ''42''), Sleep 10]
      = (True, [Http (poweron_request ''42''), Sleep 10, Http (running_request ''42'')])"
  by (simp add: PowerOnVM_def changeVMPowerState_def Post_def Get_def Do_def IsVMRunning_def
    simple_env_def poweron_request_def running_request_def)

text \<open>
  Claim C4, as amended. \<open>StepPowerOn.Run\<close> in a state that holds the cluster
  configuration, the VM key and the configuration, when the power-on request succeeds and a
  poll sees the VM running. Up to then the history holds the power-on request, the pause
  and the polls of the running state, and the step sends nothing after it: the guest agent
  is not asked. If the first payload named \<open>network-config\<close> in which the pattern
  matches has the leftmost match \<open>g\<close> (four groups of one to three digits separated by
  dots, at the start of the payload or directly after a white-space character, followed by
  a slash and a digit), the step continues with \<open>g\<close> as \<open>host\<close> and as the only
  element of \<open>discovered_ips\<close>. If the pattern matches in no payload of that name
  and the guest agent is disabled, the step halts with the error that no discovery method
  is available.
\<close>

theorem static_address_wins:
  assumes cc: "state ''cluster_config'' = Some (VClusterConfig cc)"
    and key: "state ''vm_id'' = Some (VString key)"
    and cfg: "state ''config'' = Some (VConfig config)"
    and on: "PowerOnVM e key tr = (None, tr1)"
    and running: "power_on_poll e key ticks tr1 = (True, tr2)"
  shows "(\<exists>m\<le>ticks. tr2 = tr @ [Http (poweron_request key), Sleep 10]
                              @ replicate m (Http (running_request key)))
    \<and> (\<forall>before f after g.
          vm_CloudInitFiles (cfg_VmConfig config) = before @ f # after
          \<and> cif_Name f = ''network-config'' \<and> first_match (cif_Contents f) g
          \<and> (\<forall>f'\<in>set before. cif_Name f' = ''network-config'' \<longrightarrow> \<not> has_match (cif_Contents f'))
          \<longrightarrow> StepPowerOn_Run s e ticks state tr
              = Returned ActionContinue
                  (state(''vm_powered_on'' \<mapsto> VBool True, ''host'' \<mapsto> VString g,
                         ''discovered_ips'' \<mapsto> VStrings [g])) tr2)
    \<and> ((\<forall>f\<in>set (vm_CloudInitFiles (cfg_VmConfig config)).
            cif_Name f = ''network-config'' \<longrightarrow> \<not> has_match (cif_Contents f))
          \<and> \<not> vm_GuestAgent (cfg_VmConfig config)
          \<longrightarrow> StepPowerOn_Run s e ticks state tr
              = Returned ActionHalt
                  (state(''vm_powered_on'' \<mapsto> VBool True,
                         ''error'' \<mapsto> VError (Errorf
                            ''no IP discovery method available - enable guest_agent or configure static IP''
                            []))) tr2)"
proof -
  have run: "StepPowerOn_Run s e ticks state tr =
      (case extractIPFromCloudInit config of
         Inl err \<Rightarrow>
           if vm_GuestAgent (cfg_VmConfig config)
           then Returned ActionContinue (state(''vm_powered_on'' \<mapsto> VBool True)) tr2
           else Returned ActionHalt
                  (state(''vm_powered_on'' \<mapsto> VBool True,
                         ''error'' \<mapsto> VError (Errorf
                            ''no IP discovery method available - enable guest_agent or configure static IP''
                            []))) tr2
       | Inr staticIP \<Rightarrow>
           Returned ActionContinue
             (state(''vm_powered_on'' \<mapsto> VBool True, ''host'' \<mapsto> VString staticIP,
                    ''discovered_ips'' \<mapsto> VStrings [staticIP])) tr2)"
    using cc key cfg on running
    by (simp add: StepPowerOn_Run_def get_cluster_config_def as_string_def get_config_def Let_def
        split: sum.splits)
  have trace: "\<exists>m\<le>ticks. tr2 = tr @ [Http (poweron_request key), Sleep 10]
                              @ replicate m (Http (running_request key))"
    using power_on_poll_trace [OF running] PowerOnVM_trace [OF on] by simp
  have found: "StepPowerOn_Run s e ticks state tr
              = Returned ActionContinue
                  (state(''vm_powered_on'' \<mapsto> VBool True, ''host'' \<mapsto> VString g,
                         ''discovered_ips'' \<mapsto> VStrings [g])) tr2"
    if "vm_CloudInitFiles (cfg_VmConfig config) = before @ f # after
          \<and> cif_Name f = ''network-config'' \<and> first_match (cif_Contents f) g
          \<and> (\<forall>f'\<in>set before. cif_Name f' = ''network-config'' \<longrightarrow> \<not> has_match (cif_Contents f'))"
    for before f after g
  proof -
    from that have "extract_loop (vm_CloudInitFiles (cfg_VmConfig config)) = Some g"
      using extract_loop_first [of f g before after] by simp
    then show ?thesis by (simp add: run extractIPFromCloudInit_def)
  qed
  have missing: "StepPowerOn_Run s e ticks state tr
              = Returned ActionHalt
                  (state(''vm_powered_on'' \<mapsto> VBool True,
                         ''error'' \<mapsto> VError (Errorf
                            ''no IP discovery method available - enable guest_agent or configure static IP''
                            []))) tr2"
    if "(\<forall>f\<in>set (vm_CloudInitFiles (cfg_VmConfig config)).
            cif_Name f = ''network-config'' \<longrightarrow> \<not> has_match (cif_Contents f))
          \<and> \<not> vm_GuestAgent (cfg_VmConfig config)"
  proof -
    from that have "extract_loop (vm_CloudInitFiles (cfg_VmConfig config)) = None"
      by (simp add: extract_loop_None)
    with that show ?thesis by (simp add: run extractIPFromCloudInit_def)
  qed
  show ?thesis
  proof (rule conjI [OF trace], rule conjI)
    show "\<forall>before f after g.
          vm_CloudInitFiles (cfg_VmConfig config) = before @ f # after
          \<and> cif_Name f = ''network-config'' \<and> first_match (cif_Contents f) g
          \<and> (\<forall>f'\<in>set before. cif_Name f' = ''network-config'' \<longrightarrow> \<not> has_match (cif_Contents f'))
          \<longrightarrow> StepPowerOn_Run s e ticks state tr
              = Returned ActionContinue
                  (state(''vm_powered_on'' \<mapsto> VBool True, ''host'' \<mapsto> VString g,
                         ''discovered_ips'' \<mapsto> VStrings [g])) tr2"
      using found by blast
    show "(\<forall>f\<in>set (vm_CloudInitFiles (cfg_VmConfig config)).
            cif_Name f = ''network-config'' \<longrightarrow> \<not> has_match (cif_Contents f))
          \<and> \<not> vm_GuestAgent (cfg_VmConfig config)
          \<longrightarrow> StepPowerOn_Run s e ticks state tr
              = Returned ActionHalt
                  (state(''vm_powered_on'' \<mapsto> VBool True,
                         ''error'' \<mapsto> VError (Errorf
                            ''no IP discovery method available - enable guest_agent or configure static IP''
                            []))) tr2"
      using missing by blast
  qed
qed

theorem static_address_wins_witness:
  "PowerOnVM (simple_env True) ''42'' [] = (None, [Http (poweron_request ''42''), Sleep 10])
   \<and> power_on_poll (simple_env True) ''42'' (Suc (Suc 0)) [Http (poweron_request ''42''), Sleep 10]
       = (True, [Http (poweron_request ''42''), Sleep 10, Http (running_request ''42'')])
   \<and> first_match block_text ''10.0.0.5''
   \<and> StepPowerOn_Run \<lparr>PowerOnTimeout = 0, BootTimeout = 0\<rparr> (simple_env True) (Suc (Suc 0))
        (created_state (plain_config False [network_config block_text])) []
      = Returned ActionContinue
          ((created_state (plain_config False [network_config block_text]))
             (''vm_powered_on'' \<mapsto> VBool True, ''host'' \<mapsto> VString ''10.0.0.5'',
              ''discovered_ips'' \<mapsto> VStrings [''10.0.0.5'']))
          [Http (poweron_request ''42''), Sleep 10, Http (running_request ''42'')]
   \<and> StepPowerOn_Run \<lparr>PowerOnTimeout = 0, BootTimeout = 0\<rparr> (simple_env True) (Suc (Suc 0))
        (created_state (plain_config False [])) []
      = Returned ActionHalt
          ((created_state (plain_config False []))
             (''vm_powered_on'' \<mapsto> VBool True,
              ''error'' \<mapsto> VError (Errorf
                 ''no IP discovery method available - enable guest_agent or configure static IP'' [])))
          [Http (poweron_request ''42''), Sleep 10, Http (running_request ''42'')]"
proof -
  let ?s = "\<lparr>PowerOnTimeout = 0, BootTimeout = 0\<rparr>"
  let ?tr1 = "[Http (poweron_request ''42''), Sleep 10]"
  let ?tr2 = "[Http (poweron_request ''42''), Sleep 10, Http (running_request ''42'')]"
  have on: "PowerOnVM (simple_env True) ''42'' [] = (None, ?tr1)"
    and running: "power_on_poll (simple_env True) ''42'' (Suc (Suc 0)) ?tr1 = (True, ?tr2)"
    using power_on_eval by simp_all
  have fm: "first_match block_text ''10.0.0.5''"
    using block_text_match by (simp add: FindStringSubmatch1_Some)
  have st: "created_state c ''cluster_config'' = Some (VClusterConfig (cfg_ClusterConfig c))"
    "created_state c ''vm_id'' = Some (VString ''42'')"
    "created_state c ''config'' = Some (VConfig c)" for c
    by (simp_all add: created_state_def Builder_state_def)
  note a = static_address_wins [where s = ?s and config = "plain_config False [network_config block_text]",
      OF st on running, THEN conjunct2, THEN conjunct1, rule_format, of "[]" "network_config block_text" "[]" "''10.0.0.5''"]
  note b = static_address_wins [where s = ?s and config = "plain_config False []",
      OF st on running, THEN conjunct2, THEN conjunct2, rule_format]
  have 1: "StepPowerOn_Run ?s (simple_env True) (Suc (Suc 0))
        (created_state (plain_config False [network_config block_text])) []
      = Returned ActionContinue
          ((created_state (plain_config False [network_config block_text]))
             (''vm_powered_on'' \<mapsto> VBool True, ''host'' \<mapsto> VString ''10.0.0.5'',
              ''discovered_ips'' \<mapsto> VStrings [''10.0.0.5''])) ?tr2"
    using fm by (intro a) (simp add: plain_config_def network_config_def)
  have 2: "StepPowerOn_Run ?s (simple_env True) (Suc (Suc 0))
        (created_state (plain_config False [])) []
      = Returned ActionHalt
          ((created_state (plain_config False []))
             (''vm_powered_on'' \<mapsto> VBool True,
              ''error'' \<mapsto> VError (Errorf
                 ''no IP discovery method available - enable guest_agent or configure static IP'' []))) ?tr2"
    by (intro b) (simp add: plain_config_def)
  from on running fm 1 2 show ?thesis by (intro conjI)
qed

text \<open>
  The address of a flow sequence, \<open>addresses: [10.0.0.5/24]\<close>, follows a bracket, not
  white space: the pattern does not match, no host is stored, and with the guest agent
  disabled the step halts although the payload contains an IPv4 address in CIDR notation.
\<close>

theorem static_address_missed_in_flow_sequence:
  "contains_ipv4_cidr flow_text ''10.0.0.5/24''
   \<and> StepPowerOn_Run \<lparr>PowerOnTimeout = 0, BootTimeout = 0\<rparr> (simple_env True) (Suc (Suc 0))
        (created_state (plain_config False [network_config flow_text])) []
      = Returned ActionHalt
          ((created_state (plain_config False [network_config flow_text]))
             (''vm_powered_on'' \<mapsto> VBool True,
              ''error'' \<mapsto> VError (Errorf
                 ''no IP discovery method available - enable guest_agent or configure static IP'' [])))
          [Http (poweron_request ''42''), Sleep 10, Http (running_request ''42'')]"
proof (rule conjI)
  have "ipv4_cidr ''10.0.0.5/24''"
    unfolding ipv4_cidr_def
    by (intro exI [of _ "''10''"] exI [of _ "''0''"] exI [of _ "''5''"] exI [of _ "''24''"])
       (simp add: digit_group_def is_digit_def decimal_def)
  moreover have "flow_text = ''addresses: ['' @ ''10.0.0.5/24'' @ '']''"
    by (simp add: flow_text_def)
  ultimately show "contains_ipv4_cidr flow_text ''10.0.0.5/24''"
    unfolding contains_ipv4_cidr_def by blast
next
  show "StepPowerOn_Run \<lparr>PowerOnTimeout = 0, BootTimeout = 0\<rparr> (simple_env True) (Suc (Suc 0))
        (created_state (plain_config False [network_config flow_text])) []
      = Returned ActionHalt
          ((created_state (plain_config False [network_config flow_text]))
             (''vm_powered_on'' \<mapsto> VBool True,
              ''error'' \<mapsto> VError (Errorf
                 ''no IP discovery method available - enable guest_agent or configure static IP'' [])))
          [Http (poweron_request ''42''), Sleep 10, Http (running_request ''42'')]"
    using flow_text_no_match
    by (simp add: StepPowerOn_Run_def power_on_eval created_state_def Builder_state_def
        get_cluster_config_def as_string_def get_config_def extractIPFromCloudInit_def
        plain_config_def network_config_def del: power_on_poll.simps)
qed

subsection \<open>A pipeline without the discovery step\<close>

lemma StepVMCreate_Run_frame:
  assumes "state ''cluster_config'' = Some (VClusterConfig cc)"
    and "state ''vm_config'' = Some (VVmConfig vm)"
  shows "\<exists>a state' tr'. StepVMCreate_Run e state tr = Returned a state' tr'
           \<and> state' ''host'' = state ''host'' \<and> state' ''config'' = state ''config''
           \<and> state' ''cluster_config'' = state ''cluster_config''
           \<and> (a = ActionContinue \<longrightarrow> (\<exists>k. state' ''vm_id'' = Some (VString k)))"
  using assms unfolding StepVMCreate_Run_def get_cluster_config_def get_vm_config_def Let_def
  by (auto split: option.splits prod.splits sum.splits if_splits)

lemma StepWaitForDiskImport_Run_frame:
  "\<exists>a state' tr'. StepWaitForDiskImport_Run e state tr = Returned a state' tr'
           \<and> (\<forall>k. k \<noteq> ''error'' \<longrightarrow> state' k = state k)"
  unfolding StepWaitForDiskImport_Run_def Let_def
  by (auto split: option.splits prod.splits sum.splits if_splits val.splits)

lemma StepPowerOn_Run_frame:
  assumes "state ''config'' = Some (VConfig cfg)"
    and "extractIPFromCloudInit cfg = Inl err"
    and "StepPowerOn_Run s e n state tr = Returned a state' tr'"
  shows "state' ''host'' = state ''host''"
  using assms unfolding StepPowerOn_Run_def get_cluster_config_def get_config_def Let_def
  by (auto split: option.splits prod.splits sum.splits if_splits val.splits bool.splits)

lemma StepPowerOn_Run_returns:
  assumes "state ''cluster_config'' = Some (VClusterConfig cc)"
    and "state ''vm_id'' = Some (VString k)"
    and "state ''config'' = Some (VConfig cfg)"
  shows "\<exists>a state' tr'. StepPowerOn_Run s e n state tr = Returned a state' tr'"
  using assms unfolding StepPowerOn_Run_def get_cluster_config_def get_config_def Let_def as_string_def
  by (auto split: option.splits prod.splits sum.splits if_splits val.splits bool.splits)

lemma StepShutdown_Run_frame:
  "StepShutdown_Run s e script state tr = Returned a state' tr' \<Longrightarrow> state' ''host'' = state ''host''"
  unfolding StepShutdown_Run_def performForcedShutdown_def Let_def
  by (auto split: option.splits prod.splits sum.splits if_splits val.splits cmd_outcome.splits)

lemma cleanups_frame:
  "StepWaitForDiskImport_Cleanup state tr = Some (state', tr') \<Longrightarrow> state' = state"
  "StepPowerOn_Cleanup state tr = Some (state', tr') \<Longrightarrow> state' = state"
  "StepShutdown_Cleanup state tr = Some (state', tr') \<Longrightarrow> state' = state"
  unfolding StepWaitForDiskImport_Cleanup_def StepPowerOn_Cleanup_def StepShutdown_Cleanup_def
  by (auto split: option.splits bool.splits)


lemma steps_before_connect:
  "takeWhile (\<lambda>step. step \<noteq> Connect) (Builder_steps cfg)
     = [VMCreate, WaitForDiskImport,
        PowerOn \<lparr>PowerOnTimeout = (if cfg_PowerOnTimeout cfg = 0 then 2 * 60
                                     else cfg_PowerOnTimeout cfg),
                 BootTimeout = (if cfg_BootTimeout cfg = 0 then 5 * 60
                                else cfg_BootTimeout cfg)\<rparr>]"
  by (simp add: Builder_steps_def)

lemma getHostFunc_absent:
  "state ''host'' = None \<Longrightarrow>
     getHostFunc state = Some (Inl (Errorf ''no host found in state - IP discovery may have failed'' []))"
  by (simp add: getHostFunc_def)

lemma run_before_connect:
  assumes nostatic: "extractIPFromCloudInit cfg = Inl err"
  shows "\<exists>executed action state tr.
        run_steps w [VMCreate, WaitForDiskImport, PowerOn s] [] (Builder_state cfg) []
          = RunEnds executed action state tr
        \<and> state ''host'' = None"
proof -
  let ?st0 = "Builder_state cfg"
  have st0: "?st0 ''cluster_config'' = Some (VClusterConfig (cfg_ClusterConfig cfg))"
    "?st0 ''vm_config'' = Some (VVmConfig (cfg_VmConfig cfg))"
    "?st0 ''config'' = Some (VConfig cfg)" "?st0 ''host'' = None"
    by (simp_all add: Builder_state_def)
  from StepVMCreate_Run_frame [OF st0(1,2), of "w_env w" "[]"]
  obtain a1 st1 tr1 where r1: "StepVMCreate_Run (w_env w) ?st0 [] = Returned a1 st1 tr1"
    and f1: "st1 ''host'' = None" "st1 ''config'' = Some (VConfig cfg)"
      "st1 ''cluster_config'' = Some (VClusterConfig (cfg_ClusterConfig cfg))"
    and k1: "a1 = ActionContinue \<longrightarrow> (\<exists>k. st1 ''vm_id'' = Some (VString k))"
    using st0 by (elim exE conjE) (rule that; simp)
  show ?thesis
  proof (cases a1)
    case ActionHalt
    with r1 f1 show ?thesis by (simp add: Step_Run_def)
  next
    case ActionContinue
    with k1 obtain k where k: "st1 ''vm_id'' = Some (VString k)" by blast
    from StepWaitForDiskImport_Run_frame [of "w_env w" st1 tr1]
    obtain a2 st2 tr2 where r2: "StepWaitForDiskImport_Run (w_env w) st1 tr1 = Returned a2 st2 tr2"
      and f2: "\<forall>k. k \<noteq> ''error'' \<longrightarrow> st2 k = st1 k"
      by (elim exE conjE)
    have s2: "st2 ''host'' = None" "st2 ''config'' = Some (VConfig cfg)"
      "st2 ''cluster_config'' = Some (VClusterConfig (cfg_ClusterConfig cfg))"
      "st2 ''vm_id'' = Some (VString k)"
      using f2 f1 k by simp_all
    show ?thesis
    proof (cases a2)
      case ActionHalt
      with r1 r2 s2 \<open>a1 = ActionContinue\<close> show ?thesis by (simp add: Step_Run_def)
    next
      case c2: ActionContinue
      from StepPowerOn_Run_returns [OF s2(3) s2(4) s2(2), of s "w_env w" "w_power_on_ticks w" tr2]
      obtain a3 st3 tr3 where
        r3: "StepPowerOn_Run s (w_env w) (w_power_on_ticks w) st2 tr2 = Returned a3 st3 tr3"
        by (elim exE)
      from StepPowerOn_Run_frame [OF s2(2) nostatic r3] s2 have "st3 ''host'' = None" by simp
      with r1 r2 r3 \<open>a1 = ActionContinue\<close> c2 show ?thesis
        by (cases a3) (simp_all add: Step_Run_def)
    qed
  qed
qed

text \<open>
  Claim C9. The pipeline that \<open>Builder.Run\<close> assembles holds no \<open>StepWaitForIP\<close>.
  For every configuration from whose cloud-init payloads no static address is extracted,
  whether the guest agent is enabled or not, and whatever the control plane and the clocks
  do: the steps that come before the SDK's connect step return, the state they leave has
  no \<open>host\<close>, and on it the function of \<open>getHostFunc\<close> returns its error. No
  \<open>Run\<close> of a step of this repository in the pipeline changes \<open>host\<close>, and no
  \<open>Cleanup\<close> changes the state at all.
\<close>

theorem pipeline_never_stores_host:
  assumes nostatic: "extractIPFromCloudInit cfg = Inl err"
  shows "(\<forall>s. WaitForIP s \<notin> set (Builder_steps cfg))
    \<and> (\<exists>executed action state tr.
          run_steps w (takeWhile (\<lambda>step. step \<noteq> Connect) (Builder_steps cfg)) []
              (Builder_state cfg) []
            = RunEnds executed action state tr
          \<and> state ''host'' = None
          \<and> getHostFunc state
              = Some (Inl (Errorf ''no host found in state - IP discovery may have failed'' [])))
    \<and> (\<forall>step\<in>set (Builder_steps cfg). \<forall>state tr a state' tr'.
          step \<noteq> Connect \<and> step \<noteq> Provision \<and> state ''config'' = Some (VConfig cfg)
          \<and> Step_Run w step state tr = Some (Returned a state' tr')
          \<longrightarrow> state' ''host'' = state ''host'')
    \<and> (\<forall>step\<in>set (Builder_steps cfg). \<forall>state tr state' tr'.
          step \<noteq> Connect \<and> step \<noteq> Provision
          \<and> Step_Cleanup w step state tr = Some (state', tr')
          \<longrightarrow> state' = state)"
proof -
  have absent: "\<forall>s. WaitForIP s \<notin> set (Builder_steps cfg)"
    by (simp add: Builder_steps_def)
  have run: "\<exists>executed action state tr.
          run_steps w (takeWhile (\<lambda>step. step \<noteq> Connect) (Builder_steps cfg)) []
              (Builder_state cfg) []
            = RunEnds executed action state tr
          \<and> state ''host'' = None
          \<and> getHostFunc state
              = Some (Inl (Errorf ''no host found in state - IP discovery may have failed'' []))"
  proof -
    from run_before_connect [OF nostatic] obtain executed action state tr where
      "run_steps w (takeWhile (\<lambda>step. step \<noteq> Connect) (Builder_steps cfg)) []
              (Builder_state cfg) [] = RunEnds executed action state tr"
      "state ''host'' = None"
      unfolding steps_before_connect by blast
    then show ?thesis using getHostFunc_absent [of state] by blast
  qed
  have runs: "\<forall>step\<in>set (Builder_steps cfg). \<forall>state tr a state' tr'.
          step \<noteq> Connect \<and> step \<noteq> Provision \<and> state ''config'' = Some (VConfig cfg)
          \<and> Step_Run w step state tr = Some (Returned a state' tr')
          \<longrightarrow> state' ''host'' = state ''host''"
  proof (intro ballI allI impI)
    fix step state tr a state' tr'
    assume mem: "step \<in> set (Builder_steps cfg)"
      and h: "step \<noteq> Connect \<and> step \<noteq> Provision \<and> state ''config'' = Some (VConfig cfg)
          \<and> Step_Run w step state tr = Some (Returned a state' tr')"
    from mem h consider "step = VMCreate" | "step = WaitForDiskImport"
      | s where "step = PowerOn s" | s where "step = Shutdown s"
      by (auto simp: Builder_steps_def)
    then show "state' ''host'' = state ''host''"
    proof cases
      case 1
      with h have r: "StepVMCreate_Run (w_env w) state tr = Returned a state' tr'"
        by (simp add: Step_Run_def)
      then show ?thesis
        unfolding StepVMCreate_Run_def get_cluster_config_def get_vm_config_def Let_def
        by (auto split: option.splits prod.splits sum.splits if_splits val.splits)
    next
      case 2
      with h have r: "StepWaitForDiskImport_Run (w_env w) state tr = Returned a state' tr'"
        by (simp add: Step_Run_def)
      with StepWaitForDiskImport_Run_frame [of "w_env w" state tr] show ?thesis by auto
    next
      case 3
      with h have "StepPowerOn_Run s (w_env w) (w_power_on_ticks w) state tr = Returned a state' tr'"
        by (simp add: Step_Run_def)
      with StepPowerOn_Run_frame [OF _ nostatic] h show ?thesis by blast
    next
      case 4
      with h have "StepShutdown_Run s (w_env w) (w_shutdown w) state tr = Returned a state' tr'"
        by (simp add: Step_Run_def)
      then show ?thesis by (rule StepShutdown_Run_frame)
    qed
  qed
  have cleanups: "\<forall>step\<in>set (Builder_steps cfg). \<forall>state tr state' tr'.
          step \<noteq> Connect \<and> step \<noteq> Provision
          \<and> Step_Cleanup w step state tr = Some (state', tr')
          \<longrightarrow> state' = state"
  proof (intro ballI allI impI)
    fix step state tr state' tr'
    assume mem: "step \<in> set (Builder_steps cfg)"
      and h: "step \<noteq> Connect \<and> step \<noteq> Provision
          \<and> Step_Cleanup w step state tr = Some (state', tr')"
    from mem h consider "step = VMCreate" | "step = WaitForDiskImport"
      | s where "step = PowerOn s" | s where "step = Shutdown s"
      by (auto simp: Builder_steps_def)
    then show "state' = state"
    proof cases
      case 1
      with h cleanup_frame [of "w_env w" state tr state' tr'] show ?thesis
        by (simp add: Step_Cleanup_def)
    next
      case 2
      with h cleanups_frame(1) [of state tr state' tr'] show ?thesis
        by (simp add: Step_Cleanup_def)
    next
      case 3
      with h cleanups_frame(2) [of state tr state' tr'] show ?thesis
        by (simp add: Step_Cleanup_def)
    next
      case 4
      with h cleanups_frame(3) [of state tr state' tr'] show ?thesis
        by (simp add: Step_Cleanup_def)
    qed
  qed
  from absent run runs cleanups show ?thesis by (intro conjI)
qed

theorem pipeline_never_stores_host_witness:
  "extractIPFromCloudInit (plain_config True [])
     = Inl (Errorf ''no static IP address found in cloud-init network-config'' [])
   \<and> vm_GuestAgent (cfg_VmConfig (plain_config True []))
   \<and> (\<exists>executed state tr.
          run_steps (demo_world (simple_env True))
              (takeWhile (\<lambda>step. step \<noteq> Connect) (Builder_steps (plain_config True []))) []
              (Builder_state (plain_config True [])) []
            = RunEnds executed ActionContinue state tr
          \<and> state ''host'' = None
          \<and> getHostFunc state
              = Some (Inl (Errorf ''no host found in state - IP discovery may have failed'' [])))"
proof -
  let ?cfg = "plain_config True []"
  let ?run = "run_steps (demo_world (simple_env True))
              (takeWhile (\<lambda>step. step \<noteq> Connect) (Builder_steps ?cfg)) [] (Builder_state ?cfg) []"
  have ex: "extractIPFromCloudInit ?cfg
     = Inl (Errorf ''no static IP address found in cloud-init network-config'' [])"
    by (simp add: extractIPFromCloudInit_def plain_config_def)
  have ga: "vm_GuestAgent (cfg_VmConfig ?cfg)" by (simp add: plain_config_def)
  have ev: "\<exists>executed state tr. ?run = RunEnds executed ActionContinue state tr"
    by (simp add: Step_Run_def step_defs api_defs demo_world_def simple_env_def plain_config_def
        Builder_steps_def Builder_state_def extractIPFromCloudInit_def)
  from pipeline_never_stores_host [OF ex, of "demo_world (simple_env True)", THEN conjunct2, THEN conjunct1]
  obtain executed action state tr where r: "?run = RunEnds executed action state tr"
    and h: "state ''host'' = None"
      "getHostFunc state
         = Some (Inl (Errorf ''no host found in state - IP discovery may have failed'' []))"
    by (elim exE conjE)
  from ev r have "action = ActionContinue" by auto
  with r h have "\<exists>executed state tr. ?run = RunEnds executed ActionContinue state tr
          \<and> state ''host'' = None
          \<and> getHostFunc state
              = Some (Inl (Errorf ''no host found in state - IP discovery may have failed'' []))"
    by blast
  with ex ga show ?thesis by (intro conjI)
qed

end
